theory Spec2Isabelle
  imports Complex_Main
begin

section \<open>JSON values and the JavaScript notions the handlers rely on\<close>

text \<open>
  Strings are byte strings (the UTF-8 form of the JavaScript string). A JSON number is
  carried by its exact decimal value; the doubles of the code agree with it on the
  integers below \<open>2^53\<close>, which covers row ids and epoch milliseconds. \<open>undefined\<close>
  is \<open>None\<close> of an option type.
\<close>

datatype json =
    JNull
  | JBool bool
  | JNum rat
  | JStr string
  | JArr "json list"
  | JObj "(string \<times> json) list"

text \<open>\<open>!v\<close>: undefined, null, false, 0 and the empty string are falsy.\<close>

fun falsy :: "json option \<Rightarrow> bool" where
  "falsy None = True"
| "falsy (Some JNull) = True"
| "falsy (Some (JBool b)) = (\<not> b)"
| "falsy (Some (JNum r)) = (r = 0)"
| "falsy (Some (JStr s)) = (s = [])"
| "falsy (Some (JArr xs)) = False"
| "falsy (Some (JObj kvs)) = False"

text \<open>\<open>!s\<close> for a value that is a string or undefined.\<close>

definition blank :: "string option \<Rightarrow> bool" where
  "blank s = (case s of None \<Rightarrow> True | Some t \<Rightarrow> t = [])"

text \<open>\<open>a || b\<close> and \<open>a ?? null\<close> on optional strings.\<close>

definition or_else :: "string option \<Rightarrow> string \<Rightarrow> string" where
  "or_else a b = (case a of None \<Rightarrow> b | Some t \<Rightarrow> if t = [] then b else t)"

definition nullish :: "'a option option \<Rightarrow> 'a option" where
  "nullish a = (case a of None \<Rightarrow> None | Some v \<Rightarrow> v)"

section \<open>base64: \<open>btoa\<close>, \<open>atob\<close> and \<open>Buffer\<close>\<close>

definition b64chars :: string where
  "b64chars = ''ABCDEFGHIJKLMNOPQRSTUVWXYZabcdefghijklmnopqrstuvwxyz0123456789+/''"

definition enc64 :: "int \<Rightarrow> char" where
  "enc64 n = b64chars ! nat n"

fun base64_encode :: "string \<Rightarrow> string" where
  "base64_encode [] = []"
| "base64_encode [a] =
     (let x = of_char a :: int
      in [enc64 (x div 4), enc64 (x mod 4 * 16), CHR ''='', CHR ''=''])"
| "base64_encode [a, b] =
     (let x = of_char a :: int; y = of_char b :: int
      in [enc64 (x div 4), enc64 (x mod 4 * 16 + y div 16), enc64 (y mod 16 * 4), CHR ''=''])"
| "base64_encode (a # b # c # rest) =
     (let x = of_char a :: int; y = of_char b :: int; z = of_char c :: int
      in enc64 (x div 4) # enc64 (x mod 4 * 16 + y div 16) #
         enc64 (y mod 16 * 4 + z div 64) # enc64 (z mod 64) # base64_encode rest)"

definition unbase64 :: "char \<Rightarrow> int option" where
  "unbase64 c =
     (if c = CHR ''-'' then Some 62 else if c = CHR ''_'' then Some 63
      else map_of (zip b64chars [0..63]) c)"

fun decode_groups :: "int list \<Rightarrow> string" where
  "decode_groups (a # b # c # d # rest) =
     char_of (a * 4 + b div 16) # char_of (b mod 16 * 16 + c div 4) #
     char_of (c mod 4 * 64 + d) # decode_groups rest"
| "decode_groups [a, b, c] = [char_of (a * 4 + b div 16), char_of (b mod 16 * 16 + c div 4)]"
| "decode_groups [a, b] = [char_of (a * 4 + b div 16)]"
| "decode_groups _ = []"

text \<open>
  Decoding as Node does it: it stops at the first \<open>=\<close>, skips every character outside
  the alphabet, and accepts the URL-safe \<open>-\<close> and \<open>_\<close>.
\<close>

definition sextets :: "string \<Rightarrow> int list" where
  "sextets s = List.map_filter unbase64 (takeWhile (\<lambda>c. c \<noteq> CHR ''='') s)"

definition base64_decode :: "string \<Rightarrow> string" where
  "base64_decode s = decode_groups (sextets s)"

text \<open>
  \<open>btoa(str)\<close> is \<open>Buffer.from(str).toString('base64')\<close> and \<open>atob(str)\<close> is
  \<open>Buffer.from(str, 'base64').toString()\<close>. On byte strings \<open>Buffer.from(str)\<close> and
  \<open>toString()\<close> are the identity (the replacement of ill-formed UTF-8 by U+FFFD is
  not modelled).
\<close>

definition btoa :: "string \<Rightarrow> string" where
  "btoa str = base64_encode str"

definition atob :: "string \<Rightarrow> string" where
  "atob str = base64_decode str"



section \<open>JSON.parse and JSON.stringify\<close>

definition is_ws :: "char \<Rightarrow> bool" where
  "is_ws c = (c \<in> set [CHR '' '', CHR 0x09, CHR 0x0A, CHR 0x0D])"

definition skip_ws :: "string \<Rightarrow> string" where
  "skip_ws s = dropWhile is_ws s"

definition is_digit :: "char \<Rightarrow> bool" where
  "is_digit c = (c \<in> set ''0123456789'')"

definition digit_val :: "char \<Rightarrow> int" where
  "digit_val c =
     (case map_of (zip ''0123456789'' [0, 1, 2, 3, 4, 5, 6, 7, 8, 9]) c of
        None \<Rightarrow> 0
      | Some d \<Rightarrow> d)"

definition digits_val :: "string \<Rightarrow> int" where
  "digits_val ds = foldl (\<lambda>a c. 10 * a + digit_val c) 0 ds"

definition hex_val :: "char \<Rightarrow> nat option" where
  "hex_val c =
     map_of (zip ''0123456789abcdefABCDEF''
               [0, 1, 2, 3, 4, 5, 6, 7, 8, 9, 10, 11, 12, 13, 14, 15, 10, 11, 12, 13, 14, 15]) c"

fun hex4 :: "string \<Rightarrow> (nat \<times> string) option" where
  "hex4 (a # b # c # d # r) =
     (case (hex_val a, hex_val b, hex_val c, hex_val d) of
        (Some w, Some x, Some y, Some z) \<Rightarrow> Some (((w * 16 + x) * 16 + y) * 16 + z, r)
      | _ \<Rightarrow> None)"
| "hex4 _ = None"

text \<open>The UTF-8 bytes of a code point (a lone surrogate keeps its three-byte form).\<close>

definition utf8 :: "nat \<Rightarrow> string" where
  "utf8 cp =
     (if cp < 0x80 then [char_of cp]
      else if cp < 0x800 then [char_of (0xC0 + cp div 64), char_of (0x80 + cp mod 64)]
      else if cp < 0x10000 then
        [char_of (0xE0 + cp div 4096), char_of (0x80 + cp div 64 mod 64),
         char_of (0x80 + cp mod 64)]
      else
        [char_of (0xF0 + cp div 262144), char_of (0x80 + cp div 4096 mod 64),
         char_of (0x80 + cp div 64 mod 64), char_of (0x80 + cp mod 64)])"

definition simple_escapes :: "(char \<times> char) list" where
  "simple_escapes =
     [(CHR 0x22, CHR 0x22), (CHR 0x5C, CHR 0x5C), (CHR ''/'', CHR ''/''),
      (CHR ''b'', CHR 0x08), (CHR ''f'', CHR 0x0C), (CHR ''n'', CHR 0x0A),
      (CHR ''r'', CHR 0x0D), (CHR ''t'', CHR 0x09)]"

text \<open>
  A \<open>\u\<close> escape: the code unit, joined with a following low-surrogate escape when it
  is a high surrogate.
\<close>

definition unicode_escape :: "string \<Rightarrow> (string \<times> string) option" where
  "unicode_escape r =
     (case hex4 r of
        None \<Rightarrow> None
      | Some (cu, r1) \<Rightarrow>
          (if 0xD800 \<le> cu \<and> cu < 0xDC00 \<and> take 2 r1 = [CHR 0x5C, CHR ''u''] then
             (case hex4 (drop 2 r1) of
                Some (lo, r2) \<Rightarrow>
                  if 0xDC00 \<le> lo \<and> lo < 0xE000
                  then Some (utf8 (0x10000 + (cu - 0xD800) * 1024 + (lo - 0xDC00)), r2)
                  else Some (utf8 cu, r1)
              | None \<Rightarrow> Some (utf8 cu, r1))
           else Some (utf8 cu, r1)))"

text \<open>
  One item of a string body: the closing quote (no bytes), an escape, or a plain
  character; a raw control character is an error.
\<close>

definition str_item :: "string \<Rightarrow> (string option \<times> string) option" where
  "str_item s =
     (case s of
        [] \<Rightarrow> None
      | c # cs \<Rightarrow>
          if c = CHR 0x22 then Some (None, cs)
          else if c = CHR 0x5C then
            (case cs of
               [] \<Rightarrow> None
             | e # r \<Rightarrow>
                 if e = CHR ''u'' then
                   (case unicode_escape r of
                      None \<Rightarrow> None
                    | Some (bs, r') \<Rightarrow> Some (Some bs, r'))
                 else
                   (case map_of simple_escapes e of
                      None \<Rightarrow> None
                    | Some ch \<Rightarrow> Some (Some [ch], r)))
          else if (of_char c :: nat) < 0x20 then None
          else Some (Some [c], cs))"

lemma hex4_length: "hex4 r = Some (cu, r1) \<Longrightarrow> length r1 < length r"
  by (induction r rule: hex4.induct) (auto split: option.splits)

lemma unicode_escape_length: "unicode_escape r = Some (bs, r') \<Longrightarrow> length r' < length r"
  by (auto simp: unicode_escape_def split: option.splits if_splits dest!: hex4_length)

lemma str_item_length: "str_item s = Some (x, r) \<Longrightarrow> length r < length s"
  by (auto simp: str_item_def split: list.splits option.splits if_splits
        dest!: unicode_escape_length)

function parse_str :: "string \<Rightarrow> (string \<times> string) option" where
  "parse_str s =
     (case str_item s of
        None \<Rightarrow> None
      | Some (None, r) \<Rightarrow> Some ([], r)
      | Some (Some bs, r) \<Rightarrow>
          (case parse_str r of None \<Rightarrow> None | Some (t, r') \<Rightarrow> Some (bs @ t, r')))"
  by pat_completeness auto
termination
  by (relation "measure length") (auto dest: str_item_length)

declare parse_str.simps [simp del]

definition parse_frac :: "string \<Rightarrow> (string \<times> string) option" where
  "parse_frac s =
     (case s of
        [] \<Rightarrow> Some ([], s)
      | c # r \<Rightarrow>
          if c = CHR ''.'' then
            (let fd = takeWhile is_digit r
             in if fd = [] then None else Some (fd, dropWhile is_digit r))
          else Some ([], s))"

definition parse_exp :: "string \<Rightarrow> (int \<times> string) option" where
  "parse_exp s =
     (case s of
        [] \<Rightarrow> Some (0, s)
      | c # r \<Rightarrow>
          if c = CHR ''e'' \<or> c = CHR ''E'' then
            (let neg = (take 1 r = ''-'');
                 r1 = (if take 1 r = ''-'' \<or> take 1 r = ''+'' then drop 1 r else r);
                 ed = takeWhile is_digit r1
             in if ed = [] then None
                else Some (if neg then - digits_val ed else digits_val ed,
                           dropWhile is_digit r1))
          else Some (0, s))"

definition pow10 :: "int \<Rightarrow> rat" where
  "pow10 e = (if 0 \<le> e then of_int (10 ^ nat e) else 1 / of_int (10 ^ nat (- e)))"

text \<open>
  A number, by the grammar of JSON. The result is the decimal value of the text;
  \<open>JSON.parse\<close> rounds it to the nearest double. The two are the same number when the text
  denotes a double exactly, as the text of an integer below \<open>2^53\<close> does.
\<close>

definition parse_number :: "string \<Rightarrow> (rat \<times> string) option" where
  "parse_number s =
     (let neg = (take 1 s = ''-'');
          s1 = (if neg then drop 1 s else s);
          ip = (if take 1 s1 = ''0'' then ''0'' else takeWhile is_digit s1);
          s2 = drop (length ip) s1
      in if ip = [] then None
         else
           (case parse_frac s2 of
              None \<Rightarrow> None
            | Some (fd, s3) \<Rightarrow>
                (case parse_exp s3 of
                   None \<Rightarrow> None
                 | Some (e, s4) \<Rightarrow>
                     Some (of_int ((if neg then - 1 else 1) * digits_val (ip @ fd)) *
                           pow10 (e - int (length fd)), s4))))"

text \<open>
  The value parser. The fuel bounds the number of nested and chained calls; every call
  but the first follows at least one consumed character, so twice the length of the
  text is enough.
\<close>

fun parse_value :: "nat \<Rightarrow> string \<Rightarrow> (json \<times> string) option"
  and parse_elems :: "nat \<Rightarrow> string \<Rightarrow> (json list \<times> string) option"
  and parse_members :: "nat \<Rightarrow> string \<Rightarrow> ((string \<times> json) list \<times> string) option"
where
  "parse_value 0 s = None"
| "parse_value (Suc n) s =
     (case skip_ws s of
        [] \<Rightarrow> None
      | c # r \<Rightarrow>
          if c = CHR ''{'' then
            (if take 1 (skip_ws r) = ''}'' then Some (JObj [], drop 1 (skip_ws r))
             else (case parse_members n r of
                     None \<Rightarrow> None
                   | Some (kvs, r') \<Rightarrow> Some (JObj kvs, r')))
          else if c = CHR ''['' then
            (if take 1 (skip_ws r) = '']'' then Some (JArr [], drop 1 (skip_ws r))
             else (case parse_elems n r of
                     None \<Rightarrow> None
                   | Some (vs, r') \<Rightarrow> Some (JArr vs, r')))
          else if c = CHR 0x22 then
            (case parse_str r of None \<Rightarrow> None | Some (t, r') \<Rightarrow> Some (JStr t, r'))
          else if take 4 (c # r) = ''true'' then Some (JBool True, drop 4 (c # r))
          else if take 5 (c # r) = ''false'' then Some (JBool False, drop 5 (c # r))
          else if take 4 (c # r) = ''null'' then Some (JNull, drop 4 (c # r))
          else if c = CHR ''-'' \<or> is_digit c then
            (case parse_number (c # r) of
               None \<Rightarrow> None
             | Some (x, r') \<Rightarrow> Some (JNum x, r'))
          else None)"
| "parse_elems 0 s = None"
| "parse_elems (Suc n) s =
     (case parse_value n s of
        None \<Rightarrow> None
      | Some (v, r) \<Rightarrow>
          (case skip_ws r of
             [] \<Rightarrow> None
           | c # r' \<Rightarrow>
               if c = CHR '','' then
                 (case parse_elems n r' of
                    None \<Rightarrow> None
                  | Some (vs, r'') \<Rightarrow> Some (v # vs, r''))
               else if c = CHR '']'' then Some ([v], r')
               else None))"
| "parse_members 0 s = None"
| "parse_members (Suc n) s =
     (case skip_ws s of
        [] \<Rightarrow> None
      | q # s1 \<Rightarrow>
          if q \<noteq> CHR 0x22 then None
          else
            (case parse_str s1 of
               None \<Rightarrow> None
             | Some (k, s2) \<Rightarrow>
                 (case skip_ws s2 of
                    [] \<Rightarrow> None
                  | colon # s3 \<Rightarrow>
                      if colon \<noteq> CHR '':'' then None
                      else
                        (case parse_value n s3 of
                           None \<Rightarrow> None
                         | Some (v, r) \<Rightarrow>
                             (case skip_ws r of
                                [] \<Rightarrow> None
                              | c # r' \<Rightarrow>
                                  if c = CHR '','' then
                                    (case parse_members n r' of
                                       None \<Rightarrow> None
                                     | Some (kvs, r'') \<Rightarrow> Some ((k, v) # kvs, r''))
                                  else if c = CHR ''}'' then Some ([(k, v)], r')
                                  else None)))))"

definition JSON_parse :: "string \<Rightarrow> json option" where
  "JSON_parse s =
     (case parse_value (2 * length s + 2) s of
        None \<Rightarrow> None
      | Some (v, r) \<Rightarrow> if skip_ws r = [] then Some v else None)"

definition digit_char :: "int \<Rightarrow> char" where
  "digit_char d = ''0123456789'' ! nat d"

text \<open>The decimal digits of a number that is not negative.\<close>

function show_pos :: "int \<Rightarrow> string" where
  "show_pos n =
     (if n < 10 then [digit_char n] else show_pos (n div 10) @ [digit_char (n mod 10)])"
  by pat_completeness auto
termination
  by (relation "measure nat") auto

declare show_pos.simps [simp del]

text \<open>\<open>Number.prototype.toString\<close> on an integer (below \<open>10^21\<close>, where JavaScript
  changes to the exponent form).\<close>

definition show_int :: "int \<Rightarrow> string" where
  "show_int i = (if i < 0 then CHR ''-'' # show_pos (- i) else show_pos i)"

definition hex_digit :: "nat \<Rightarrow> char" where
  "hex_digit n = ''0123456789abcdef'' ! n"

text \<open>\<open>JSON.stringify\<close> of a string: the quoted text with its escapes.\<close>

definition quote_char :: "char \<Rightarrow> string" where
  "quote_char c =
     (if c = CHR 0x22 then [CHR 0x5C, CHR 0x22]
      else if c = CHR 0x5C then [CHR 0x5C, CHR 0x5C]
      else if c = CHR 0x08 then [CHR 0x5C, CHR ''b'']
      else if c = CHR 0x0C then [CHR 0x5C, CHR ''f'']
      else if c = CHR 0x0A then [CHR 0x5C, CHR ''n'']
      else if c = CHR 0x0D then [CHR 0x5C, CHR ''r'']
      else if c = CHR 0x09 then [CHR 0x5C, CHR ''t'']
      else if (of_char c :: nat) < 0x20 then
        [CHR 0x5C, CHR ''u'', CHR ''0'', CHR ''0'', hex_digit (of_char c div 16),
         hex_digit (of_char c mod 16)]
      else [c])"

definition quote :: "string \<Rightarrow> string" where
  "quote s = CHR 0x22 # concat (map quote_char s) @ [CHR 0x22]"


text \<open>The payload of an access token and its \<open>JSON.stringify\<close>.\<close>

record tokenPayload =
  tp_catalogueId :: int
  tp_email :: string
  tp_exp :: int

definition JSON_stringify :: "tokenPayload \<Rightarrow> string" where
  "JSON_stringify p =
     ''{'' @ quote ''catalogueId'' @ '':'' @ show_int (tp_catalogueId p) @ '','' @
     quote ''email'' @ '':'' @ quote (tp_email p) @ '','' @
     quote ''exp'' @ '':'' @ show_int (tp_exp p) @ ''}''"

section \<open>Entities (shared/schema) and the store\<close>

record user =
  u_id :: int
  u_username :: string
  u_password :: string
  u_email :: string
  u_company :: "string option"
  u_createdAt :: int

record product =
  p_id :: int
  p_userId :: int
  p_name :: string
  p_description :: "string option"
  p_price :: string
  p_imageUrl :: "string option"
  p_category :: "string option"
  p_inStock :: "bool option"
  p_createdAt :: int

record catalogue =
  c_id :: int
  c_userId :: int
  c_name :: string
  c_description :: "string option"
  c_shareableLink :: string
  c_isPublic :: "bool option"
  c_views :: "int option"
  c_createdAt :: int

record catalogueProduct =
  cp_id :: int
  cp_catalogueId :: int
  cp_productId :: int

record order =
  o_id :: int
  o_userId :: int
  o_orderId :: string
  o_catalogueId :: "int option"
  o_retailerName :: string
  o_retailerEmail :: string
  o_retailerCompany :: string
  o_items :: json
  o_amount :: string
  o_paymentStatus :: "string option"
  o_orderDate :: int

record accessRequest =
  ar_id :: int
  ar_catalogueId :: int
  ar_name :: string
  ar_email :: string
  ar_company :: string
  ar_message :: "string option"
  ar_status :: string
  ar_requestDate :: int

text \<open>
  The insert types. A field the schema leaves optional is an option; a nullable optional
  field is an option of an option (absent, null, or a value), since an update keeps the
  column on "absent" and clears it on "null".
\<close>

record insertUser =
  iu_username :: string
  iu_password :: string
  iu_email :: string
  iu_company :: "string option option"

record insertProduct =
  ip_userId :: int
  ip_name :: string
  ip_description :: "string option option"
  ip_price :: string
  ip_imageUrl :: "string option option"
  ip_category :: "string option option"
  ip_inStock :: "bool option option"

record partialProduct =
  pp_userId :: "int option"
  pp_name :: "string option"
  pp_description :: "string option option"
  pp_price :: "string option"
  pp_imageUrl :: "string option option"
  pp_category :: "string option option"
  pp_inStock :: "bool option option"

record insertCatalogue =
  ic_userId :: int
  ic_name :: string
  ic_description :: "string option option"
  ic_shareableLink :: string
  ic_isPublic :: "bool option option"

record partialCatalogue =
  pc_userId :: "int option"
  pc_name :: "string option"
  pc_description :: "string option option"
  pc_shareableLink :: "string option"
  pc_isPublic :: "bool option option"

record insertOrder =
  io_userId :: int
  io_orderId :: "string option"
  io_catalogueId :: "int option option"
  io_retailerName :: string
  io_retailerEmail :: string
  io_retailerCompany :: "string option"
  io_items :: json
  io_amount :: string
  io_paymentStatus :: "string option"

record insertAccessRequest =
  iar_catalogueId :: int
  iar_name :: string
  iar_email :: string
  iar_company :: string
  iar_message :: "string option option"
  iar_status :: "string option"

text \<open>
  The store: each \<open>Map<number, Row>\<close> of MemStorage (each table of DatabaseStorage) is
  the list of its rows in insertion order, the key of a row being its id, and the
  \<open>currentXId\<close> counters (the serial sequences) are the next ids.
\<close>

record store =
  users :: "user list"
  products :: "product list"
  catalogues :: "catalogue list"
  catalogueProducts :: "catalogueProduct list"
  orders :: "order list"
  accessRequests :: "accessRequest list"
  currentUserId :: int
  currentProductId :: int
  currentCatalogueId :: int
  currentCatalogueProductId :: int
  currentOrderId :: int
  currentAccessRequestId :: int

definition empty_store :: store where
  "empty_store = \<lparr>users = [], products = [], catalogues = [], catalogueProducts = [],
     orders = [], accessRequests = [], currentUserId = 1, currentProductId = 1,
     currentCatalogueId = 1, currentCatalogueProductId = 1, currentOrderId = 1,
     currentAccessRequestId = 1\<rparr>"

subsection \<open>Map operations on a list of rows\<close>

text \<open>\<open>Map.get\<close>, \<open>Map.set\<close> (an existing key keeps its place, a new one goes last) and
  \<open>Map.delete\<close>.\<close>

definition map_get :: "('r \<Rightarrow> int) \<Rightarrow> int \<Rightarrow> 'r list \<Rightarrow> 'r option" where
  "map_get key k rows = find (\<lambda>r. key r = k) rows"

fun map_set :: "('r \<Rightarrow> int) \<Rightarrow> 'r \<Rightarrow> 'r list \<Rightarrow> 'r list" where
  "map_set key v [] = [v]"
| "map_set key v (r # rs) = (if key r = key v then v # rs else r # map_set key v rs)"

fun map_delete :: "('r \<Rightarrow> int) \<Rightarrow> int \<Rightarrow> 'r list \<Rightarrow> 'r list" where
  "map_delete key k [] = []"
| "map_delete key k (r # rs) = (if key r = k then rs else r # map_delete key k rs)"

section \<open>MemStorage\<close>

text \<open>
  Each method takes the store and, when it writes, returns the store it leaves.
  \<open>new Date()\<close> and \<open>nanoid(6)\<close> are inputs: the time \<open>now\<close> in epoch milliseconds and
  the string \<open>rnd\<close> the generator returns when it is called.
\<close>

definition lower_case :: string where
  "lower_case = ''abcdefghijklmnopqrstuvwxyz''"

definition upper_case :: string where
  "upper_case = ''ABCDEFGHIJKLMNOPQRSTUVWXYZ''"

text \<open>\<open>String.prototype.toUpperCase\<close> on ASCII text (it is applied to nanoid's output only).\<close>

definition toUpperCase :: "string \<Rightarrow> string" where
  "toUpperCase s =
     map (\<lambda>c. case map_of (zip lower_case upper_case) c of None \<Rightarrow> c | Some d \<Rightarrow> d) s"

definition Mem_getUser :: "int \<Rightarrow> store \<Rightarrow> user option" where
  "Mem_getUser i st = map_get u_id i (users st)"

definition Mem_getUserByUsername :: "string \<Rightarrow> store \<Rightarrow> user option" where
  "Mem_getUserByUsername n st = find (\<lambda>u. u_username u = n) (users st)"

definition Mem_getUserByEmail :: "string \<Rightarrow> store \<Rightarrow> user option" where
  "Mem_getUserByEmail e st = find (\<lambda>u. u_email u = e) (users st)"

definition Mem_createUser :: "int \<Rightarrow> insertUser \<Rightarrow> store \<Rightarrow> user \<times> store" where
  "Mem_createUser now ins st =
     (let u = \<lparr>u_id = currentUserId st, u_username = iu_username ins,
                u_password = iu_password ins, u_email = iu_email ins,
                u_company = nullish (iu_company ins), u_createdAt = now\<rparr>
      in (u, st\<lparr>users := map_set u_id u (users st),
                currentUserId := currentUserId st + 1\<rparr>))"

definition Mem_getProducts :: "int \<Rightarrow> store \<Rightarrow> product list" where
  "Mem_getProducts uid st = filter (\<lambda>p. p_userId p = uid) (products st)"

definition Mem_getProduct :: "int \<Rightarrow> store \<Rightarrow> product option" where
  "Mem_getProduct i st = map_get p_id i (products st)"

definition Mem_createProduct :: "int \<Rightarrow> insertProduct \<Rightarrow> store \<Rightarrow> product \<times> store" where
  "Mem_createProduct now ins st =
     (let p = \<lparr>p_id = currentProductId st, p_userId = ip_userId ins, p_name = ip_name ins,
                p_description = nullish (ip_description ins), p_price = ip_price ins,
                p_imageUrl = nullish (ip_imageUrl ins), p_category = nullish (ip_category ins),
                p_inStock = nullish (ip_inStock ins), p_createdAt = now\<rparr>
      in (p, st\<lparr>products := map_set p_id p (products st),
                currentProductId := currentProductId st + 1\<rparr>))"

text \<open>\<open>{ ...product, ...updates }\<close>: a key the update holds replaces the column.\<close>

definition spread_product :: "product \<Rightarrow> partialProduct \<Rightarrow> product" where
  "spread_product p u =
     p\<lparr>p_userId := (case pp_userId u of None \<Rightarrow> p_userId p | Some v \<Rightarrow> v),
       p_name := (case pp_name u of None \<Rightarrow> p_name p | Some v \<Rightarrow> v),
       p_description := (case pp_description u of None \<Rightarrow> p_description p | Some v \<Rightarrow> v),
       p_price := (case pp_price u of None \<Rightarrow> p_price p | Some v \<Rightarrow> v),
       p_imageUrl := (case pp_imageUrl u of None \<Rightarrow> p_imageUrl p | Some v \<Rightarrow> v),
       p_category := (case pp_category u of None \<Rightarrow> p_category p | Some v \<Rightarrow> v),
       p_inStock := (case pp_inStock u of None \<Rightarrow> p_inStock p | Some v \<Rightarrow> v)\<rparr>"

definition Mem_updateProduct ::
  "int \<Rightarrow> partialProduct \<Rightarrow> store \<Rightarrow> product option \<times> store" where
  "Mem_updateProduct i upd st =
     (case map_get p_id i (products st) of
        None \<Rightarrow> (None, st)
      | Some p \<Rightarrow>
          (let p' = spread_product p upd
           in (Some p', st\<lparr>products := map_set p_id p' (products st)\<rparr>)))"

definition Mem_deleteProduct :: "int \<Rightarrow> store \<Rightarrow> bool \<times> store" where
  "Mem_deleteProduct i st =
     (map_get p_id i (products st) \<noteq> None,
      st\<lparr>products := map_delete p_id i (products st)\<rparr>)"

definition Mem_getCatalogues :: "int \<Rightarrow> store \<Rightarrow> catalogue list" where
  "Mem_getCatalogues uid st = filter (\<lambda>c. c_userId c = uid) (catalogues st)"

definition Mem_getCatalogue :: "int \<Rightarrow> store \<Rightarrow> catalogue option" where
  "Mem_getCatalogue i st = map_get c_id i (catalogues st)"

definition Mem_getCatalogueByLink :: "string \<Rightarrow> store \<Rightarrow> catalogue option" where
  "Mem_getCatalogueByLink l st = find (\<lambda>c. c_shareableLink c = l) (catalogues st)"

definition Mem_createCatalogue ::
  "int \<Rightarrow> insertCatalogue \<Rightarrow> store \<Rightarrow> catalogue \<times> store" where
  "Mem_createCatalogue now ins st =
     (let c = \<lparr>c_id = currentCatalogueId st, c_userId = ic_userId ins, c_name = ic_name ins,
                c_description = nullish (ic_description ins),
                c_shareableLink = ic_shareableLink ins,
                c_isPublic = nullish (ic_isPublic ins), c_views = Some 0,
                c_createdAt = now\<rparr>
      in (c, st\<lparr>catalogues := map_set c_id c (catalogues st),
                currentCatalogueId := currentCatalogueId st + 1\<rparr>))"

definition spread_catalogue :: "catalogue \<Rightarrow> partialCatalogue \<Rightarrow> catalogue" where
  "spread_catalogue c u =
     c\<lparr>c_userId := (case pc_userId u of None \<Rightarrow> c_userId c | Some v \<Rightarrow> v),
       c_name := (case pc_name u of None \<Rightarrow> c_name c | Some v \<Rightarrow> v),
       c_description := (case pc_description u of None \<Rightarrow> c_description c | Some v \<Rightarrow> v),
       c_shareableLink :=
         (case pc_shareableLink u of None \<Rightarrow> c_shareableLink c | Some v \<Rightarrow> v),
       c_isPublic := (case pc_isPublic u of None \<Rightarrow> c_isPublic c | Some v \<Rightarrow> v)\<rparr>"

definition Mem_updateCatalogue ::
  "int \<Rightarrow> partialCatalogue \<Rightarrow> store \<Rightarrow> catalogue option \<times> store" where
  "Mem_updateCatalogue i upd st =
     (case map_get c_id i (catalogues st) of
        None \<Rightarrow> (None, st)
      | Some c \<Rightarrow>
          (let c' = spread_catalogue c upd
           in (Some c', st\<lparr>catalogues := map_set c_id c' (catalogues st)\<rparr>)))"

definition Mem_deleteCatalogue :: "int \<Rightarrow> store \<Rightarrow> bool \<times> store" where
  "Mem_deleteCatalogue i st =
     (map_get c_id i (catalogues st) \<noteq> None,
      st\<lparr>catalogues := map_delete c_id i (catalogues st)\<rparr>)"

text \<open>\<open>catalogue.views || 0\<close>: null and 0 both read as 0.\<close>

definition views_or_0 :: "int option \<Rightarrow> int" where
  "views_or_0 v = (case v of None \<Rightarrow> 0 | Some n \<Rightarrow> n)"

definition Mem_incrementCatalogueViews :: "int \<Rightarrow> store \<Rightarrow> store" where
  "Mem_incrementCatalogueViews i st =
     (case map_get c_id i (catalogues st) of
        None \<Rightarrow> st
      | Some c \<Rightarrow>
          st\<lparr>catalogues :=
               map_set c_id (c\<lparr>c_views := Some (views_or_0 (c_views c) + 1)\<rparr>)
                 (catalogues st)\<rparr>)"

definition Mem_addProductToCatalogue ::
  "int \<Rightarrow> int \<Rightarrow> store \<Rightarrow> catalogueProduct \<times> store" where
  "Mem_addProductToCatalogue cid pid st =
     (let cp = \<lparr>cp_id = currentCatalogueProductId st, cp_catalogueId = cid,
                 cp_productId = pid\<rparr>
      in (cp, st\<lparr>catalogueProducts := map_set cp_id cp (catalogueProducts st),
                 currentCatalogueProductId := currentCatalogueProductId st + 1\<rparr>))"

definition Mem_removeProductFromCatalogue :: "int \<Rightarrow> int \<Rightarrow> store \<Rightarrow> bool \<times> store" where
  "Mem_removeProductFromCatalogue cid pid st =
     (case find (\<lambda>cp. cp_catalogueId cp = cid \<and> cp_productId cp = pid)
             (catalogueProducts st) of
        Some cp \<Rightarrow>
          (True, st\<lparr>catalogueProducts := map_delete cp_id (cp_id cp) (catalogueProducts st)\<rparr>)
      | None \<Rightarrow> (False, st))"

definition Mem_getCatalogueProducts :: "int \<Rightarrow> store \<Rightarrow> product list" where
  "Mem_getCatalogueProducts cid st =
     List.map_filter (\<lambda>cp. map_get p_id (cp_productId cp) (products st))
       (filter (\<lambda>cp. cp_catalogueId cp = cid) (catalogueProducts st))"

definition Mem_getOrders :: "int \<Rightarrow> store \<Rightarrow> order list" where
  "Mem_getOrders uid st = filter (\<lambda>ord. o_userId ord = uid) (orders st)"

definition Mem_getOrder :: "int \<Rightarrow> store \<Rightarrow> order option" where
  "Mem_getOrder i st = map_get o_id i (orders st)"

definition Mem_getOrderByOrderId :: "string \<Rightarrow> store \<Rightarrow> order option" where
  "Mem_getOrderByOrderId oid st = find (\<lambda>ord. o_orderId ord = oid) (orders st)"

definition Mem_createOrder ::
  "int \<Rightarrow> string \<Rightarrow> insertOrder \<Rightarrow> store \<Rightarrow> order \<times> store" where
  "Mem_createOrder now rnd ins st =
     (let ord = \<lparr>o_id = currentOrderId st, o_userId = io_userId ins,
                  o_orderId = or_else (io_orderId ins) (''ORD-'' @ toUpperCase rnd),
                  o_catalogueId = nullish (io_catalogueId ins),
                  o_retailerName = io_retailerName ins,
                  o_retailerEmail = io_retailerEmail ins,
                  o_retailerCompany = or_else (io_retailerCompany ins) [],
                  o_items = io_items ins, o_amount = io_amount ins,
                  o_paymentStatus = Some (or_else (io_paymentStatus ins) ''pending''),
                  o_orderDate = now\<rparr>
      in (ord, st\<lparr>orders := map_set o_id ord (orders st),
                  currentOrderId := currentOrderId st + 1\<rparr>))"

definition Mem_updateOrderPaymentStatus ::
  "string \<Rightarrow> string option \<Rightarrow> store \<Rightarrow> order option \<times> store" where
  "Mem_updateOrderPaymentStatus oid paymentStatus st =
     (case find (\<lambda>ord. o_orderId ord = oid) (orders st) of
        Some ord \<Rightarrow>
          (let ord' = ord\<lparr>o_paymentStatus := paymentStatus\<rparr>
           in (Some ord', st\<lparr>orders := map_set o_id ord' (orders st)\<rparr>))
      | None \<Rightarrow> (None, st))"

definition Mem_getOrdersByEmail :: "string \<Rightarrow> store \<Rightarrow> order list" where
  "Mem_getOrdersByEmail e st = filter (\<lambda>ord. o_retailerEmail ord = e) (orders st)"

definition Mem_createAccessRequest ::
  "int \<Rightarrow> insertAccessRequest \<Rightarrow> store \<Rightarrow> int \<times> store" where
  "Mem_createAccessRequest now ins st =
     (let r = \<lparr>ar_id = currentAccessRequestId st, ar_catalogueId = iar_catalogueId ins,
                ar_name = iar_name ins, ar_email = iar_email ins,
                ar_company = iar_company ins, ar_message = nullish (iar_message ins),
                ar_status = or_else (iar_status ins) ''pending'', ar_requestDate = now\<rparr>
      in (currentAccessRequestId st,
          st\<lparr>accessRequests := map_set ar_id r (accessRequests st),
             currentAccessRequestId := currentAccessRequestId st + 1\<rparr>))"

definition Mem_getAccessRequest :: "int \<Rightarrow> store \<Rightarrow> accessRequest option" where
  "Mem_getAccessRequest i st = map_get ar_id i (accessRequests st)"

definition Mem_getAccessRequestByEmail ::
  "int \<Rightarrow> string \<Rightarrow> store \<Rightarrow> accessRequest option" where
  "Mem_getAccessRequestByEmail cid e st =
     find (\<lambda>r. ar_catalogueId r = cid \<and> ar_email r = e) (accessRequests st)"

definition Mem_getAccessRequests :: "int \<Rightarrow> store \<Rightarrow> accessRequest list" where
  "Mem_getAccessRequests cid st = filter (\<lambda>r. ar_catalogueId r = cid) (accessRequests st)"

definition Mem_updateAccessRequest :: "int \<Rightarrow> string \<Rightarrow> store \<Rightarrow> bool \<times> store" where
  "Mem_updateAccessRequest i status st =
     (case map_get ar_id i (accessRequests st) of
        None \<Rightarrow> (False, st)
      | Some r \<Rightarrow>
          (True, st\<lparr>accessRequests :=
                      map_set ar_id (r\<lparr>ar_status := status\<rparr>)
                        (accessRequests st)\<rparr>))"

section \<open>DatabaseStorage\<close>

text \<open>
  The query builder's calls are read on the same lists of rows: \<open>select ... where\<close>
  filters the table in its order and \<open>const [row] = ...\<close> takes the first row;
  \<open>insert ... returning\<close> adds one row with the next serial id; \<open>update ... where\<close>
  rewrites every row that matches and \<open>delete ... where\<close> drops every row that
  matches. The column defaults are those of shared/schema, which is not among the
  sources; they are taken to be what MemStorage writes (null, \<open>views\<close> 0, the status
  \<open>pending\<close>, the time of the insert). Failures of the database itself (a constraint,
  an update that sets no column) are outside this reading.
\<close>

definition Db_getUser :: "int \<Rightarrow> store \<Rightarrow> user option" where
  "Db_getUser i st = find (\<lambda>u. u_id u = i) (users st)"

definition Db_getUserByUsername :: "string \<Rightarrow> store \<Rightarrow> user option" where
  "Db_getUserByUsername n st = find (\<lambda>u. u_username u = n) (users st)"

definition Db_getUserByEmail :: "string \<Rightarrow> store \<Rightarrow> user option" where
  "Db_getUserByEmail e st = find (\<lambda>u. u_email u = e) (users st)"

definition Db_createUser :: "int \<Rightarrow> insertUser \<Rightarrow> store \<Rightarrow> user \<times> store" where
  "Db_createUser now ins st =
     (let u = \<lparr>u_id = currentUserId st, u_username = iu_username ins,
                u_password = iu_password ins, u_email = iu_email ins,
                u_company = nullish (iu_company ins), u_createdAt = now\<rparr>
      in (u, st\<lparr>users := users st @ [u], currentUserId := currentUserId st + 1\<rparr>))"

definition Db_getProducts :: "int \<Rightarrow> store \<Rightarrow> product list" where
  "Db_getProducts uid st = filter (\<lambda>p. p_userId p = uid) (products st)"

definition Db_getProduct :: "int \<Rightarrow> store \<Rightarrow> product option" where
  "Db_getProduct i st = find (\<lambda>p. p_id p = i) (products st)"

definition Db_createProduct :: "int \<Rightarrow> insertProduct \<Rightarrow> store \<Rightarrow> product \<times> store" where
  "Db_createProduct now ins st =
     (let p = \<lparr>p_id = currentProductId st, p_userId = ip_userId ins, p_name = ip_name ins,
                p_description = nullish (ip_description ins), p_price = ip_price ins,
                p_imageUrl = nullish (ip_imageUrl ins), p_category = nullish (ip_category ins),
                p_inStock = nullish (ip_inStock ins), p_createdAt = now\<rparr>
      in (p, st\<lparr>products := products st @ [p],
                currentProductId := currentProductId st + 1\<rparr>))"

definition Db_updateProduct ::
  "int \<Rightarrow> partialProduct \<Rightarrow> store \<Rightarrow> product option \<times> store" where
  "Db_updateProduct i upd st =
     (let rows = map (\<lambda>p. if p_id p = i then spread_product p upd else p) (products st)
      in (find (\<lambda>p. p_id p = i) rows, st\<lparr>products := rows\<rparr>))"

definition Db_deleteProduct :: "int \<Rightarrow> store \<Rightarrow> bool \<times> store" where
  "Db_deleteProduct i st =
     (filter (\<lambda>p. p_id p = i) (products st) \<noteq> [],
      st\<lparr>products := filter (\<lambda>p. p_id p \<noteq> i) (products st)\<rparr>)"

definition Db_getCatalogues :: "int \<Rightarrow> store \<Rightarrow> catalogue list" where
  "Db_getCatalogues uid st = filter (\<lambda>c. c_userId c = uid) (catalogues st)"

definition Db_getCatalogue :: "int \<Rightarrow> store \<Rightarrow> catalogue option" where
  "Db_getCatalogue i st = find (\<lambda>c. c_id c = i) (catalogues st)"

definition Db_getCatalogueByLink :: "string \<Rightarrow> store \<Rightarrow> catalogue option" where
  "Db_getCatalogueByLink l st = find (\<lambda>c. c_shareableLink c = l) (catalogues st)"

definition Db_createCatalogue ::
  "int \<Rightarrow> insertCatalogue \<Rightarrow> store \<Rightarrow> catalogue \<times> store" where
  "Db_createCatalogue now ins st =
     (let c = \<lparr>c_id = currentCatalogueId st, c_userId = ic_userId ins, c_name = ic_name ins,
                c_description = nullish (ic_description ins),
                c_shareableLink = ic_shareableLink ins,
                c_isPublic = nullish (ic_isPublic ins), c_views = Some 0,
                c_createdAt = now\<rparr>
      in (c, st\<lparr>catalogues := catalogues st @ [c],
                currentCatalogueId := currentCatalogueId st + 1\<rparr>))"

definition Db_updateCatalogue ::
  "int \<Rightarrow> partialCatalogue \<Rightarrow> store \<Rightarrow> catalogue option \<times> store" where
  "Db_updateCatalogue i upd st =
     (let rows = map (\<lambda>c. if c_id c = i then spread_catalogue c upd else c) (catalogues st)
      in (find (\<lambda>c. c_id c = i) rows, st\<lparr>catalogues := rows\<rparr>))"

definition Db_deleteCatalogue :: "int \<Rightarrow> store \<Rightarrow> bool \<times> store" where
  "Db_deleteCatalogue i st =
     (filter (\<lambda>c. c_id c = i) (catalogues st) \<noteq> [],
      st\<lparr>catalogues := filter (\<lambda>c. c_id c \<noteq> i) (catalogues st)\<rparr>)"

definition Db_incrementCatalogueViews :: "int \<Rightarrow> store \<Rightarrow> store" where
  "Db_incrementCatalogueViews i st =
     (case Db_getCatalogue i st of
        None \<Rightarrow> st
      | Some c \<Rightarrow>
          st\<lparr>catalogues :=
               map (\<lambda>r. if c_id r = i then r\<lparr>c_views := Some (views_or_0 (c_views c) + 1)\<rparr>
                         else r)
                 (catalogues st)\<rparr>)"

definition Db_addProductToCatalogue ::
  "int \<Rightarrow> int \<Rightarrow> store \<Rightarrow> catalogueProduct \<times> store" where
  "Db_addProductToCatalogue cid pid st =
     (let cp = \<lparr>cp_id = currentCatalogueProductId st, cp_catalogueId = cid,
                 cp_productId = pid\<rparr>
      in (cp, st\<lparr>catalogueProducts := catalogueProducts st @ [cp],
                 currentCatalogueProductId := currentCatalogueProductId st + 1\<rparr>))"

definition Db_removeProductFromCatalogue :: "int \<Rightarrow> int \<Rightarrow> store \<Rightarrow> bool \<times> store" where
  "Db_removeProductFromCatalogue cid pid st =
     (filter (\<lambda>cp. cp_catalogueId cp = cid \<and> cp_productId cp = pid)
        (catalogueProducts st) \<noteq> [],
      st\<lparr>catalogueProducts :=
           filter (\<lambda>cp. \<not> (cp_catalogueId cp = cid \<and> cp_productId cp = pid))
             (catalogueProducts st)\<rparr>)"

definition Db_getCatalogueProducts :: "int \<Rightarrow> store \<Rightarrow> product list" where
  "Db_getCatalogueProducts cid st =
     concat (map (\<lambda>cp. filter (\<lambda>p. p_id p = cp_productId cp) (products st))
               (filter (\<lambda>cp. cp_catalogueId cp = cid) (catalogueProducts st)))"

definition Db_getOrders :: "int \<Rightarrow> store \<Rightarrow> order list" where
  "Db_getOrders uid st =
     sort_key (\<lambda>ord. - o_orderDate ord) (filter (\<lambda>ord. o_userId ord = uid) (orders st))"

definition Db_getOrder :: "int \<Rightarrow> store \<Rightarrow> order option" where
  "Db_getOrder i st = find (\<lambda>ord. o_id ord = i) (orders st)"

definition Db_getOrderByOrderId :: "string \<Rightarrow> store \<Rightarrow> order option" where
  "Db_getOrderByOrderId oid st = find (\<lambda>ord. o_orderId ord = oid) (orders st)"

definition Db_createOrder ::
  "int \<Rightarrow> string \<Rightarrow> insertOrder \<Rightarrow> store \<Rightarrow> order \<times> store" where
  "Db_createOrder now rnd ins st =
     (let ord = \<lparr>o_id = currentOrderId st, o_userId = io_userId ins,
                  o_orderId = or_else (io_orderId ins) (''ORD-'' @ toUpperCase rnd),
                  o_catalogueId = nullish (io_catalogueId ins),
                  o_retailerName = io_retailerName ins,
                  o_retailerEmail = io_retailerEmail ins,
                  o_retailerCompany = or_else (io_retailerCompany ins) [],
                  o_items = io_items ins, o_amount = io_amount ins,
                  o_paymentStatus = Some (or_else (io_paymentStatus ins) ''pending''),
                  o_orderDate = now\<rparr>
      in (ord, st\<lparr>orders := orders st @ [ord], currentOrderId := currentOrderId st + 1\<rparr>))"

definition Db_updateOrderPaymentStatus ::
  "string \<Rightarrow> string option \<Rightarrow> store \<Rightarrow> order option \<times> store" where
  "Db_updateOrderPaymentStatus oid paymentStatus st =
     (let rows = map (\<lambda>ord. if o_orderId ord = oid
                             then ord\<lparr>o_paymentStatus := paymentStatus\<rparr> else ord)
                   (orders st)
      in (find (\<lambda>ord. o_orderId ord = oid) rows, st\<lparr>orders := rows\<rparr>))"

definition Db_getOrdersByEmail :: "string \<Rightarrow> store \<Rightarrow> order list" where
  "Db_getOrdersByEmail e st = filter (\<lambda>ord. o_retailerEmail ord = e) (orders st)"

definition Db_createAccessRequest ::
  "int \<Rightarrow> insertAccessRequest \<Rightarrow> store \<Rightarrow> int \<times> store" where
  "Db_createAccessRequest now ins st =
     (let r = \<lparr>ar_id = currentAccessRequestId st, ar_catalogueId = iar_catalogueId ins,
                ar_name = iar_name ins, ar_email = iar_email ins,
                ar_company = iar_company ins, ar_message = nullish (iar_message ins),
                ar_status = (case iar_status ins of None \<Rightarrow> ''pending'' | Some t \<Rightarrow> t),
                ar_requestDate = now\<rparr>
      in (currentAccessRequestId st,
          st\<lparr>accessRequests := accessRequests st @ [r],
             currentAccessRequestId := currentAccessRequestId st + 1\<rparr>))"

definition Db_getAccessRequest :: "int \<Rightarrow> store \<Rightarrow> accessRequest option" where
  "Db_getAccessRequest i st = find (\<lambda>r. ar_id r = i) (accessRequests st)"

definition Db_getAccessRequestByEmail ::
  "int \<Rightarrow> string \<Rightarrow> store \<Rightarrow> accessRequest option" where
  "Db_getAccessRequestByEmail cid e st =
     find (\<lambda>r. ar_catalogueId r = cid \<and> ar_email r = e) (accessRequests st)"

definition Db_getAccessRequests :: "int \<Rightarrow> store \<Rightarrow> accessRequest list" where
  "Db_getAccessRequests cid st =
     sort_key (\<lambda>r. - ar_requestDate r)
       (filter (\<lambda>r. ar_catalogueId r = cid) (accessRequests st))"

definition Db_updateAccessRequest :: "int \<Rightarrow> string \<Rightarrow> store \<Rightarrow> bool \<times> store" where
  "Db_updateAccessRequest i status st =
     (filter (\<lambda>r. ar_id r = i) (accessRequests st) \<noteq> [],
      st\<lparr>accessRequests :=
           map (\<lambda>r. if ar_id r = i then r\<lparr>ar_status := status\<rparr> else r)
             (accessRequests st)\<rparr>)"

section \<open>The storage interface\<close>

text \<open>
  \<open>IStorage\<close> as a record of operations on the store. \<open>shares_rows\<close> says whether a
  row the storage returns is the stored object itself (MemStorage), so that a later
  write to it shows in the object a handler already holds.
\<close>

record IStorage =
  getUser :: "int \<Rightarrow> store \<Rightarrow> user option"
  getUserByUsername :: "string \<Rightarrow> store \<Rightarrow> user option"
  getUserByEmail :: "string \<Rightarrow> store \<Rightarrow> user option"
  createUser :: "int \<Rightarrow> insertUser \<Rightarrow> store \<Rightarrow> user \<times> store"
  getProducts :: "int \<Rightarrow> store \<Rightarrow> product list"
  getProduct :: "int \<Rightarrow> store \<Rightarrow> product option"
  createProduct :: "int \<Rightarrow> insertProduct \<Rightarrow> store \<Rightarrow> product \<times> store"
  updateProduct :: "int \<Rightarrow> partialProduct \<Rightarrow> store \<Rightarrow> product option \<times> store"
  deleteProduct :: "int \<Rightarrow> store \<Rightarrow> bool \<times> store"
  getCatalogues :: "int \<Rightarrow> store \<Rightarrow> catalogue list"
  getCatalogue :: "int \<Rightarrow> store \<Rightarrow> catalogue option"
  getCatalogueByLink :: "string \<Rightarrow> store \<Rightarrow> catalogue option"
  createCatalogue :: "int \<Rightarrow> insertCatalogue \<Rightarrow> store \<Rightarrow> catalogue \<times> store"
  updateCatalogue :: "int \<Rightarrow> partialCatalogue \<Rightarrow> store \<Rightarrow> catalogue option \<times> store"
  deleteCatalogue :: "int \<Rightarrow> store \<Rightarrow> bool \<times> store"
  incrementCatalogueViews :: "int \<Rightarrow> store \<Rightarrow> store"
  addProductToCatalogue :: "int \<Rightarrow> int \<Rightarrow> store \<Rightarrow> catalogueProduct \<times> store"
  removeProductFromCatalogue :: "int \<Rightarrow> int \<Rightarrow> store \<Rightarrow> bool \<times> store"
  getCatalogueProducts :: "int \<Rightarrow> store \<Rightarrow> product list"
  getOrders :: "int \<Rightarrow> store \<Rightarrow> order list"
  getOrder :: "int \<Rightarrow> store \<Rightarrow> order option"
  getOrderByOrderId :: "string \<Rightarrow> store \<Rightarrow> order option"
  createOrder :: "int \<Rightarrow> string \<Rightarrow> insertOrder \<Rightarrow> store \<Rightarrow> order \<times> store"
  updateOrderPaymentStatus :: "string \<Rightarrow> string option \<Rightarrow> store \<Rightarrow> order option \<times> store"
  getOrdersByEmail :: "string \<Rightarrow> store \<Rightarrow> order list"
  createAccessRequest :: "int \<Rightarrow> insertAccessRequest \<Rightarrow> store \<Rightarrow> int \<times> store"
  getAccessRequest :: "int \<Rightarrow> store \<Rightarrow> accessRequest option"
  getAccessRequestByEmail :: "int \<Rightarrow> string \<Rightarrow> store \<Rightarrow> accessRequest option"
  getAccessRequests :: "int \<Rightarrow> store \<Rightarrow> accessRequest list"
  updateAccessRequest :: "int \<Rightarrow> string \<Rightarrow> store \<Rightarrow> bool \<times> store"
  shares_rows :: bool

definition MemStorage :: IStorage where
  "MemStorage =
     \<lparr>getUser = Mem_getUser, getUserByUsername = Mem_getUserByUsername,
      getUserByEmail = Mem_getUserByEmail, createUser = Mem_createUser,
      getProducts = Mem_getProducts, getProduct = Mem_getProduct,
      createProduct = Mem_createProduct, updateProduct = Mem_updateProduct,
      deleteProduct = Mem_deleteProduct, getCatalogues = Mem_getCatalogues,
      getCatalogue = Mem_getCatalogue, getCatalogueByLink = Mem_getCatalogueByLink,
      createCatalogue = Mem_createCatalogue, updateCatalogue = Mem_updateCatalogue,
      deleteCatalogue = Mem_deleteCatalogue,
      incrementCatalogueViews = Mem_incrementCatalogueViews,
      addProductToCatalogue = Mem_addProductToCatalogue,
      removeProductFromCatalogue = Mem_removeProductFromCatalogue,
      getCatalogueProducts = Mem_getCatalogueProducts, getOrders = Mem_getOrders,
      getOrder = Mem_getOrder, getOrderByOrderId = Mem_getOrderByOrderId,
      createOrder = Mem_createOrder,
      updateOrderPaymentStatus = Mem_updateOrderPaymentStatus,
      getOrdersByEmail = Mem_getOrdersByEmail,
      createAccessRequest = Mem_createAccessRequest,
      getAccessRequest = Mem_getAccessRequest,
      getAccessRequestByEmail = Mem_getAccessRequestByEmail,
      getAccessRequests = Mem_getAccessRequests,
      updateAccessRequest = Mem_updateAccessRequest, shares_rows = True\<rparr>"

definition DatabaseStorage :: IStorage where
  "DatabaseStorage =
     \<lparr>getUser = Db_getUser, getUserByUsername = Db_getUserByUsername,
      getUserByEmail = Db_getUserByEmail, createUser = Db_createUser,
      getProducts = Db_getProducts, getProduct = Db_getProduct,
      createProduct = Db_createProduct, updateProduct = Db_updateProduct,
      deleteProduct = Db_deleteProduct, getCatalogues = Db_getCatalogues,
      getCatalogue = Db_getCatalogue, getCatalogueByLink = Db_getCatalogueByLink,
      createCatalogue = Db_createCatalogue, updateCatalogue = Db_updateCatalogue,
      deleteCatalogue = Db_deleteCatalogue,
      incrementCatalogueViews = Db_incrementCatalogueViews,
      addProductToCatalogue = Db_addProductToCatalogue,
      removeProductFromCatalogue = Db_removeProductFromCatalogue,
      getCatalogueProducts = Db_getCatalogueProducts, getOrders = Db_getOrders,
      getOrder = Db_getOrder, getOrderByOrderId = Db_getOrderByOrderId,
      createOrder = Db_createOrder,
      updateOrderPaymentStatus = Db_updateOrderPaymentStatus,
      getOrdersByEmail = Db_getOrdersByEmail,
      createAccessRequest = Db_createAccessRequest,
      getAccessRequest = Db_getAccessRequest,
      getAccessRequestByEmail = Db_getAccessRequestByEmail,
      getAccessRequests = Db_getAccessRequests,
      updateAccessRequest = Db_updateAccessRequest, shares_rows = False\<rparr>"

text \<open>\<open>export const storage = new DatabaseStorage()\<close>\<close>

definition storage :: IStorage where
  "storage = DatabaseStorage"

section \<open>Requests and responses\<close>

text \<open>
  What a handler reads besides the path and the body: the clock, the session
  (\<open>req.user.id\<close> when \<open>req.isAuthenticated()\<close>), the Authorization header, and the
  strings nanoid returns (to the route, and to \<open>createOrder\<close> should it ask).
  \<open>e_less v n\<close> is the result of \<open>v < n\<close> for a JSON value \<open>v\<close> that is not a number:
  JavaScript converts \<open>v\<close> to a number first, and \<open>None\<close> stands for the TypeError of
  a conversion that throws. The conversion itself is not modelled; the handlers are defined
  for every such function.
\<close>

record env =
  e_now :: int
  e_user :: "int option"
  e_authorization :: "string option"
  e_nanoid :: string
  e_nanoid2 :: string
  e_less :: "json \<Rightarrow> int \<Rightarrow> bool option"

datatype error = ZodError | TypeError

text \<open>A response (status and JSON body, if any), or \<open>next(error)\<close>.\<close>

datatype outcome = Response nat "json option" | Next error

definition message :: "string \<Rightarrow> json option" where
  "message m = Some (JObj [(''message'', JStr m)])"

definition num :: "int \<Rightarrow> json" where
  "num i = JNum (of_int i)"

definition opt_str :: "string option \<Rightarrow> json" where
  "opt_str v = (case v of None \<Rightarrow> JNull | Some t \<Rightarrow> JStr t)"

definition opt_bool :: "bool option \<Rightarrow> json" where
  "opt_bool v = (case v of None \<Rightarrow> JNull | Some b \<Rightarrow> JBool b)"

definition opt_num :: "int option \<Rightarrow> json" where
  "opt_num v = (case v of None \<Rightarrow> JNull | Some i \<Rightarrow> num i)"

text \<open>The rows as JSON objects (a Date is carried as its epoch milliseconds).\<close>

definition user_fields :: "user \<Rightarrow> (string \<times> json) list" where
  "user_fields u =
     [(''id'', num (u_id u)), (''username'', JStr (u_username u)),
      (''password'', JStr (u_password u)), (''email'', JStr (u_email u)),
      (''company'', opt_str (u_company u)), (''createdAt'', num (u_createdAt u))]"

definition product_json :: "product \<Rightarrow> json" where
  "product_json p =
     JObj [(''id'', num (p_id p)), (''userId'', num (p_userId p)), (''name'', JStr (p_name p)),
           (''description'', opt_str (p_description p)), (''price'', JStr (p_price p)),
           (''imageUrl'', opt_str (p_imageUrl p)), (''category'', opt_str (p_category p)),
           (''inStock'', opt_bool (p_inStock p)), (''createdAt'', num (p_createdAt p))]"

definition catalogue_fields :: "catalogue \<Rightarrow> (string \<times> json) list" where
  "catalogue_fields c =
     [(''id'', num (c_id c)), (''userId'', num (c_userId c)), (''name'', JStr (c_name c)),
      (''description'', opt_str (c_description c)),
      (''shareableLink'', JStr (c_shareableLink c)), (''isPublic'', opt_bool (c_isPublic c)),
      (''views'', opt_num (c_views c)), (''createdAt'', num (c_createdAt c))]"

definition order_json :: "order \<Rightarrow> json" where
  "order_json ord =
     JObj [(''id'', num (o_id ord)), (''userId'', num (o_userId ord)),
           (''orderId'', JStr (o_orderId ord)), (''catalogueId'', opt_num (o_catalogueId ord)),
           (''retailerName'', JStr (o_retailerName ord)),
           (''retailerEmail'', JStr (o_retailerEmail ord)),
           (''retailerCompany'', JStr (o_retailerCompany ord)), (''items'', o_items ord),
           (''amount'', JStr (o_amount ord)),
           (''paymentStatus'', opt_str (o_paymentStatus ord)),
           (''orderDate'', num (o_orderDate ord))]"

definition accessRequest_json :: "accessRequest \<Rightarrow> json" where
  "accessRequest_json r =
     JObj [(''id'', num (ar_id r)), (''catalogueId'', num (ar_catalogueId r)),
           (''name'', JStr (ar_name r)), (''email'', JStr (ar_email r)),
           (''company'', JStr (ar_company r)), (''message'', opt_str (ar_message r)),
           (''status'', JStr (ar_status r)), (''requestDate'', num (ar_requestDate r))]"

text \<open>
  Request bodies, typed as the schemas type them: every key may be absent. A catalogue
  body may carry \<open>productIds\<close>, whose elements are JSON numbers (integers) or JSON strings.
\<close>

datatype productRef = IdNumber int | IdString string

record catalogueBody = partialCatalogue +
  cb_productIds :: "productRef list option"

record orderBody =
  ob_userId :: "int option"
  ob_orderId :: "string option"
  ob_catalogueId :: "int option option"
  ob_retailerName :: "string option"
  ob_retailerEmail :: "string option"
  ob_retailerCompany :: "string option"
  ob_items :: "json option"
  ob_amount :: "string option"
  ob_paymentStatus :: "string option"

record accessBody =
  ab_name :: "string option"
  ab_email :: "string option"
  ab_company :: "string option"
  ab_message :: "string option"

text \<open>
  Modelled from the spec: \<open>insertProductSchema\<close>, \<open>insertCatalogueSchema\<close> and
  \<open>insertOrderSchema\<close> of shared/schema, which is not among the sources. \<open>parse\<close> returns
  the insert type of section 3 of the spec when the columns without a default are there,
  and throws a ZodError (\<open>None\<close>) otherwise; \<open>partial().parse\<close> accepts every typed body.
\<close>

definition insertProductSchema_parse :: "partialProduct \<Rightarrow> insertProduct option" where
  "insertProductSchema_parse b =
     (case (pp_userId b, pp_name b, pp_price b) of
        (Some uid, Some n, Some pr) \<Rightarrow>
          Some \<lparr>ip_userId = uid, ip_name = n, ip_description = pp_description b,
                ip_price = pr, ip_imageUrl = pp_imageUrl b, ip_category = pp_category b,
                ip_inStock = pp_inStock b\<rparr>
      | _ \<Rightarrow> None)"

definition insertCatalogueSchema_parse :: "partialCatalogue \<Rightarrow> insertCatalogue option" where
  "insertCatalogueSchema_parse b =
     (case (pc_userId b, pc_name b, pc_shareableLink b) of
        (Some uid, Some n, Some l) \<Rightarrow>
          Some \<lparr>ic_userId = uid, ic_name = n, ic_description = pc_description b,
                ic_shareableLink = l, ic_isPublic = pc_isPublic b\<rparr>
      | _ \<Rightarrow> None)"

definition insertOrderSchema_parse :: "orderBody \<Rightarrow> insertOrder option" where
  "insertOrderSchema_parse b =
     (case (ob_userId b, ob_retailerName b, ob_retailerEmail b, ob_items b, ob_amount b) of
        (Some uid, Some n, Some e, Some it, Some a) \<Rightarrow>
          Some \<lparr>io_userId = uid, io_orderId = ob_orderId b,
                io_catalogueId = ob_catalogueId b, io_retailerName = n,
                io_retailerEmail = e, io_retailerCompany = ob_retailerCompany b,
                io_items = it, io_amount = a, io_paymentStatus = ob_paymentStatus b\<rparr>
      | _ \<Rightarrow> None)"

subsection \<open>\<open>parseInt\<close>\<close>

definition is_space :: "char \<Rightarrow> bool" where
  "is_space c = (c \<in> set [CHR 0x09, CHR 0x0A, CHR 0x0B, CHR 0x0C, CHR 0x0D, CHR '' ''])"

definition hex_digits_val :: "string \<Rightarrow> int" where
  "hex_digits_val hs =
     foldl (\<lambda>a c. 16 * a + (case hex_val c of None \<Rightarrow> 0 | Some d \<Rightarrow> int d)) 0 hs"

text \<open>
  \<open>parseInt\<close> of a string: leading white space (the ASCII part of it), a sign, then
  the longest run of digits, hexadecimal after \<open>0x\<close>; \<open>None\<close> is NaN.
\<close>

definition parseInt_string :: "string \<Rightarrow> int option" where
  "parseInt_string s =
     (let s1 = dropWhile is_space s;
          neg = (take 1 s1 = ''-'');
          s2 = (if take 1 s1 = ''-'' \<or> take 1 s1 = ''+'' then drop 1 s1 else s1)
      in if take 2 s2 = ''0x'' \<or> take 2 s2 = ''0X'' then
           (let hs = takeWhile (\<lambda>c. hex_val c \<noteq> None) (drop 2 s2)
            in if hs = [] then None
               else Some (if neg then - hex_digits_val hs else hex_digits_val hs))
         else
           (let ds = takeWhile is_digit s2
            in if ds = [] then None
               else Some (if neg then - digits_val ds else digits_val ds)))"

text \<open>
  \<open>parseInt\<close> of a number goes through its decimal text, which from \<open>10^21\<close> on is in
  exponent form and yields the leading digit.
\<close>

definition parseInt :: "productRef \<Rightarrow> int option" where
  "parseInt r =
     (case r of
        IdString s \<Rightarrow> parseInt_string s
      | IdNumber n \<Rightarrow>
          if \<bar>n\<bar> < 10 ^ 21 then Some n
          else Some (sgn n * digit_val (hd (show_pos \<bar>n\<bar>))))"

section \<open>The routes\<close>

definition not_authenticated :: outcome where
  "not_authenticated = Response 401 (message ''Not authenticated'')"

subsection \<open>Products\<close>

definition get_products :: "IStorage \<Rightarrow> env \<Rightarrow> store \<Rightarrow> outcome \<times> store" where
  "get_products S e st =
     (case e_user e of
        None \<Rightarrow> (not_authenticated, st)
      | Some uid \<Rightarrow> (Response 200 (Some (JArr (map product_json (getProducts S uid st)))), st))"

definition get_product :: "IStorage \<Rightarrow> env \<Rightarrow> int \<Rightarrow> store \<Rightarrow> outcome \<times> store" where
  "get_product S e productId st =
     (case e_user e of
        None \<Rightarrow> (not_authenticated, st)
      | Some uid \<Rightarrow>
          (case getProduct S productId st of
             None \<Rightarrow> (Response 404 (message ''Product not found''), st)
           | Some p \<Rightarrow>
               if p_userId p \<noteq> uid then (Response 403 (message ''Unauthorized''), st)
               else (Response 200 (Some (product_json p)), st)))"

definition post_product ::
  "IStorage \<Rightarrow> env \<Rightarrow> partialProduct \<Rightarrow> store \<Rightarrow> outcome \<times> store" where
  "post_product S e body st =
     (case e_user e of
        None \<Rightarrow> (not_authenticated, st)
      | Some uid \<Rightarrow>
          (case insertProductSchema_parse (body\<lparr>pp_userId := Some uid\<rparr>) of
             None \<Rightarrow> (Next ZodError, st)
           | Some validatedData \<Rightarrow>
               (let (p, st') = createProduct S (e_now e) validatedData st
                in (Response 201 (Some (product_json p)), st'))))"

definition put_product ::
  "IStorage \<Rightarrow> env \<Rightarrow> int \<Rightarrow> partialProduct \<Rightarrow> store \<Rightarrow> outcome \<times> store" where
  "put_product S e productId body st =
     (case e_user e of
        None \<Rightarrow> (not_authenticated, st)
      | Some uid \<Rightarrow>
          (case getProduct S productId st of
             None \<Rightarrow> (Response 404 (message ''Product not found''), st)
           | Some p \<Rightarrow>
               if p_userId p \<noteq> uid then (Response 403 (message ''Unauthorized''), st)
               else
                 (let (updatedProduct, st') = updateProduct S productId body st
                  in (Response 200 (map_option product_json updatedProduct), st'))))"

definition delete_product :: "IStorage \<Rightarrow> env \<Rightarrow> int \<Rightarrow> store \<Rightarrow> outcome \<times> store" where
  "delete_product S e productId st =
     (case e_user e of
        None \<Rightarrow> (not_authenticated, st)
      | Some uid \<Rightarrow>
          (case getProduct S productId st of
             None \<Rightarrow> (Response 404 (message ''Product not found''), st)
           | Some p \<Rightarrow>
               if p_userId p \<noteq> uid then (Response 403 (message ''Unauthorized''), st)
               else (Response 204 None, snd (deleteProduct S productId st))))"

subsection \<open>Catalogues\<close>

definition get_catalogues :: "IStorage \<Rightarrow> env \<Rightarrow> store \<Rightarrow> outcome \<times> store" where
  "get_catalogues S e st =
     (case e_user e of
        None \<Rightarrow> (not_authenticated, st)
      | Some uid \<Rightarrow>
          (Response 200 (Some (JArr (map (\<lambda>c. JObj (catalogue_fields c))
                                        (getCatalogues S uid st)))), st))"

definition get_catalogue :: "IStorage \<Rightarrow> env \<Rightarrow> int \<Rightarrow> store \<Rightarrow> outcome \<times> store" where
  "get_catalogue S e catalogueId st =
     (case e_user e of
        None \<Rightarrow> (not_authenticated, st)
      | Some uid \<Rightarrow>
          (case getCatalogue S catalogueId st of
             None \<Rightarrow> (Response 404 (message ''Catalogue not found''), st)
           | Some c \<Rightarrow>
               if c_userId c \<noteq> uid then (Response 403 (message ''Unauthorized''), st)
               else
                 (Response 200
                    (Some (JObj (catalogue_fields c @
                       [(''products'',
                         JArr (map product_json (getCatalogueProducts S catalogueId st)))]))),
                  st)))"

text \<open>The loop of POST /api/catalogues over \<open>req.body.productIds\<close>.\<close>

fun add_products :: "IStorage \<Rightarrow> int \<Rightarrow> int \<Rightarrow> productRef list \<Rightarrow> store \<Rightarrow> store" where
  "add_products S uid cid [] st = st"
| "add_products S uid cid (productId # rest) st =
     add_products S uid cid rest
       (case parseInt productId of
          None \<Rightarrow> st
        | Some i \<Rightarrow>
            (case getProduct S i st of
               None \<Rightarrow> st
             | Some p \<Rightarrow>
                 if p_userId p = uid then snd (addProductToCatalogue S cid (p_id p) st)
                 else st))"

definition post_catalogue ::
  "IStorage \<Rightarrow> env \<Rightarrow> catalogueBody \<Rightarrow> store \<Rightarrow> outcome \<times> store" where
  "post_catalogue S e body st =
     (case e_user e of
        None \<Rightarrow> (not_authenticated, st)
      | Some uid \<Rightarrow>
          (let shareableLink = ''catalogue-'' @ e_nanoid e
           in case insertCatalogueSchema_parse
                     ((partialCatalogue.truncate body)
                        \<lparr>pc_userId := Some uid, pc_shareableLink := Some shareableLink\<rparr>) of
                None \<Rightarrow> (Next ZodError, st)
              | Some validatedData \<Rightarrow>
                  (let (c, st1) = createCatalogue S (e_now e) validatedData st;
                       st2 = (case cb_productIds body of
                                None \<Rightarrow> st1
                              | Some productIds \<Rightarrow> add_products S uid (c_id c) productIds st1)
                   in (Response 201 (Some (JObj (catalogue_fields c))), st2))))"

text \<open>
  The two loops of PUT /api/catalogues/:id. \<open>current\<close> is \<open>currentProductIds\<close>, read once
  before the first loop.
\<close>

fun add_new_products ::
  "IStorage \<Rightarrow> int \<Rightarrow> int \<Rightarrow> int list \<Rightarrow> productRef list \<Rightarrow> store \<Rightarrow> store" where
  "add_new_products S uid cid current [] st = st"
| "add_new_products S uid cid current (productId # rest) st =
     add_new_products S uid cid current rest
       (case parseInt productId of
          None \<Rightarrow> st
        | Some i \<Rightarrow>
            if i \<in> set current then st
            else
              (case getProduct S i st of
                 None \<Rightarrow> st
               | Some p \<Rightarrow>
                   if p_userId p = uid then snd (addProductToCatalogue S cid (p_id p) st)
                   else st))"

fun remove_old_products ::
  "IStorage \<Rightarrow> int \<Rightarrow> productRef list \<Rightarrow> int list \<Rightarrow> store \<Rightarrow> store" where
  "remove_old_products S cid productIds [] st = st"
| "remove_old_products S cid productIds (current_id # rest) st =
     remove_old_products S cid productIds rest
       (if IdString (show_int current_id) \<in> set productIds then st
        else snd (removeProductFromCatalogue S cid current_id st))"

definition put_catalogue ::
  "IStorage \<Rightarrow> env \<Rightarrow> int \<Rightarrow> catalogueBody \<Rightarrow> store \<Rightarrow> outcome \<times> store" where
  "put_catalogue S e catalogueId body st =
     (case e_user e of
        None \<Rightarrow> (not_authenticated, st)
      | Some uid \<Rightarrow>
          (case getCatalogue S catalogueId st of
             None \<Rightarrow> (Response 404 (message ''Catalogue not found''), st)
           | Some c \<Rightarrow>
               if c_userId c \<noteq> uid then (Response 403 (message ''Unauthorized''), st)
               else
                 (let validatedData = (partialCatalogue.truncate body)\<lparr>pc_userId := None\<rparr>;
                      (updatedCatalogue, st1) = updateCatalogue S catalogueId validatedData st;
                      st3 =
                        (case cb_productIds body of
                           None \<Rightarrow> st1
                         | Some productIds \<Rightarrow>
                             (let currentProductIds =
                                    map p_id (getCatalogueProducts S catalogueId st1);
                                  st2 = add_new_products S uid catalogueId currentProductIds
                                          productIds st1
                              in remove_old_products S catalogueId productIds
                                   currentProductIds st2))
                  in (Response 200
                        (map_option (\<lambda>c'. JObj (catalogue_fields c')) updatedCatalogue),
                      st3))))"

definition delete_catalogue :: "IStorage \<Rightarrow> env \<Rightarrow> int \<Rightarrow> store \<Rightarrow> outcome \<times> store" where
  "delete_catalogue S e catalogueId st =
     (case e_user e of
        None \<Rightarrow> (not_authenticated, st)
      | Some uid \<Rightarrow>
          (case getCatalogue S catalogueId st of
             None \<Rightarrow> (Response 404 (message ''Catalogue not found''), st)
           | Some c \<Rightarrow>
               if c_userId c \<noteq> uid then (Response 403 (message ''Unauthorized''), st)
               else (Response 204 None, snd (deleteCatalogue S catalogueId st))))"

subsection \<open>Shared catalogues\<close>

definition shared_info :: "IStorage \<Rightarrow> string \<Rightarrow> store \<Rightarrow> outcome \<times> store" where
  "shared_info S link st =
     (case getCatalogueByLink S link st of
        None \<Rightarrow> (Response 404 (message ''Catalogue not found''), st)
      | Some c \<Rightarrow>
          (Response 200 (Some (JObj [(''name'', JStr (c_name c)),
                                     (''description'', opt_str (c_description c))])), st))"

definition request_access ::
  "IStorage \<Rightarrow> env \<Rightarrow> string \<Rightarrow> accessBody \<Rightarrow> store \<Rightarrow> outcome \<times> store" where
  "request_access S e link body st =
     (case (ab_name body, ab_email body, ab_company body) of
        (Some name, Some email, Some company) \<Rightarrow>
          if name = [] \<or> email = [] \<or> company = [] then
            (Response 400 (message ''Missing required fields''), st)
          else
            (case getCatalogueByLink S link st of
               None \<Rightarrow> (Response 404 (message ''Catalogue not found''), st)
             | Some c \<Rightarrow>
                 (let (requestId, st') =
                        createAccessRequest S (e_now e)
                          \<lparr>iar_catalogueId = c_id c, iar_name = name, iar_email = email,
                           iar_company = company,
                           iar_message = Some (Some (or_else (ab_message body) [])),
                           iar_status = Some ''pending''\<rparr> st
                  in (Response 201 (Some (JObj [(''id'', num requestId),
                                                (''status'', JStr ''pending'')])), st')))
      | _ \<Rightarrow> (Response 400 (message ''Missing required fields''), st))"

text \<open>\<open>7 * 24 * 60 * 60 * 1000\<close>\<close>

definition one_week :: int where
  "one_week = 604800000"

definition check_access ::
  "IStorage \<Rightarrow> env \<Rightarrow> string \<Rightarrow> string option \<Rightarrow> store \<Rightarrow> outcome \<times> store" where
  "check_access S e link email st =
     (case email of
        None \<Rightarrow> (Response 400 (message ''Email is required''), st)
      | Some em \<Rightarrow>
          if em = [] then (Response 400 (message ''Email is required''), st)
          else
            (case getCatalogueByLink S link st of
               None \<Rightarrow> (Response 404 (message ''Catalogue not found''), st)
             | Some c \<Rightarrow>
                 (case getAccessRequestByEmail S (c_id c) em st of
                    None \<Rightarrow> (Response 404 (message ''Access request not found''), st)
                  | Some accessRequest \<Rightarrow>
                      if ar_status accessRequest = ''approved'' then
                        (let tokenPayload =
                               \<lparr>tp_catalogueId = c_id c, tp_email = em,
                                tp_exp = e_now e + one_week\<rparr>;
                             accessToken = btoa (JSON_stringify tokenPayload)
                         in (Response 200 (Some (JObj [(''granted'', JBool True),
                                                       (''accessToken'', JStr accessToken)])),
                             st))
                      else (Response 200 (Some (JObj [(''granted'', JBool False)])), st))))"

text \<open>
  The header test \<open>!authHeader || !authHeader.startsWith('Bearer ')\<close> and
  \<open>authHeader.substring(7)\<close>.
\<close>

definition bearer :: "string option \<Rightarrow> string option" where
  "bearer h =
     (case h of
        None \<Rightarrow> None
      | Some a \<Rightarrow> if take 7 a = ''Bearer '' then Some (drop 7 a) else None)"

text \<open>
  \<open>v.k\<close> for a value that is not null, for the names the handlers read
  (\<open>catalogueId\<close>, \<open>email\<close>, \<open>exp\<close>): only an object can hold them, and of a repeated key
  the last one counts.
\<close>

fun get_prop :: "json \<Rightarrow> string \<Rightarrow> json option" where
  "get_prop (JObj kvs) k = map_of (rev kvs) k"
| "get_prop v k = None"

text \<open>\<open>v < Date.now()\<close>\<close>

definition less_now :: "env \<Rightarrow> json \<Rightarrow> bool option" where
  "less_now e v =
     (case v of JNum r \<Rightarrow> Some (r < of_int (e_now e)) | _ \<Rightarrow> e_less e v (e_now e))"

text \<open>
  The decoding and the checks that /retailer-info (lines 397 to 426) and /view (lines 533
  to 563) both make: the two decoding attempts, the test
  \<open>!tokenData || !tokenData.catalogueId || !tokenData.exp\<close>, and the expiry.
\<close>

datatype token_check = Malformed | Expired | Throws | Valid json

definition decode_token :: "string \<Rightarrow> json option" where
  "decode_token token =
     (case JSON_parse (base64_decode token) of
        Some tokenData \<Rightarrow> Some tokenData
      | None \<Rightarrow> JSON_parse (atob token))"

definition check_token :: "env \<Rightarrow> string \<Rightarrow> token_check" where
  "check_token e token =
     (case decode_token token of
        None \<Rightarrow> Malformed
      | Some tokenData \<Rightarrow>
          if falsy (Some tokenData) \<or> falsy (get_prop tokenData ''catalogueId'') \<or>
             falsy (get_prop tokenData ''exp'')
          then Malformed
          else
            (case get_prop tokenData ''exp'' of
               None \<Rightarrow> Malformed
             | Some x \<Rightarrow>
                 (case less_now e x of
                    None \<Rightarrow> Throws
                  | Some True \<Rightarrow> Expired
                  | Some False \<Rightarrow> Valid tokenData)))"

definition retailer_info ::
  "IStorage \<Rightarrow> env \<Rightarrow> string \<Rightarrow> string option \<Rightarrow> store \<Rightarrow> outcome \<times> store" where
  "retailer_info S e link email st =
     (case bearer (e_authorization e) of
        None \<Rightarrow> (Response 401 (message ''Unauthorized''), st)
      | Some token \<Rightarrow>
          (case check_token e token of
             Malformed \<Rightarrow> (Response 401 (message ''Invalid token format''), st)
           | Expired \<Rightarrow> (Response 401 (message ''Token expired''), st)
           | Throws \<Rightarrow> (Response 401 (message ''Invalid token''), st)
           | Valid tokenData \<Rightarrow>
               (case getCatalogueByLink S link st of
                  None \<Rightarrow> (Response 404 (message ''Catalogue not found''), st)
                | Some c \<Rightarrow>
                    if get_prop tokenData ''catalogueId'' \<noteq> Some (num (c_id c)) then
                      (Response 404 (message ''Catalogue not found''), st)
                    else
                      (case (case email of
                               None \<Rightarrow> None
                             | Some em \<Rightarrow> getAccessRequestByEmail S (c_id c) em st) of
                         None \<Rightarrow>
                           (Response 404
                              (message ''Access request not found or not approved''), st)
                       | Some accessRequest \<Rightarrow>
                           if ar_status accessRequest \<noteq> ''approved'' then
                             (Response 404
                                (message ''Access request not found or not approved''), st)
                           else
                             (Response 200
                                (Some (JObj [(''name'', JStr (ar_name accessRequest)),
                                             (''email'', JStr (ar_email accessRequest)),
                                             (''company'', JStr (ar_company accessRequest))])),
                              st)))))"

text \<open>
  \<open>storage.getOrdersByEmail(tokenData.email)\<close>: reading \<open>email\<close> of null throws; a value
  that is not a string equals no \<open>retailerEmail\<close>.
\<close>

definition shared_orders :: "IStorage \<Rightarrow> env \<Rightarrow> string \<Rightarrow> store \<Rightarrow> outcome \<times> store" where
  "shared_orders S e link st =
     (case bearer (e_authorization e) of
        None \<Rightarrow> (Response 401 (message ''Unauthorized''), st)
      | Some token \<Rightarrow>
          (case JSON_parse (base64_decode token) of
             None \<Rightarrow> (Response 401 (message ''Invalid token''), st)
           | Some tokenData \<Rightarrow>
               (case getCatalogueByLink S link st of
                  None \<Rightarrow> (Response 404 (message ''Catalogue not found''), st)
                | Some c \<Rightarrow>
                    if tokenData = JNull then (Next TypeError, st)
                    else
                      (let found = (case get_prop tokenData ''email'' of
                                      Some (JStr em) \<Rightarrow> getOrdersByEmail S em st
                                    | _ \<Rightarrow> [])
                       in (Response 200 (Some (JArr (map order_json found))), st)))))"

definition shared_payment_status ::
  "IStorage \<Rightarrow> env \<Rightarrow> string \<Rightarrow> string \<Rightarrow> string option \<Rightarrow> store \<Rightarrow> outcome \<times> store" where
  "shared_payment_status S e link orderId status st =
     (case bearer (e_authorization e) of
        None \<Rightarrow> (Response 401 (message ''Unauthorized''), st)
      | Some token \<Rightarrow>
          (case JSON_parse (base64_decode token) of
             None \<Rightarrow> (Response 401 (message ''Invalid token''), st)
           | Some tokenData \<Rightarrow>
               (case getOrderByOrderId S orderId st of
                  None \<Rightarrow> (Response 404 (message ''Order not found''), st)
                | Some ord \<Rightarrow>
                    if tokenData = JNull then (Next TypeError, st)
                    else if get_prop tokenData ''email'' \<noteq> Some (JStr (o_retailerEmail ord)) then
                      (Response 403 (message ''Unauthorized''), st)
                    else
                      (let (updatedOrder, st') = updateOrderPaymentStatus S orderId status st
                       in (Response 200 (map_option order_json updatedOrder), st')))))"

text \<open>\<open>const { password, ...userInfo } = user\<close>\<close>

definition omit :: "string \<Rightarrow> (string \<times> json) list \<Rightarrow> (string \<times> json) list" where
  "omit k kvs = filter (\<lambda>kv. fst kv \<noteq> k) kvs"

definition shared_view :: "IStorage \<Rightarrow> env \<Rightarrow> string \<Rightarrow> store \<Rightarrow> outcome \<times> store" where
  "shared_view S e link st =
     (case bearer (e_authorization e) of
        None \<Rightarrow>
          (Response 401 (message ''Unauthorized - Missing or invalid authorization header''),
           st)
      | Some token \<Rightarrow>
          (case check_token e token of
             Malformed \<Rightarrow> (Response 401 (message ''Invalid token format''), st)
           | Expired \<Rightarrow> (Response 401 (message ''Token expired''), st)
           | Throws \<Rightarrow> (Response 401 (message ''Invalid token format''), st)
           | Valid tokenData \<Rightarrow>
               (case getCatalogueByLink S link st of
                  None \<Rightarrow> (Response 404 (message ''Catalogue not found''), st)
                | Some c \<Rightarrow>
                    if get_prop tokenData ''catalogueId'' \<noteq> Some (num (c_id c)) then
                      (Response 401 (message ''Invalid token for this catalogue''), st)
                    else
                      (let st' = incrementCatalogueViews S (c_id c) st;
                           c' = (if shares_rows S
                                 then c\<lparr>c_views := Some (views_or_0 (c_views c) + 1)\<rparr>
                                 else c);
                           found = getCatalogueProducts S (c_id c) st'
                       in case getUser S (c_userId c) st' of
                            None \<Rightarrow> (Response 404 (message ''Distributor not found''), st')
                          | Some u \<Rightarrow>
                              (let userInfo = omit ''password'' (user_fields u)
                               in (Response 200
                                     (Some (JObj (catalogue_fields c' @
                                        [(''products'', JArr (map product_json found)),
                                         (''distributor'', JObj userInfo)]))),
                                   st'))))))"

subsection \<open>Access requests\<close>

definition get_access_requests ::
  "IStorage \<Rightarrow> env \<Rightarrow> int \<Rightarrow> store \<Rightarrow> outcome \<times> store" where
  "get_access_requests S e catalogueId st =
     (case e_user e of
        None \<Rightarrow> (not_authenticated, st)
      | Some uid \<Rightarrow>
          (case getCatalogue S catalogueId st of
             None \<Rightarrow> (Response 404 (message ''Catalogue not found''), st)
           | Some c \<Rightarrow>
               if c_userId c \<noteq> uid then (Response 403 (message ''Unauthorized''), st)
               else
                 (Response 200
                    (Some (JArr (map accessRequest_json (getAccessRequests S catalogueId st)))),
                  st)))"

definition put_access_request ::
  "IStorage \<Rightarrow> env \<Rightarrow> int \<Rightarrow> string option \<Rightarrow> store \<Rightarrow> outcome \<times> store" where
  "put_access_request S e requestId status st =
     (case e_user e of
        None \<Rightarrow> (not_authenticated, st)
      | Some uid \<Rightarrow>
          (case status of
             None \<Rightarrow> (Response 400 (message ''Invalid status''), st)
           | Some status' \<Rightarrow>
               if status' \<notin> set [''approved'', ''rejected''] then
                 (Response 400 (message ''Invalid status''), st)
               else
                 (case getAccessRequest S requestId st of
                    None \<Rightarrow> (Response 404 (message ''Access request not found''), st)
                  | Some accessRequest \<Rightarrow>
                      (case getCatalogue S (ar_catalogueId accessRequest) st of
                         None \<Rightarrow> (Response 404 (message ''Catalogue not found''), st)
                       | Some c \<Rightarrow>
                           if c_userId c \<noteq> uid then
                             (Response 403 (message ''Unauthorized''), st)
                           else
                             (Response 200 (Some (JObj [(''id'', num requestId),
                                                        (''status'', JStr status')])),
                              snd (updateAccessRequest S requestId status' st))))))"

subsection \<open>Orders\<close>

definition get_orders :: "IStorage \<Rightarrow> env \<Rightarrow> store \<Rightarrow> outcome \<times> store" where
  "get_orders S e st =
     (case e_user e of
        None \<Rightarrow> (not_authenticated, st)
      | Some uid \<Rightarrow> (Response 200 (Some (JArr (map order_json (getOrders S uid st)))), st))"

definition get_order :: "IStorage \<Rightarrow> env \<Rightarrow> string \<Rightarrow> store \<Rightarrow> outcome \<times> store" where
  "get_order S e orderId st =
     (case e_user e of
        None \<Rightarrow> (not_authenticated, st)
      | Some uid \<Rightarrow>
          (case getOrderByOrderId S orderId st of
             None \<Rightarrow> (Response 404 (message ''Order not found''), st)
           | Some ord \<Rightarrow>
               if o_userId ord \<noteq> uid then (Response 403 (message ''Unauthorized''), st)
               else (Response 200 (Some (order_json ord)), st)))"

definition post_order :: "IStorage \<Rightarrow> env \<Rightarrow> orderBody \<Rightarrow> store \<Rightarrow> outcome \<times> store" where
  "post_order S e body st =
     (let orderId = ''ORD-'' @ toUpperCase (e_nanoid e)
      in case insertOrderSchema_parse (body\<lparr>ob_orderId := Some orderId\<rparr>) of
           None \<Rightarrow> (Next ZodError, st)
         | Some validatedData \<Rightarrow>
             (let (ord, st') = createOrder S (e_now e) (e_nanoid2 e) validatedData st
              in (Response 201 (Some (order_json ord)), st')))"

definition put_order_status ::
  "IStorage \<Rightarrow> env \<Rightarrow> string \<Rightarrow> string option \<Rightarrow> store \<Rightarrow> outcome \<times> store" where
  "put_order_status S e orderId paymentStatus st =
     (case e_user e of
        None \<Rightarrow> (not_authenticated, st)
      | Some uid \<Rightarrow>
          if blank paymentStatus then
            (Response 400 (message ''Payment status is required''), st)
          else
            (case getOrderByOrderId S orderId st of
               None \<Rightarrow> (Response 404 (message ''Order not found''), st)
             | Some ord \<Rightarrow>
                 if o_userId ord \<noteq> uid then (Response 403 (message ''Unauthorized''), st)
                 else
                   (let (updatedOrder, st') =
                          updateOrderPaymentStatus S orderId paymentStatus st
                    in (Response 200 (map_option order_json updatedOrder), st'))))"

subsection \<open>The API\<close>

text \<open>
  One constructor for each route of \<open>registerRoutes\<close> but the two dashboard routes, which
  only read (\<open>getProducts\<close>, \<open>getCatalogues\<close>, \<open>getOrders\<close>) and print floating-point sums.
\<close>

datatype request =
    GetProducts
  | GetProduct int
  | PostProduct partialProduct
  | PutProduct int partialProduct
  | DeleteProduct int
  | GetCatalogues
  | GetCatalogue int
  | PostCatalogue catalogueBody
  | PutCatalogue int catalogueBody
  | DeleteCatalogue int
  | SharedInfo string
  | RequestAccess string accessBody
  | CheckAccess string "string option"
  | RetailerInfo string "string option"
  | SharedOrders string
  | SharedPaymentStatus string string "string option"
  | SharedView string
  | GetAccessRequests int
  | PutAccessRequest int "string option"
  | GetOrders
  | GetOrder string
  | PostOrder orderBody
  | PutOrderStatus string "string option"

fun handle :: "IStorage \<Rightarrow> env \<Rightarrow> request \<Rightarrow> store \<Rightarrow> outcome \<times> store" where
  "handle S e GetProducts st = get_products S e st"
| "handle S e (GetProduct i) st = get_product S e i st"
| "handle S e (PostProduct b) st = post_product S e b st"
| "handle S e (PutProduct i b) st = put_product S e i b st"
| "handle S e (DeleteProduct i) st = delete_product S e i st"
| "handle S e GetCatalogues st = get_catalogues S e st"
| "handle S e (GetCatalogue i) st = get_catalogue S e i st"
| "handle S e (PostCatalogue b) st = post_catalogue S e b st"
| "handle S e (PutCatalogue i b) st = put_catalogue S e i b st"
| "handle S e (DeleteCatalogue i) st = delete_catalogue S e i st"
| "handle S e (SharedInfo l) st = shared_info S l st"
| "handle S e (RequestAccess l b) st = request_access S e l b st"
| "handle S e (CheckAccess l em) st = check_access S e l em st"
| "handle S e (RetailerInfo l em) st = retailer_info S e l em st"
| "handle S e (SharedOrders l) st = shared_orders S e l st"
| "handle S e (SharedPaymentStatus l oid status) st = shared_payment_status S e l oid status st"
| "handle S e (SharedView l) st = shared_view S e l st"
| "handle S e (GetAccessRequests i) st = get_access_requests S e i st"
| "handle S e (PutAccessRequest i status) st = put_access_request S e i status st"
| "handle S e GetOrders st = get_orders S e st"
| "handle S e (GetOrder oid) st = get_order S e oid st"
| "handle S e (PostOrder b) st = post_order S e b st"
| "handle S e (PutOrderStatus oid ps) st = put_order_status S e oid ps st"

text \<open>A run of the API: each request with its own environment, one after the other.\<close>

fun run :: "IStorage \<Rightarrow> (env \<times> request) list \<Rightarrow> store \<Rightarrow> store" where
  "run S [] st = st"
| "run S ((e, r) # rest) st = run S rest (snd (handle S e r st))"

section \<open>The fuel of the JSON parser\<close>

lemma skip_ws_length: "length (skip_ws s) \<le> length s"
  by (simp add: skip_ws_def length_dropWhile_le)

lemma skip_ws_Cons_length: "skip_ws s = c # r \<Longrightarrow> length r < length s"
  using skip_ws_length [of s] by simp

lemma parse_str_length: "parse_str s = Some (t, r) \<Longrightarrow> length r < length s"
proof (induction s arbitrary: t r rule: parse_str.induct)
  case (1 s)
  show ?case
  proof (cases "str_item s")
    case None
    with 1(2) show ?thesis by (subst (asm) parse_str.simps) simp
  next
    case (Some p)
    obtain x r0 where p: "p = (x, r0)" by (cases p)
    have l: "length r0 < length s" using str_item_length Some p by blast
    show ?thesis
    proof (cases x)
      case None
      with 1(2) Some p l show ?thesis by (subst (asm) parse_str.simps) simp
    next
      case (Some bs)
      with 1(2) \<open>str_item s = Some p\<close> p obtain t' where
        "parse_str r0 = Some (t', r)"
        by (subst (asm) parse_str.simps) (auto split: option.splits)
      from 1(1) [OF \<open>str_item s = Some p\<close> p [symmetric] Some this] l
      show ?thesis by simp
    qed
  qed
qed

lemma parse_frac_length: "parse_frac s = Some (fd, r) \<Longrightarrow> length r \<le> length s"
  using length_dropWhile_le [of is_digit "tl s"]
  by (cases s) (auto simp: parse_frac_def Let_def split: if_splits)

lemma parse_exp_length: "parse_exp s = Some (e, r) \<Longrightarrow> length r \<le> length s"
proof (cases s)
  case Nil
  then show "parse_exp s = Some (e, r) \<Longrightarrow> length r \<le> length s"
    by (simp add: parse_exp_def)
next
  case (Cons c t)
  have "length (dropWhile is_digit (drop 1 t)) \<le> length t"
    "length (dropWhile is_digit t) \<le> length t"
    using length_dropWhile_le [of is_digit "drop 1 t"] length_dropWhile_le [of is_digit t]
    by simp_all
  then show "parse_exp s = Some (e, r) \<Longrightarrow> length r \<le> length s"
    using Cons by (auto simp: parse_exp_def Let_def split: if_splits)
qed

lemma parse_number_length:
  assumes "parse_number s = Some (x, r)"
  shows "length r \<le> length s"
proof -
  define s1 where "s1 = (if take 1 s = ''-'' then drop 1 s else s)"
  define ip where "ip = (if take 1 s1 = ''0'' then ''0'' else takeWhile is_digit s1)"
  from assms obtain fd s3 e where
    f: "parse_frac (drop (length ip) s1) = Some (fd, s3)" and x: "parse_exp s3 = Some (e, r)"
    by (auto simp: parse_number_def Let_def s1_def ip_def split: option.splits if_splits)
  have "length s1 \<le> length s" by (simp add: s1_def)
  moreover have "length (drop (length ip) s1) \<le> length s1" by simp
  ultimately show ?thesis
    using parse_frac_length [OF f] parse_exp_length [OF x] by linarith
qed

lemma drop_skip_ws_length: "length (drop k (skip_ws r)) \<le> length r"
  using skip_ws_length [of r] by simp

text \<open>The branches of \<open>parse_value\<close>: an object or an array with members, or a value whose
  parsing does not depend on the fuel.\<close>

lemma parse_value_members:
  "skip_ws s = CHR ''{'' # t \<Longrightarrow> take 1 (skip_ws t) \<noteq> ''}'' \<Longrightarrow>
   parse_value (Suc n) s =
     (case parse_members n t of None \<Rightarrow> None | Some (kvs, r') \<Rightarrow> Some (JObj kvs, r'))"
  by simp

lemma parse_value_elems:
  "skip_ws s = CHR ''['' # t \<Longrightarrow> take 1 (skip_ws t) \<noteq> '']'' \<Longrightarrow>
   parse_value (Suc n) s =
     (case parse_elems n t of None \<Rightarrow> None | Some (vs, r') \<Rightarrow> Some (JArr vs, r'))"
  by simp

definition leaf :: "char \<Rightarrow> string \<Rightarrow> bool" where
  "leaf c t = (\<not> (c = CHR ''{'' \<and> take 1 (skip_ws t) \<noteq> ''}'') \<and>
               \<not> (c = CHR ''['' \<and> take 1 (skip_ws t) \<noteq> '']''))"

lemma parse_value_leaf:
  assumes "skip_ws s = c # t" "leaf c t"
  shows "parse_value (Suc n) s = parse_value (Suc m) s"
proof (cases "c = CHR ''{''")
  case True
  then show ?thesis using assms by (simp add: leaf_def)
next
  case False
  note nb = False
  show ?thesis
  proof (cases "c = CHR ''[''")
    case True
    then show ?thesis using assms by (simp add: leaf_def)
  next
    case False
    then show ?thesis using assms(1) nb by (simp only: parse_value.simps list.case if_False)
  qed
qed

lemma parse_value_leaf_length:
  assumes "parse_value (Suc n) s = Some (v, r)" "skip_ws s = c # t" "leaf c t"
  shows "length r \<le> length (c # t)"
proof -
  have e: "(if c = CHR ''{'' then
            (if take 1 (skip_ws t) = ''}'' then Some (JObj [], drop 1 (skip_ws t))
             else (case parse_members n t of
                     None \<Rightarrow> None
                   | Some (kvs, r') \<Rightarrow> Some (JObj kvs, r')))
          else if c = CHR ''['' then
            (if take 1 (skip_ws t) = '']'' then Some (JArr [], drop 1 (skip_ws t))
             else (case parse_elems n t of
                     None \<Rightarrow> None
                   | Some (vs, r') \<Rightarrow> Some (JArr vs, r')))
          else if c = CHR 0x22 then
            (case parse_str t of None \<Rightarrow> None | Some (t, r') \<Rightarrow> Some (JStr t, r'))
          else if take 4 (c # t) = ''true'' then Some (JBool True, drop 4 (c # t))
          else if take 5 (c # t) = ''false'' then Some (JBool False, drop 5 (c # t))
          else if take 4 (c # t) = ''null'' then Some (JNull, drop 4 (c # t))
          else if c = CHR ''-'' \<or> is_digit c then
            (case parse_number (c # t) of
               None \<Rightarrow> None
             | Some (x, r') \<Rightarrow> Some (JNum x, r'))
          else None) = Some (v, r)"
    using assms(1,2) by (simp only: parse_value.simps list.case)
  have d: "length (drop 1 (skip_ws t)) \<le> length (c # t)"
    using skip_ws_length [of t] by simp
  show ?thesis
  proof (cases "c = CHR ''{''")
    case True
    then show ?thesis using e d assms(3) by (auto simp: leaf_def)
  next
    case False
    note nb = False
    show ?thesis
    proof (cases "c = CHR ''[''")
      case True
      then show ?thesis using e d nb assms(3) by (auto simp: leaf_def)
    next
      case False
      note na = False
      show ?thesis
      proof (cases "c = CHR 0x22")
        case True
        then obtain x where "parse_str t = Some (x, r)"
          using e by (auto split: option.splits)
        from parse_str_length [OF this] show ?thesis by simp
      next
        case False
        have "(if take 4 (c # t) = ''true'' then Some (JBool True, drop 4 (c # t))
          else if take 5 (c # t) = ''false'' then Some (JBool False, drop 5 (c # t))
          else if take 4 (c # t) = ''null'' then Some (JNull, drop 4 (c # t))
          else if c = CHR ''-'' \<or> is_digit c then
            (case parse_number (c # t) of
               None \<Rightarrow> None
             | Some (x, r') \<Rightarrow> Some (JNum x, r'))
          else None) = Some (v, r)"
          using e nb na False by (simp only: if_False)
        then have "(\<exists>k. r = drop k (c # t)) \<or> (\<exists>x. parse_number (c # t) = Some (x, r))"
          by (simp only: split: if_splits option.splits prod.splits) blast+
        then show ?thesis
        proof
          assume "\<exists>k. r = drop k (c # t)"
          then show ?thesis by auto
        next
          assume "\<exists>x. parse_number (c # t) = Some (x, r)"
          then show ?thesis using parse_number_length by blast
        qed
      qed
    qed
  qed
qed

lemma parse_value_Suc_cases:
  assumes "parse_value (Suc n) s = Some (v, r)"
  obtains
    (members) t kvs where "skip_ws s = CHR ''{'' # t" "take 1 (skip_ws t) \<noteq> ''}''"
      "parse_members n t = Some (kvs, r)" "v = JObj kvs"
  | (elems) t vs where "skip_ws s = CHR ''['' # t" "take 1 (skip_ws t) \<noteq> '']''"
      "parse_elems n t = Some (vs, r)" "v = JArr vs"
  | (leaf) c t where "skip_ws s = c # t" "leaf c t"
proof (cases "skip_ws s")
  case Nil
  with assms show ?thesis by simp
next
  case (Cons c t)
  show ?thesis
  proof (cases "leaf c t")
    case True
    with Cons leaf show ?thesis by blast
  next
    case False
    then consider "c = CHR ''{''" "take 1 (skip_ws t) \<noteq> ''}''"
      | "c = CHR ''[''" "take 1 (skip_ws t) \<noteq> '']''"
      by (auto simp: leaf_def)
    then show ?thesis
    proof cases
      case 1
      with assms Cons obtain kvs where "parse_members n t = Some (kvs, r)" "v = JObj kvs"
        by (auto simp: parse_value_members split: option.splits)
      with 1 Cons members show ?thesis by blast
    next
      case 2
      with assms Cons obtain vs where "parse_elems n t = Some (vs, r)" "v = JArr vs"
        by (auto simp: parse_value_elems split: option.splits)
      with 2 Cons elems show ?thesis by blast
    qed
  qed
qed

text \<open>
  The fuel is enough: a text that some fuel parses is parsed, to the same value and the
  same rest, by every fuel from twice its length plus one (plus two for the members of an
  object or an array) on.
\<close>

lemma parse_fuel:
  "parse_value n s = Some (v, r) \<Longrightarrow>
     length r \<le> length s \<and>
     (\<forall>m. 2 * length s + 1 \<le> m \<longrightarrow> parse_value m s = Some (v, r))"
  "parse_elems n s = Some (vs, r) \<Longrightarrow>
     length r \<le> length s \<and>
     (\<forall>m. 2 * length s + 2 \<le> m \<longrightarrow> parse_elems m s = Some (vs, r))"
  "parse_members n s = Some (kvs, r) \<Longrightarrow>
     length r \<le> length s \<and>
     (\<forall>m. 2 * length s + 2 \<le> m \<longrightarrow> parse_members m s = Some (kvs, r))"
proof (induction n s and n s and n s arbitrary: v r and vs r and kvs r
    rule: parse_value_parse_elems_parse_members.induct)
  case (1 s)
  then show ?case by simp
next
  case (2 n s)
  from 2(3) show ?case
  proof (cases rule: parse_value_Suc_cases)
    case (members t kvs)
    note l = skip_ws_Cons_length [OF members(1)]
    note ih = 2(1) [OF members(1) refl members(2,3)]
    have "parse_value m s = Some (v, r)" if h: "2 * length s + 1 \<le> m" for m
    proof -
      obtain m' where m: "m = Suc m'" using h by (cases m) auto
      have "2 * length t + 2 \<le> m'" using h l m by simp
      with ih have "parse_members m' t = Some (kvs, r)" by blast
      then show ?thesis
        unfolding m parse_value_members [OF members(1,2)] by (simp add: members(4))
    qed
    with ih l show ?thesis by simp
  next
    case (elems t vs)
    note l = skip_ws_Cons_length [OF elems(1)]
    have nb: "CHR ''['' \<noteq> CHR ''{''" by simp
    note ih = 2(2) [OF elems(1) nb refl elems(2,3)]
    have "parse_value m s = Some (v, r)" if h: "2 * length s + 1 \<le> m" for m
    proof -
      obtain m' where m: "m = Suc m'" using h by (cases m) auto
      have "2 * length t + 2 \<le> m'" using h l m by simp
      with ih have "parse_elems m' t = Some (vs, r)" by blast
      then show ?thesis
        unfolding m parse_value_elems [OF elems(1,2)] by (simp add: elems(4))
    qed
    with ih l show ?thesis by simp
  next
    case (leaf c t)
    note l = skip_ws_Cons_length [OF leaf(1)]
    have "parse_value m s = Some (v, r)" if h: "2 * length s + 1 \<le> m" for m
    proof -
      obtain m' where m: "m = Suc m'" using h by (cases m) auto
      show ?thesis using parse_value_leaf [OF leaf, of m' n] 2(3) by (simp add: m)
    qed
    moreover have "length r \<le> length s"
      using parse_value_leaf_length [OF 2(3) leaf] l by simp
    ultimately show ?thesis by simp
  qed
next
  case (3 s)
  then show ?case by simp
next
  case (4 n s)
  from 4(3) obtain v t where v: "parse_value n s = Some (v, t)"
    by (auto split: option.splits)
  note ihv = 4(1) [OF v]
  from 4(3) v obtain c t' where c: "skip_ws t = c # t'"
    by (auto split: list.splits)
  note l = skip_ws_Cons_length [OF c]
  from 4(3) v c consider
      (more) vs' where "c = CHR '',''" "parse_elems n t' = Some (vs', r)" "vs = v # vs'"
    | (last) "c \<noteq> CHR '',''" "c = CHR '']''" "r = t'" "vs = [v]"
    by (auto split: if_splits option.splits)
  then show ?case
  proof cases
    case more
    note ih = 4(2) [OF v refl c more(1,2)]
    have "parse_elems m s = Some (vs, r)" if h: "2 * length s + 2 \<le> m" for m
    proof -
      obtain m' where m: "m = Suc m'" using h by (cases m) auto
      have "parse_value m' s = Some (v, t)" using ihv h m by simp
      moreover have "2 * length t' + 2 \<le> m'" using h l ihv m by simp
      with ih have "parse_elems m' t' = Some (vs', r)" by blast
      ultimately show ?thesis by (simp add: m c more(1,3))
    qed
    with ih ihv l show ?thesis by simp
  next
    case last
    have "parse_elems m s = Some (vs, r)" if h: "2 * length s + 2 \<le> m" for m
    proof -
      obtain m' where m: "m = Suc m'" using h by (cases m) auto
      have "parse_value m' s = Some (v, t)" using ihv h m by simp
      then show ?thesis using last by (simp add: m c)
    qed
    with ihv l last show ?thesis by simp
  qed
next
  case (5 s)
  then show ?case by simp
next
  case (6 n s)
  from 6(3) obtain s1 where s1: "skip_ws s = CHR 0x22 # s1"
    by (auto split: list.splits if_splits)
  from 6(3) s1 obtain k s2 where k: "parse_str s1 = Some (k, s2)"
    by (auto split: option.splits)
  from 6(3) s1 k obtain s3 where s3: "skip_ws s2 = CHR '':'' # s3"
    by (auto split: list.splits if_splits)
  from 6(3) s1 k s3 obtain v t where v: "parse_value n s3 = Some (v, t)"
    by (auto split: option.splits)
  have q: "\<not> CHR 0x22 \<noteq> CHR 0x22" "\<not> CHR '':'' \<noteq> CHR '':''" by simp_all
  note ihv = 6(1) [OF s1 q(1) k refl s3 q(2) v]
  have ls: "length s3 < length s"
    using skip_ws_Cons_length [OF s1] parse_str_length [OF k] skip_ws_Cons_length [OF s3]
    by simp
  from 6(3) s1 k s3 v obtain c t' where c: "skip_ws t = c # t'"
    by (auto split: list.splits)
  note l = skip_ws_Cons_length [OF c]
  from 6(3) s1 k s3 v c consider
      (more) kvs' where "c = CHR '',''" "parse_members n t' = Some (kvs', r)"
        "kvs = (k, v) # kvs'"
    | (last) "c \<noteq> CHR '',''" "c = CHR ''}''" "r = t'" "kvs = [(k, v)]"
    by (auto split: if_splits option.splits)
  then show ?case
  proof cases
    case more
    note ih = 6(2) [OF s1 q(1) k refl s3 q(2) v refl c more(1,2)]
    have "parse_members m s = Some (kvs, r)" if h: "2 * length s + 2 \<le> m" for m
    proof -
      obtain m' where m: "m = Suc m'" using h by (cases m) auto
      have "parse_value m' s3 = Some (v, t)" using ihv h m ls by simp
      moreover have "2 * length t' + 2 \<le> m'" using h l ihv ls m by simp
      with ih have "parse_members m' t' = Some (kvs', r)" by blast
      ultimately show ?thesis by (simp add: m s1 k s3 c more(1,3))
    qed
    with ih ihv l ls show ?thesis by simp
  next
    case last
    have "parse_members m s = Some (kvs, r)" if h: "2 * length s + 2 \<le> m" for m
    proof -
      obtain m' where m: "m = Suc m'" using h by (cases m) auto
      have "parse_value m' s3 = Some (v, t)" using ihv h m ls by simp
      then show ?thesis using last by (simp add: m s1 k s3 c)
    qed
    with ihv l ls last show ?thesis by simp
  qed
qed

text \<open>\<open>JSON_parse\<close> fails only on a text that no fuel parses to the end.\<close>

lemma JSON_parse_complete:
  assumes "parse_value n s = Some (v, r)" "skip_ws r = []"
  shows "JSON_parse s = Some v"
proof -
  have "2 * length s + 1 \<le> 2 * length s + 2" by simp
  with parse_fuel(1) [OF assms(1)] have "parse_value (2 * length s + 2) s = Some (v, r)"
    by blast
  then show ?thesis
    unfolding JSON_parse_def using assms(2) by (simp only: option.case prod.case) simp
qed

section \<open>The token codec: decoding inverts encoding\<close>

subsection \<open>base64\<close>

lemma of_char_int_range: "0 \<le> (of_char c :: int) \<and> (of_char c :: int) < 256"
proof -
  have "(of_char c :: int) mod 256 = of_char c" by simp
  with pos_mod_sign [of 256 "of_char c :: int"] pos_mod_bound [of 256 "of_char c :: int"]
  show ?thesis by simp
qed

lemma enc64_table:
  "list_all (\<lambda>n. unbase64 (enc64 n) = Some n \<and> enc64 n \<noteq> CHR ''='') [0..63]"
  by code_simp

lemma unbase64_enc64: "0 \<le> n \<Longrightarrow> n < 64 \<Longrightarrow> unbase64 (enc64 n) = Some n"
  using enc64_table by (simp add: list_all_iff)

lemma enc64_not_pad: "0 \<le> n \<Longrightarrow> n < 64 \<Longrightarrow> enc64 n \<noteq> CHR ''=''"
  using enc64_table by (simp add: list_all_iff)

lemma sextets_cons: "0 \<le> n \<Longrightarrow> n < 64 \<Longrightarrow> sextets (enc64 n # s) = n # sextets s"
  by (simp add: sextets_def unbase64_enc64 enc64_not_pad List.map_filter_simps)

lemma sextets_pad: "sextets (CHR ''='' # s) = []"
  by (simp add: sextets_def List.map_filter_simps)

lemma sextets_Nil: "sextets [] = []"
  by (simp add: sextets_def List.map_filter_simps)

lemma split_div: "0 \<le> q \<Longrightarrow> q < m \<Longrightarrow> (p * m + q) div m = (p::int)"
  by (simp add: div_pos_pos_trivial)

lemma split_mod: "0 \<le> q \<Longrightarrow> q < m \<Longrightarrow> (p * m + q) mod m = (q::int)"
  by (simp add: mod_pos_pos_trivial)

lemma bounds4: "0 \<le> (x::int) \<Longrightarrow> x < 256 \<Longrightarrow> 0 \<le> x div 4 \<and> x div 4 < 64 \<and> 0 \<le> x mod 4 \<and> x mod 4 < 4"
  by presburger

lemma bounds16: "0 \<le> (x::int) \<Longrightarrow> x < 256 \<Longrightarrow> 0 \<le> x div 16 \<and> x div 16 < 16 \<and> 0 \<le> x mod 16 \<and> x mod 16 < 16"
  by presburger

lemma bounds64: "0 \<le> (x::int) \<Longrightarrow> x < 256 \<Longrightarrow> 0 \<le> x div 64 \<and> x div 64 < 4 \<and> 0 \<le> x mod 64 \<and> x mod 64 < 64"
  by presburger

lemma byte1: 
  assumes "0 \<le> x" "x < 256" "0 \<le> y" "y < 256"
  shows "x div 4 * 4 + (x mod 4 * 16 + y div 16) div 16 = (x::int)"
  using bounds16 [OF assms(3,4)] by (simp add: split_div)

lemma byte2:
  assumes "0 \<le> y" "y < 256" "0 \<le> z" "z < 256"
  shows "(p * 16 + y div 16) mod 16 * 16 + (y mod 16 * 4 + z div 64) div 4 = (y::int)"
  using bounds16 [OF assms(1,2)] bounds64 [OF assms(3,4)] by (simp add: split_div split_mod)

lemma byte3:
  assumes "0 \<le> z" "z < 256"
  shows "(p * 4 + z div 64) mod 4 * 64 + z mod 64 = (z::int)"
  using bounds64 [OF assms(1,2)] by (simp add: split_div split_mod)


lemma div4: "0 \<le> (x::int) \<Longrightarrow> x < 256 \<Longrightarrow> 0 \<le> x div 4 \<and> x div 4 < 64"
  by presburger

lemma div16: "0 \<le> (x::int) \<Longrightarrow> x < 256 \<Longrightarrow> 0 \<le> x div 16 \<and> x div 16 < 16"
  by presburger

lemma div64: "0 \<le> (x::int) \<Longrightarrow> x < 256 \<Longrightarrow> 0 \<le> x div 64 \<and> x div 64 < 4"
  by presburger

lemma mod4: "0 \<le> (x::int) mod 4 \<and> x mod 4 < 4"
  by simp

lemma mod16: "0 \<le> (x::int) mod 16 \<and> x mod 16 < 16"
  by simp

lemma mod64: "0 \<le> (x::int) mod 64 \<and> x mod 64 < 64"
  by simp

lemma pack16: "0 \<le> p \<and> p < 4 \<Longrightarrow> 0 \<le> q \<and> q < 16 \<Longrightarrow>
  0 \<le> p * 16 + q \<and> p * 16 + q < (64::int)"
  by linarith

lemma pack4: "0 \<le> p \<and> p < 16 \<Longrightarrow> 0 \<le> q \<and> q < 4 \<Longrightarrow>
  0 \<le> p * 4 + q \<and> p * 4 + q < (64::int)"
  by linarith

lemma sextets_cons': "0 \<le> n \<and> n < 64 \<Longrightarrow> sextets (enc64 n # s) = n # sextets s"
  by (simp add: sextets_cons)

lemma decode_one:
  assumes "0 \<le> x" "x < 256"
  shows "base64_decode [enc64 (x div 4), enc64 (x mod 4 * 16), CHR ''='', CHR ''=''] = [char_of x]"
proof -
  have b1: "0 \<le> x div 4 \<and> x div 4 < 64" by (rule div4 [OF assms])
  have b2: "0 \<le> x mod 4 * 16 \<and> x mod 4 * 16 < 64"
    using pack16 [OF mod4 [of x], of 0] by simp
  have e: "x div 4 * 4 + (x mod 4 * 16) div 16 = x" by simp
  have "sextets [enc64 (x div 4), enc64 (x mod 4 * 16), CHR ''='', CHR ''=''] =
        [x div 4, x mod 4 * 16]"
    by (simp only: sextets_cons' [OF b1] sextets_cons' [OF b2] sextets_pad)
  then show ?thesis by (simp only: base64_decode_def decode_groups.simps e)
qed

lemma decode_two:
  assumes "0 \<le> x" "x < 256" "0 \<le> y" "y < 256"
  shows "base64_decode [enc64 (x div 4), enc64 (x mod 4 * 16 + y div 16),
                        enc64 (y mod 16 * 4), CHR ''=''] = [char_of x, char_of y]"
proof -
  have b1: "0 \<le> x div 4 \<and> x div 4 < 64" by (rule div4 [OF assms(1,2)])
  have b2: "0 \<le> x mod 4 * 16 + y div 16 \<and> x mod 4 * 16 + y div 16 < 64"
    by (rule pack16 [OF mod4 div16 [OF assms(3,4)]])
  have b3: "0 \<le> y mod 16 * 4 \<and> y mod 16 * 4 < 64"
    using pack4 [OF mod16 [of y], of 0] by simp
  have e: "x div 4 * 4 + (x mod 4 * 16 + y div 16) div 16 = x"
    "(x mod 4 * 16 + y div 16) mod 16 * 16 + (y mod 16 * 4) div 4 = y"
    using div16 [OF assms(3,4)] by (simp_all add: split_div split_mod)
  have "sextets [enc64 (x div 4), enc64 (x mod 4 * 16 + y div 16),
                 enc64 (y mod 16 * 4), CHR ''=''] =
        [x div 4, x mod 4 * 16 + y div 16, y mod 16 * 4]"
    by (simp only: sextets_cons' [OF b1] sextets_cons' [OF b2] sextets_cons' [OF b3]
        sextets_pad)
  then show ?thesis by (simp only: base64_decode_def decode_groups.simps e)
qed

lemma decode_three:
  assumes "0 \<le> x" "x < 256" "0 \<le> y" "y < 256" "0 \<le> z" "z < 256"
  shows "base64_decode (enc64 (x div 4) # enc64 (x mod 4 * 16 + y div 16) #
                        enc64 (y mod 16 * 4 + z div 64) # enc64 (z mod 64) # rest) =
         char_of x # char_of y # char_of z # base64_decode rest"
proof -
  have b1: "0 \<le> x div 4 \<and> x div 4 < 64" by (rule div4 [OF assms(1,2)])
  have b2: "0 \<le> x mod 4 * 16 + y div 16 \<and> x mod 4 * 16 + y div 16 < 64"
    by (rule pack16 [OF mod4 div16 [OF assms(3,4)]])
  have b3: "0 \<le> y mod 16 * 4 + z div 64 \<and> y mod 16 * 4 + z div 64 < 64"
    by (rule pack4 [OF mod16 div64 [OF assms(5,6)]])
  have b4: "0 \<le> z mod 64 \<and> z mod 64 < 64" by (rule mod64)
  note e = byte1 [OF assms(1-4)] byte2 [OF assms(3-6), of "x mod 4"]
    byte3 [OF assms(5,6), of "y mod 16"]
  have "sextets (enc64 (x div 4) # enc64 (x mod 4 * 16 + y div 16) #
                 enc64 (y mod 16 * 4 + z div 64) # enc64 (z mod 64) # rest) =
        x div 4 # (x mod 4 * 16 + y div 16) # (y mod 16 * 4 + z div 64) # z mod 64 #
        sextets rest"
    by (simp only: sextets_cons' [OF b1] sextets_cons' [OF b2] sextets_cons' [OF b3]
        sextets_cons' [OF b4])
  then show ?thesis by (simp only: base64_decode_def decode_groups.simps e)
qed

lemma base64_roundtrip: "base64_decode (base64_encode s) = s"
proof (induction s rule: base64_encode.induct)
  case 1
  show ?case by (simp add: base64_decode_def sextets_Nil)
next
  case (2 a)
  show ?case
    using decode_one [of "of_char a"] of_char_int_range [of a]
    by (simp add: Let_def)
next
  case (3 a b)
  show ?case
    using decode_two [of "of_char a" "of_char b"] of_char_int_range [of a]
      of_char_int_range [of b]
    by (simp add: Let_def)
next
  case (4 a b c rest)
  show ?case
    using decode_three [of "of_char a" "of_char b" "of_char c" "base64_encode rest"]
      of_char_int_range [of a] of_char_int_range [of b] of_char_int_range [of c] 4
    by (simp add: Let_def)
qed

subsection \<open>Strings\<close>

lemma hex_table: "list_all (\<lambda>n. hex_val (hex_digit n) = Some n) [0..<16]"
  by code_simp

lemma hex_val_digit: "n < 16 \<Longrightarrow> hex_val (hex_digit n) = Some n"
  using hex_table by (simp add: list_all_iff)

lemma hex_val_0: "hex_val CHR ''0'' = Some 0"
  by code_simp

lemma hex4_control:
  assumes "n < 32"
  shows "hex4 (CHR ''0'' # CHR ''0'' # hex_digit (n div 16) # hex_digit (n mod 16) # X) = Some (n, X)"
proof -
  have "n div 16 < 16" "n mod 16 < 16" using assms by simp_all
  then show ?thesis by (simp add: hex_val_digit hex_val_0)
qed

lemma unicode_escape_control:
  assumes "n < 32"
  shows "unicode_escape (CHR ''0'' # CHR ''0'' # hex_digit (n div 16) # hex_digit (n mod 16) # X) =
         Some ([char_of n], X)"
  using assms by (simp add: unicode_escape_def hex4_control utf8_def del: hex4.simps)

lemma str_item_quote_char: "str_item (quote_char c @ X) = Some (Some [c], X)"
proof (cases "(of_char c :: nat) < 32")
  case True
  note u = unicode_escape_control [OF True, of X]
  show ?thesis
    using u by (simp add: str_item_def quote_char_def simple_escapes_def)
next
  case False
  then show ?thesis
    by (auto simp: str_item_def quote_char_def simple_escapes_def)
qed

lemma parse_str_quoted:
  "parse_str (concat (map quote_char s) @ CHR 0x22 # rest) = Some (s, rest)"
proof (induction s)
  case Nil
  show ?case by (subst parse_str.simps) (simp add: str_item_def)
next
  case (Cons c s)
  have "str_item (quote_char c @ concat (map quote_char s) @ CHR 0x22 # rest) =
        Some (Some [c], concat (map quote_char s) @ CHR 0x22 # rest)"
    by (rule str_item_quote_char)
  then show ?case using Cons by (subst parse_str.simps) simp
qed

subsection \<open>Numbers\<close>

lemma digit_table:
  "list_all (\<lambda>d. is_digit (digit_char d) \<and> digit_val (digit_char d) = d \<and>
      (digit_char d = CHR ''0'') = (d = 0)) [0..9]"
  by code_simp

lemma digit_char_props:
  assumes "0 \<le> d" "d < 10"
  shows "is_digit (digit_char d)" "digit_val (digit_char d) = d"
    "(digit_char d = CHR ''0'') = (d = 0)"
  using digit_table assms by (simp_all add: list_all_iff)

lemma digits_val_snoc: "digits_val (ds @ [c]) = 10 * digits_val ds + digit_val c"
  by (simp add: digits_val_def)

lemma show_pos_ne: "show_pos n \<noteq> []"
  by (subst show_pos.simps) simp

lemma show_pos_digits: "0 \<le> n \<Longrightarrow> \<forall>c \<in> set (show_pos n). is_digit c"
proof (induction n rule: show_pos.induct)
  case (1 n)
  show ?case
  proof (cases "n < 10")
    case True
    with 1(2) show ?thesis by (subst show_pos.simps) (simp add: digit_char_props)
  next
    case False
    then have "0 \<le> n div 10" "0 \<le> n mod 10" "n mod 10 < 10" by simp_all
    with 1 False show ?thesis by (subst show_pos.simps) (simp add: digit_char_props)
  qed
qed

lemma show_pos_val: "0 \<le> n \<Longrightarrow> digits_val (show_pos n) = n"
proof (induction n rule: show_pos.induct)
  case (1 n)
  show ?case
  proof (cases "n < 10")
    case True
    with 1(2) show ?thesis
      by (subst show_pos.simps) (simp add: digit_char_props digits_val_def)
  next
    case False
    then have "0 \<le> n div 10" "0 \<le> n mod 10" "n mod 10 < 10" by simp_all
    with 1 False show ?thesis
      by (subst show_pos.simps) (simp add: digit_char_props digits_val_snoc)
  qed
qed

lemma show_pos_hd: "0 < n \<Longrightarrow> hd (show_pos n) \<noteq> CHR ''0''"
proof (induction n rule: show_pos.induct)
  case (1 n)
  show ?case
  proof (cases "n < 10")
    case True
    with 1(2) show ?thesis by (subst show_pos.simps) (simp add: digit_char_props)
  next
    case False
    then have "0 < n div 10" by simp
    with 1 False show ?thesis by (subst show_pos.simps) (simp add: show_pos_ne)
  qed
qed

lemma show_pos_0: "show_pos 0 = ''0''"
  by code_simp

text \<open>What may follow a number in a JSON text.\<close>

definition number_end :: "string \<Rightarrow> bool" where
  "number_end rest =
     (case rest of [] \<Rightarrow> True
      | c # _ \<Rightarrow> \<not> is_digit c \<and> c \<noteq> CHR ''.'' \<and> c \<noteq> CHR ''e'' \<and> c \<noteq> CHR ''E'')"

lemma takeWhile_digits:
  assumes "\<forall>c \<in> set ds. is_digit c" "number_end rest"
  shows "takeWhile is_digit (ds @ rest) = ds" "drop (length ds) (ds @ rest) = rest"
proof -
  have "takeWhile is_digit rest = []"
    using assms(2) by (cases rest) (simp_all add: number_end_def)
  then show "takeWhile is_digit (ds @ rest) = ds"
    using assms(1) by (simp add: takeWhile_append2)
  show "drop (length ds) (ds @ rest) = rest" by simp
qed

lemma parse_frac_end: "number_end rest \<Longrightarrow> parse_frac rest = Some ([], rest)"
  by (cases rest) (simp_all add: number_end_def parse_frac_def)

lemma parse_exp_end: "number_end rest \<Longrightarrow> parse_exp rest = Some (0, rest)"
  by (cases rest) (simp_all add: number_end_def parse_exp_def)

lemma pow10_0: "pow10 0 = 1"
  by (simp add: pow10_def)

lemma parse_number_digits:
  assumes "0 < n" "number_end rest"
  shows "parse_number (show_pos n @ rest) = Some (of_int n, rest)"
    and "parse_number (CHR ''-'' # show_pos n @ rest) = Some (of_int (- n), rest)"
proof -
  obtain c cs where cs: "show_pos n = c # cs"
    using show_pos_ne [of n] by (cases "show_pos n") auto
  have c0: "c \<noteq> CHR ''0''" using show_pos_hd [OF assms(1)] cs by simp
  have dg: "\<forall>c \<in> set (c # cs). is_digit c"
    using show_pos_digits [of n] assms(1) cs by simp
  then have cm: "c \<noteq> CHR ''-''" by (auto simp: is_digit_def)
  have tw: "takeWhile is_digit (c # cs @ rest) = c # cs"
    using takeWhile_digits(1) [OF dg assms(2)] by simp
  have v: "digits_val (c # cs) = n" using show_pos_val [of n] assms(1) cs by simp
  show "parse_number (show_pos n @ rest) = Some (of_int n, rest)"
    unfolding cs parse_number_def
    using c0 cm tw v assms(2)
    by (simp add: Let_def parse_frac_end parse_exp_end pow10_0)
  show "parse_number (CHR ''-'' # show_pos n @ rest) = Some (of_int (- n), rest)"
    unfolding cs parse_number_def
    using c0 cm tw v assms(2)
    by (simp add: Let_def parse_frac_end parse_exp_end pow10_0)
qed

lemma parse_number_zero:
  assumes "number_end rest"
  shows "parse_number (''0'' @ rest) = Some (0, rest)"
    and "parse_number (CHR ''-'' # ''0'' @ rest) = Some (0, rest)"
  using assms
  by (simp_all add: parse_number_def parse_frac_end parse_exp_end pow10_0
      digits_val_def digit_val_def)

lemma parse_number_pos:
  assumes "0 \<le> n" "number_end rest"
  shows "parse_number (show_pos n @ rest) = Some (of_int n, rest)"
proof (cases "n = 0")
  case True
  then show ?thesis using parse_number_zero(1) [OF assms(2)] by (simp add: show_pos_0)
next
  case False
  with assms(1) have "0 < n" by simp
  then show ?thesis by (rule parse_number_digits(1) [OF _ assms(2)])
qed

lemma parse_number_neg:
  assumes "0 \<le> n" "number_end rest"
  shows "parse_number (CHR ''-'' # show_pos n @ rest) = Some (of_int (- n), rest)"
proof (cases "n = 0")
  case True
  then show ?thesis using parse_number_zero(2) [OF assms(2)] by (simp add: show_pos_0)
next
  case False
  with assms(1) have "0 < n" by simp
  then show ?thesis by (rule parse_number_digits(2) [OF _ assms(2)])
qed

lemma parse_number_show_int:
  "number_end rest \<Longrightarrow> parse_number (show_int i @ rest) = Some (of_int i, rest)"
  using parse_number_pos [of i rest] parse_number_neg [of "- i" rest]
  by (simp add: show_int_def)

lemma show_int_hd:
  "\<exists>c cs. show_int i = c # cs \<and> (c = CHR ''-'' \<or> is_digit c)"
proof (cases "i < 0")
  case True
  then show ?thesis by (simp add: show_int_def)
next
  case False
  then have "\<forall>c \<in> set (show_pos i). is_digit c" using show_pos_digits [of i] by simp
  with False show_pos_ne [of i] show ?thesis
    by (cases "show_pos i") (auto simp: show_int_def)
qed

lemma skip_ws_nonws: "\<not> is_ws c \<Longrightarrow> skip_ws (c # s) = c # s"
  by (simp add: skip_ws_def)

lemma digit_not_special:
  assumes "c = CHR ''-'' \<or> is_digit c"
  shows "\<not> is_ws c" "c \<noteq> CHR ''{''" "c \<noteq> CHR ''[''" "c \<noteq> CHR 0x22"
    "c \<noteq> CHR ''t''" "c \<noteq> CHR ''f''" "c \<noteq> CHR ''n''"
  using assms by (auto simp: is_digit_def is_ws_def)

lemma parse_value_number:
  assumes "number_end rest"
  shows "parse_value (Suc n) (show_int i @ rest) = Some (JNum (of_int i), rest)"
proof -
  obtain c cs where cs: "show_int i = c # cs" and c: "c = CHR ''-'' \<or> is_digit c"
    using show_int_hd [of i] by blast
  note d = digit_not_special [OF c]
  have pn: "parse_number (c # cs @ rest) = Some (of_int i, rest)"
    using parse_number_show_int [OF assms, of i] cs by simp
  show ?thesis
    unfolding cs using d c pn by (simp add: skip_ws_nonws)
qed

lemma parse_value_string:
  "parse_value (Suc n) (quote s @ rest) = Some (JStr s, rest)"
  by (simp add: quote_def skip_ws_nonws is_ws_def parse_str_quoted)

lemma parse_members_last:
  assumes "parse_value n V = Some (v, CHR ''}'' # r)"
  shows "parse_members (Suc n) (quote k @ CHR '':'' # V) = Some ([(k, v)], r)"
  using assms by (simp add: quote_def skip_ws_nonws is_ws_def parse_str_quoted)

lemma parse_members_more:
  assumes "parse_value n V = Some (v, CHR '','' # ms)"
    and "parse_members n ms = Some (kvs, r)"
  shows "parse_members (Suc n) (quote k @ CHR '':'' # V) = Some ((k, v) # kvs, r)"
  using assms by (simp add: quote_def skip_ws_nonws is_ws_def parse_str_quoted)

lemma parse_value_payload:
  "parse_value (Suc (Suc (Suc (Suc (Suc n))))) (JSON_stringify p) =
   Some (JObj [(''catalogueId'', JNum (of_int (tp_catalogueId p))),
               (''email'', JStr (tp_email p)),
               (''exp'', JNum (of_int (tp_exp p)))], [])"
proof -
  have v3: "parse_value (Suc n) (show_int (tp_exp p) @ ''}'') =
            Some (JNum (of_int (tp_exp p)), ''}'')"
    by (rule parse_value_number) (simp add: number_end_def is_digit_def)
  have m3: "parse_members (Suc (Suc n)) (quote ''exp'' @ CHR '':'' # show_int (tp_exp p) @ ''}'') =
            Some ([(''exp'', JNum (of_int (tp_exp p)))], [])"
    by (rule parse_members_last) (use v3 in simp)
  have v2: "parse_value (Suc (Suc n))
              (quote (tp_email p) @ CHR '','' # quote ''exp'' @ CHR '':'' # show_int (tp_exp p) @ ''}'') =
            Some (JStr (tp_email p),
                  CHR '','' # quote ''exp'' @ CHR '':'' # show_int (tp_exp p) @ ''}'')"
    by (rule parse_value_string)
  have m2: "parse_members (Suc (Suc (Suc n)))
              (quote ''email'' @ CHR '':'' # quote (tp_email p) @ CHR '','' # quote ''exp'' @
               CHR '':'' # show_int (tp_exp p) @ ''}'') =
            Some ([(''email'', JStr (tp_email p)), (''exp'', JNum (of_int (tp_exp p)))], [])"
    by (rule parse_members_more [OF v2 m3])
  have v1: "parse_value (Suc (Suc (Suc n)))
              (show_int (tp_catalogueId p) @ CHR '','' # quote ''email'' @ CHR '':'' #
               quote (tp_email p) @ CHR '','' # quote ''exp'' @ CHR '':'' #
               show_int (tp_exp p) @ ''}'') =
            Some (JNum (of_int (tp_catalogueId p)),
                  CHR '','' # quote ''email'' @ CHR '':'' #
                  quote (tp_email p) @ CHR '','' # quote ''exp'' @ CHR '':'' #
                  show_int (tp_exp p) @ ''}'')"
    by (rule parse_value_number) (simp add: number_end_def is_digit_def)
  have m1: "parse_members (Suc (Suc (Suc (Suc n))))
              (quote ''catalogueId'' @ CHR '':'' # show_int (tp_catalogueId p) @ CHR '','' #
               quote ''email'' @ CHR '':'' # quote (tp_email p) @ CHR '','' # quote ''exp'' @
               CHR '':'' # show_int (tp_exp p) @ ''}'') =
            Some ([(''catalogueId'', JNum (of_int (tp_catalogueId p))),
                   (''email'', JStr (tp_email p)),
                   (''exp'', JNum (of_int (tp_exp p)))], [])"
    by (rule parse_members_more [OF v1 m2])
  have q: "skip_ws (quote ''catalogueId'' @ x) = quote ''catalogueId'' @ x" for x
    by (simp add: quote_def skip_ws_nonws is_ws_def)
  have t: "take 1 (quote ''catalogueId'' @ x) \<noteq> ''}''" for x
    by (simp add: quote_def)
  show ?thesis
    unfolding JSON_stringify_def
    using m1 q t by (simp add: skip_ws_nonws is_ws_def)
qed

lemma JSON_stringify_length: "2 \<le> length (JSON_stringify p)"
  by (simp add: JSON_stringify_def quote_def)

lemma JSON_parse_stringify:
  "JSON_parse (JSON_stringify p) =
   Some (JObj [(''catalogueId'', JNum (of_int (tp_catalogueId p))),
               (''email'', JStr (tp_email p)),
               (''exp'', JNum (of_int (tp_exp p)))])"
proof -
  obtain n where n: "2 * length (JSON_stringify p) + 2 = Suc (Suc (Suc (Suc (Suc n))))"
    using JSON_stringify_length [of p]
    by (metis add_2_eq_Suc' le_Suc_ex mult_2 add_Suc_right add_Suc numeral_2_eq_2)
  show ?thesis
    unfolding JSON_parse_def n parse_value_payload by (simp add: skip_ws_def)
qed

lemma token_roundtrip:
  "JSON_parse (atob (btoa (JSON_stringify p))) =
   Some (JObj [(''catalogueId'', JNum (of_int (tp_catalogueId p))),
               (''email'', JStr (tp_email p)),
               (''exp'', JNum (of_int (tp_exp p)))])"
  by (simp add: atob_def btoa_def base64_roundtrip JSON_parse_stringify)

section \<open>Example data\<close>

text \<open>
  A store with two users, three products of the first user and one catalogue of hers,
  and the environments of a few requests.
\<close>

definition alice :: user where
  "alice = \<lparr>u_id = 1, u_username = ''alice'', u_password = ''hash-a'',
     u_email = ''alice@example.com'', u_company = Some ''Acme'', u_createdAt = 0\<rparr>"

definition bob :: user where
  "bob = \<lparr>u_id = 2, u_username = ''bob'', u_password = ''hash-b'',
     u_email = ''bob@example.com'', u_company = None, u_createdAt = 0\<rparr>"

definition demo_product :: "int \<Rightarrow> product" where
  "demo_product i = \<lparr>p_id = i, p_userId = 1, p_name = ''item'', p_description = None,
     p_price = ''9.99'', p_imageUrl = None, p_category = None, p_inStock = Some True,
     p_createdAt = 0\<rparr>"

definition demo_catalogue :: catalogue where
  "demo_catalogue = \<lparr>c_id = 1, c_userId = 1, c_name = ''Spring'', c_description = None,
     c_shareableLink = ''catalogue-abc'', c_isPublic = Some True, c_views = Some 0,
     c_createdAt = 0\<rparr>"

definition demo_store :: store where
  "demo_store = \<lparr>users = [alice, bob],
     products = [demo_product 1, demo_product 2, demo_product 3],
     catalogues = [demo_catalogue], catalogueProducts = [], orders = [],
     accessRequests = [], currentUserId = 3, currentProductId = 4,
     currentCatalogueId = 2, currentCatalogueProductId = 1, currentOrderId = 1,
     currentAccessRequestId = 1\<rparr>"

definition demo_env :: "int option \<Rightarrow> env" where
  "demo_env u = \<lparr>e_now = 1000, e_user = u, e_authorization = None, e_nanoid = ''a_b-c1'',
     e_nanoid2 = ''zzzzzz'', e_less = (\<lambda>v n. Some False)\<rparr>"

section \<open>Ownership of a catalogue under PUT /api/catalogues/:id\<close>

text \<open>The catalogues of a store with their owners, in the order of the table.\<close>

definition owners :: "store \<Rightarrow> (int \<times> int) list" where
  "owners st = map (\<lambda>c. (c_id c, c_userId c)) (catalogues st)"

lemma map_set_keys:
  "key v \<in> key ` set rows \<Longrightarrow> map key (map_set key v rows) = map key rows"
  by (induction rows) auto

lemma map_get_Some_key: "map_get key k rows = Some r \<Longrightarrow> key r = k \<and> r \<in> set rows"
  by (induction rows) (auto simp: map_get_def split: if_splits)

lemma map_set_owner:
  assumes "map_get c_id i rows = Some c" "c_id c' = i" "c_userId c' = c_userId c"
  shows "map (\<lambda>c. (c_id c, c_userId c)) (map_set c_id c' rows) =
         map (\<lambda>c. (c_id c, c_userId c)) rows"
  using assms by (induction rows) (auto simp: map_get_def split: if_splits)

lemma Mem_add_new_products_catalogues:
  "catalogues (add_new_products MemStorage uid cid cur refs st) = catalogues st"
  by (induction refs arbitrary: st)
     (auto simp: MemStorage_def Mem_addProductToCatalogue_def Let_def split: option.splits)

lemma Mem_remove_old_products_catalogues:
  "catalogues (remove_old_products MemStorage cid refs cur st) = catalogues st"
  by (induction cur arbitrary: st)
     (auto simp: MemStorage_def Mem_removeProductFromCatalogue_def split: option.splits)

lemma Db_add_new_products_catalogues:
  "catalogues (add_new_products DatabaseStorage uid cid cur refs st) = catalogues st"
  by (induction refs arbitrary: st)
     (auto simp: DatabaseStorage_def Db_addProductToCatalogue_def Let_def split: option.splits)

lemma Db_remove_old_products_catalogues:
  "catalogues (remove_old_products DatabaseStorage cid refs cur st) = catalogues st"
  by (induction cur arbitrary: st)
     (auto simp: DatabaseStorage_def Db_removeProductFromCatalogue_def split: option.splits)

lemma spread_no_owner: "c_userId (spread_catalogue c (u\<lparr>pc_userId := None\<rparr>)) = c_userId c"
  "c_id (spread_catalogue c u) = c_id c"
  by (simp_all add: spread_catalogue_def)

lemma Mem_updateCatalogue_owner:
  "owners (snd (Mem_updateCatalogue i (u\<lparr>pc_userId := None\<rparr>) st)) = owners st"
proof (cases "map_get c_id i (catalogues st)")
  case None
  then show ?thesis by (simp add: Mem_updateCatalogue_def)
next
  case (Some c)
  have "c_id c = i" using map_get_Some_key [OF Some] by simp
  then have "map (\<lambda>c. (c_id c, c_userId c))
          (map_set c_id (spread_catalogue c (u\<lparr>pc_userId := None\<rparr>)) (catalogues st)) =
        map (\<lambda>c. (c_id c, c_userId c)) (catalogues st)"
    by (intro map_set_owner [OF Some]) (simp_all add: spread_no_owner)
  then show ?thesis using Some by (simp add: Mem_updateCatalogue_def owners_def Let_def)
qed

lemma Db_updateCatalogue_owner:
  "owners (snd (Db_updateCatalogue i (u\<lparr>pc_userId := None\<rparr>) st)) = owners st"
  by (simp add: Db_updateCatalogue_def owners_def Let_def spread_no_owner cong: if_cong)

lemma owners_cong: "catalogues st' = catalogues st \<Longrightarrow> owners st' = owners st"
  by (simp add: owners_def)

text \<open>
  C10. PUT /api/catalogues/:id never changes the owner of a catalogue: whatever the
  session, the id and the body (a body with a \<open>userId\<close> key included), every catalogue has
  the owner after the request that it had before, with MemStorage and with
  DatabaseStorage.
\<close>

theorem put_catalogue_keeps_owner:
  "owners (snd (put_catalogue MemStorage e i body st)) = owners st \<and>
   owners (snd (put_catalogue DatabaseStorage e i body st)) = owners st"
proof -
  have mem: "getCatalogue MemStorage = Mem_getCatalogue"
    "updateCatalogue MemStorage = Mem_updateCatalogue"
    by (simp_all add: MemStorage_def)
  have db: "getCatalogue DatabaseStorage = Db_getCatalogue"
    "updateCatalogue DatabaseStorage = Db_updateCatalogue"
    by (simp_all add: DatabaseStorage_def)
  have "owners (snd (put_catalogue MemStorage e i body st)) = owners st"
    using Mem_updateCatalogue_owner [of i "partialCatalogue.truncate body" st]
    by (auto simp: put_catalogue_def Let_def mem
        owners_cong [OF Mem_add_new_products_catalogues]
        owners_cong [OF Mem_remove_old_products_catalogues]
        split: option.splits prod.splits)
  moreover have "owners (snd (put_catalogue DatabaseStorage e i body st)) = owners st"
    using Db_updateCatalogue_owner [of i "partialCatalogue.truncate body" st]
    by (auto simp: put_catalogue_def Let_def db
        owners_cong [OF Db_add_new_products_catalogues]
        owners_cong [OF Db_remove_old_products_catalogues]
        split: option.splits prod.splits)
  ultimately show ?thesis by simp
qed

section \<open>Ownership checks\<close>

definition demo_order :: order where
  "demo_order = \<lparr>o_id = 1, o_userId = 1, o_orderId = ''ORD-AAAAAA'', o_catalogueId = Some 1,
     o_retailerName = ''Rita'', o_retailerEmail = ''rita@shop.example'',
     o_retailerCompany = ''Shop'', o_items = JArr [], o_amount = ''10.00'',
     o_paymentStatus = Some ''pending'', o_orderDate = 0\<rparr>"

definition demo_store_orders :: store where
  "demo_store_orders = demo_store\<lparr>orders := [demo_order], currentOrderId := 2\<rparr>"

definition no_product_update :: partialProduct where
  "no_product_update = \<lparr>pp_userId = None, pp_name = None, pp_description = None,
     pp_price = None, pp_imageUrl = None, pp_category = None, pp_inStock = None\<rparr>"

definition no_catalogue_update :: catalogueBody where
  "no_catalogue_update = \<lparr>pc_userId = None, pc_name = None, pc_description = None,
     pc_shareableLink = None, pc_isPublic = None, cb_productIds = None\<rparr>"

definition forbidden :: outcome where
  "forbidden = Response 403 (message ''Unauthorized'')"

text \<open>
  C2 (as amended). An authenticated user who reads, changes or deletes a product, a
  catalogue or an order that exists and belongs to somebody else gets 403 and the store
  is left as it was, with every storage implementation; the one exception is
  PUT /api/orders/:orderId/status with no (or an empty) \<open>paymentStatus\<close>, which answers
  400 before it looks at the order, the store again unchanged.
\<close>

theorem foreign_entity_is_refused:
  "e_user e = Some uid \<Longrightarrow>
   (getProduct S i st = Some p \<and> p_userId p \<noteq> uid \<longrightarrow>
      get_product S e i st = (forbidden, st) \<and>
      put_product S e i pb st = (forbidden, st) \<and>
      delete_product S e i st = (forbidden, st)) \<and>
   (getCatalogue S j st = Some c \<and> c_userId c \<noteq> uid \<longrightarrow>
      get_catalogue S e j st = (forbidden, st) \<and>
      put_catalogue S e j cb st = (forbidden, st) \<and>
      delete_catalogue S e j st = (forbidden, st)) \<and>
   (getOrderByOrderId S oid st = Some ord \<and> o_userId ord \<noteq> uid \<longrightarrow>
      get_order S e oid st = (forbidden, st) \<and>
      put_order_status S e oid ps st =
        (if blank ps then (Response 400 (message ''Payment status is required''), st)
         else (forbidden, st)))"
  by (simp add: get_product_def put_product_def delete_product_def get_catalogue_def
      put_catalogue_def delete_catalogue_def get_order_def put_order_status_def forbidden_def)

lemma demo_lookups:
  "getProduct MemStorage 1 demo_store_orders = Some (demo_product 1)"
  "getCatalogue MemStorage 1 demo_store_orders = Some demo_catalogue"
  "getOrderByOrderId MemStorage ''ORD-AAAAAA'' demo_store_orders = Some demo_order"
  by (simp_all add: MemStorage_def Mem_getProduct_def Mem_getCatalogue_def
      Mem_getOrderByOrderId_def map_get_def demo_store_orders_def demo_store_def
      demo_product_def demo_catalogue_def demo_order_def)

text \<open>Bob (user 2) asks for the product, the catalogue and the order of Alice (user 1).\<close>

theorem foreign_entity_is_refused_witness:
  "get_product MemStorage (demo_env (Some 2)) 1 demo_store_orders = (forbidden, demo_store_orders) \<and>
   put_product MemStorage (demo_env (Some 2)) 1 no_product_update demo_store_orders =
     (forbidden, demo_store_orders) \<and>
   delete_product MemStorage (demo_env (Some 2)) 1 demo_store_orders = (forbidden, demo_store_orders) \<and>
   get_catalogue MemStorage (demo_env (Some 2)) 1 demo_store_orders = (forbidden, demo_store_orders) \<and>
   put_catalogue MemStorage (demo_env (Some 2)) 1 no_catalogue_update demo_store_orders =
     (forbidden, demo_store_orders) \<and>
   delete_catalogue MemStorage (demo_env (Some 2)) 1 demo_store_orders = (forbidden, demo_store_orders) \<and>
   get_order MemStorage (demo_env (Some 2)) ''ORD-AAAAAA'' demo_store_orders = (forbidden, demo_store_orders) \<and>
   put_order_status MemStorage (demo_env (Some 2)) ''ORD-AAAAAA'' (Some ''paid'') demo_store_orders =
     (forbidden, demo_store_orders)"
  using foreign_entity_is_refused [of "demo_env (Some 2)" 2 MemStorage 1 demo_store_orders
      "demo_product 1" no_product_update 1 demo_catalogue no_catalogue_update
      "''ORD-AAAAAA''" demo_order "Some ''paid''"]
  by (simp add: demo_lookups demo_env_def demo_product_def demo_catalogue_def demo_order_def
      blank_def)

text \<open>
  C2 as stated fails: Bob sends PUT /api/orders/ORD-AAAAAA/status with no
  \<open>paymentStatus\<close> for the order of Alice, and the answer is 400, not 403.
\<close>

theorem put_order_status_400_counterexample:
  "e_user (demo_env (Some 2)) = Some 2 \<and>
   getOrderByOrderId MemStorage ''ORD-AAAAAA'' demo_store_orders = Some demo_order \<and>
   o_userId demo_order \<noteq> 2 \<and>
   put_order_status MemStorage (demo_env (Some 2)) ''ORD-AAAAAA'' None demo_store_orders =
     (Response 400 (message ''Payment status is required''), demo_store_orders)"
  by (simp add: demo_lookups put_order_status_def demo_env_def demo_order_def blank_def)

section \<open>Order ids and the default payment status\<close>

text \<open>nanoid draws the characters of an id from its URL alphabet.\<close>

definition urlAlphabet :: string where
  "urlAlphabet = ''useandom-26T198340PX75pxJACKVERYMINDBUSHWOLF_GQZbfghjklqvwyzrict''"

definition is_nanoid :: "nat \<Rightarrow> string \<Rightarrow> bool" where
  "is_nanoid n s = (length s = n \<and> list_all (\<lambda>c. c \<in> set urlAlphabet) s)"

text \<open>\<open>ORD-\<close> followed by exactly six characters of \<open>allowed\<close>.\<close>

definition order_id_pattern :: "string \<Rightarrow> string \<Rightarrow> bool" where
  "order_id_pattern allowed s =
     (take 4 s = ''ORD-'' \<and> length s = 10 \<and> list_all (\<lambda>c. c \<in> set allowed) (drop 4 s))"

definition upper_or_digit :: string where
  "upper_or_digit = upper_case @ ''0123456789''"

definition demo_order_body :: orderBody where
  "demo_order_body = \<lparr>ob_userId = Some 1, ob_orderId = None, ob_catalogueId = Some (Some 1),
     ob_retailerName = Some ''Rita'', ob_retailerEmail = Some ''rita@shop.example'',
     ob_retailerCompany = Some ''Shop'', ob_items = Some (JArr []), ob_amount = Some ''10.00'',
     ob_paymentStatus = None\<rparr>"

lemma upper_alphabet:
  "list_all (\<lambda>c. (case map_of (zip lower_case upper_case) c of None \<Rightarrow> c | Some d \<Rightarrow> d)
       \<in> set (upper_or_digit @ ''_-'')) urlAlphabet"
  by code_simp

lemma toUpperCase_nanoid:
  assumes "is_nanoid n s"
  shows "length (toUpperCase s) = n"
    and "list_all (\<lambda>c. c \<in> set (upper_or_digit @ ''_-'')) (toUpperCase s)"
proof -
  show "length (toUpperCase s) = n" using assms by (simp add: toUpperCase_def is_nanoid_def)
  have "\<forall>c \<in> set s. c \<in> set urlAlphabet" using assms by (simp add: is_nanoid_def list_all_iff)
  then show "list_all (\<lambda>c. c \<in> set (upper_or_digit @ ''_-'')) (toUpperCase s)"
    using upper_alphabet unfolding toUpperCase_def list_all_iff by auto
qed

lemma order_id_of_nanoid:
  assumes "is_nanoid 6 s"
  shows "order_id_pattern (upper_or_digit @ ''_-'') (''ORD-'' @ toUpperCase s)"
  using toUpperCase_nanoid [OF assms] by (simp add: order_id_pattern_def)

lemma map_set_mem: "v \<in> set (map_set key v rows)"
  by (induction rows) auto

lemma or_else_nonempty: "t \<noteq> [] \<Longrightarrow> or_else (Some t) d = t"
  by (simp add: or_else_def)

lemma or_else_blank: "blank a \<Longrightarrow> or_else a d = d"
  by (auto simp: or_else_def blank_def split: option.splits)

text \<open>
  C5 (as amended). For every body that POST /api/orders accepts, the created order has
  the \<open>orderId\<close> \<open>ORD-\<close> followed by the six characters nanoid returned, in upper case:
  six characters of \<open>A-Z\<close>, \<open>0-9\<close>, \<open>_\<close> and \<open>-\<close>; and its \<open>paymentStatus\<close> is
  \<open>pending\<close> when the body gives none (or an empty one), the given one otherwise. With
  MemStorage and with DatabaseStorage.
\<close>

theorem post_order_orderId_and_status:
  assumes "is_nanoid 6 (e_nanoid e)"
    and "S = MemStorage \<or> S = DatabaseStorage"
    and "fst (post_order S e body st) \<noteq> Next ZodError"
  shows "\<exists>ord st'. post_order S e body st = (Response 201 (Some (order_json ord)), st') \<and>
           ord \<in> set (orders st') \<and>
           o_orderId ord = ''ORD-'' @ toUpperCase (e_nanoid e) \<and>
           order_id_pattern (upper_or_digit @ ''_-'') (o_orderId ord) \<and>
           (if blank (ob_paymentStatus body) then o_paymentStatus ord = Some ''pending''
            else o_paymentStatus ord = ob_paymentStatus body)"
proof -
  let ?oid = "''ORD-'' @ toUpperCase (e_nanoid e)"
  obtain v where v: "insertOrderSchema_parse (body\<lparr>ob_orderId := Some ?oid\<rparr>) = Some v"
    using assms(3) by (cases "insertOrderSchema_parse (body\<lparr>ob_orderId := Some ?oid\<rparr>)")
      (auto simp: post_order_def Let_def)
  have io: "io_orderId v = Some ?oid" "io_paymentStatus v = ob_paymentStatus body"
    using v by (auto simp: insertOrderSchema_parse_def split: option.splits)
  have ne: "?oid \<noteq> []" by simp
  note pat = order_id_of_nanoid [OF assms(1)]
  have ps: "Some (or_else (ob_paymentStatus body) ''pending'') =
            (if blank (ob_paymentStatus body) then Some ''pending'' else ob_paymentStatus body)"
    by (auto simp: or_else_def blank_def split: option.splits)
  from assms(2) show ?thesis
  proof
    assume "S = MemStorage"
    then show ?thesis
      using v io pat ps
      by (auto simp: post_order_def Let_def MemStorage_def Mem_createOrder_def map_set_mem
          or_else_nonempty [OF ne] simp del: append.simps)
  next
    assume "S = DatabaseStorage"
    then show ?thesis
      using v io pat ps
      by (auto simp: post_order_def Let_def DatabaseStorage_def Db_createOrder_def
          or_else_nonempty [OF ne] simp del: append.simps)
  qed
qed


definition demo_created_order :: order where
  "demo_created_order = \<lparr>o_id = 1, o_userId = 1, o_orderId = ''ORD-A_B-C1'',
     o_catalogueId = Some 1, o_retailerName = ''Rita'',
     o_retailerEmail = ''rita@shop.example'', o_retailerCompany = ''Shop'',
     o_items = JArr [], o_amount = ''10.00'', o_paymentStatus = Some ''pending'',
     o_orderDate = 1000\<rparr>"

lemma demo_post_order:
  "post_order MemStorage (demo_env None) demo_order_body demo_store =
     (Response 201 (Some (order_json demo_created_order)),
      demo_store\<lparr>orders := [demo_created_order], currentOrderId := 2\<rparr>)"
  by (simp add: post_order_def demo_env_def demo_order_body_def demo_store_def
      insertOrderSchema_parse_def MemStorage_def Mem_createOrder_def Let_def toUpperCase_def
      lower_case_def upper_case_def or_else_def nullish_def demo_created_order_def)

lemma demo_nanoid: "is_nanoid 6 (e_nanoid (demo_env None))"
  by (simp add: is_nanoid_def urlAlphabet_def demo_env_def)

text \<open>An order placed with the id \<open>a_b-c1\<close> from nanoid.\<close>

theorem post_order_orderId_and_status_witness:
  "\<exists>ord st'. post_order MemStorage (demo_env None) demo_order_body demo_store =
       (Response 201 (Some (order_json ord)), st') \<and>
     ord \<in> set (orders st') \<and>
     o_orderId ord = ''ORD-'' @ toUpperCase (e_nanoid (demo_env None)) \<and>
     order_id_pattern (upper_or_digit @ ''_-'') (o_orderId ord) \<and>
     o_paymentStatus ord = Some ''pending''"
proof -
  have h: "fst (post_order MemStorage (demo_env None) demo_order_body demo_store) \<noteq>
           Next ZodError"
    by (simp add: demo_post_order)
  have b: "blank (ob_paymentStatus demo_order_body)"
    by (simp add: demo_order_body_def blank_def)
  show ?thesis
    using post_order_orderId_and_status [OF demo_nanoid _ h] b by simp
qed

text \<open>
  C5 as stated fails: nanoid's alphabet has \<open>_\<close> and \<open>-\<close>, so the id \<open>ORD-A_B-C1\<close> is
  created, which is not \<open>ORD-\<close> and six characters of \<open>A-Z\<close> and \<open>0-9\<close>.
\<close>

theorem post_order_orderId_counterexample:
  "is_nanoid 6 (e_nanoid (demo_env None)) \<and>
   fst (post_order MemStorage (demo_env None) demo_order_body demo_store) =
     Response 201 (Some (order_json demo_created_order)) \<and>
   o_orderId demo_created_order = ''ORD-A_B-C1'' \<and>
   \<not> order_id_pattern upper_or_digit (o_orderId demo_created_order)"
  using demo_nanoid
  by (simp add: demo_post_order demo_created_order_def order_id_pattern_def
      upper_or_digit_def upper_case_def)

section \<open>Access tokens\<close>

lemma bearer_token: "bearer (Some (''Bearer '' @ t)) = Some t"
  by (simp add: bearer_def)

lemma decode_minted:
  "JSON_parse (base64_decode (btoa (JSON_stringify p))) =
   Some (JObj [(''catalogueId'', num (tp_catalogueId p)), (''email'', JStr (tp_email p)),
               (''exp'', num (tp_exp p))])"
  using token_roundtrip [of p] by (simp add: atob_def num_def)

lemma decode_token_minted:
  "decode_token (btoa (JSON_stringify p)) =
   Some (JObj [(''catalogueId'', num (tp_catalogueId p)), (''email'', JStr (tp_email p)),
               (''exp'', num (tp_exp p))])"
  by (simp add: decode_token_def decode_minted)

lemma check_token_minted:
  "check_token e (btoa (JSON_stringify p)) =
     (if tp_catalogueId p = 0 \<or> tp_exp p = 0 then Malformed
      else if tp_exp p < e_now e then Expired
      else Valid (JObj [(''catalogueId'', num (tp_catalogueId p)), (''email'', JStr (tp_email p)),
                        (''exp'', num (tp_exp p))]))"
  by (simp add: check_token_def decode_token_minted num_def less_now_def)

definition status_of :: "outcome \<Rightarrow> nat option" where
  "status_of out = (case out of Response n b \<Rightarrow> Some n | Next err \<Rightarrow> None)"

text \<open>
  The three token failures: a token that does not decode to an object with a
  \<open>catalogueId\<close> and an \<open>exp\<close>; a token whose \<open>exp\<close> is a number below the clock; a token
  whose \<open>catalogueId\<close> is not the id of the catalogue of the link.
\<close>

definition malformed :: "string \<Rightarrow> bool" where
  "malformed t =
     (case decode_token t of
        None \<Rightarrow> True
      | Some td \<Rightarrow>
          falsy (Some td) \<or> falsy (get_prop td ''catalogueId'') \<or> falsy (get_prop td ''exp''))"

definition expired :: "env \<Rightarrow> string \<Rightarrow> bool" where
  "expired e t =
     (case decode_token t of
        None \<Rightarrow> False
      | Some td \<Rightarrow>
          (case get_prop td ''exp'' of
             Some (JNum x) \<Rightarrow> x < of_int (e_now e)
           | _ \<Rightarrow> False))"

definition mismatched :: "string \<Rightarrow> int \<Rightarrow> bool" where
  "mismatched t cid =
     (case decode_token t of
        None \<Rightarrow> False
      | Some td \<Rightarrow> get_prop td ''catalogueId'' \<noteq> Some (num cid))"

lemma check_token_malformed: "malformed t \<Longrightarrow> check_token e t = Malformed"
  by (auto simp: malformed_def check_token_def split: option.splits)

lemma check_token_expired:
  "expired e t \<Longrightarrow> check_token e t = Malformed \<or> check_token e t = Expired"
  by (auto simp: expired_def check_token_def less_now_def split: option.splits json.splits)

lemma check_token_not_valid:
  "malformed t \<or> expired e t \<Longrightarrow> check_token e t \<noteq> Valid td"
  using check_token_malformed [of t e] check_token_expired [of e t] by auto

lemma check_token_valid_decode:
  "check_token e t = Valid td \<Longrightarrow> decode_token t = Some td"
  by (auto simp: check_token_def split: option.splits if_splits bool.splits)

lemma view_401:
  assumes "bearer (e_authorization e) = Some t"
    and "getCatalogueByLink S link st = Some c"
    and "malformed t \<or> expired e t \<or> mismatched t (c_id c)"
  shows "status_of (fst (shared_view S e link st)) = Some 401 \<and>
         snd (shared_view S e link st) = st"
proof (cases "check_token e t")
  case (Valid td)
  then have "\<not> (malformed t \<or> expired e t)" using check_token_not_valid by blast
  with assms(3) have "mismatched t (c_id c)" by simp
  then have "get_prop td ''catalogueId'' \<noteq> Some (num (c_id c))"
    using check_token_valid_decode [OF Valid] by (simp add: mismatched_def)
  then show ?thesis using assms(1,2) Valid by (simp add: shared_view_def status_of_def)
qed (use assms(1) in \<open>simp_all add: shared_view_def status_of_def\<close>)

lemma retailer_info_401:
  assumes "bearer (e_authorization e) = Some t"
    and "malformed t \<or> expired e t"
  shows "status_of (fst (retailer_info S e link em st)) = Some 401 \<and>
         snd (retailer_info S e link em st) = st"
proof (cases "check_token e t")
  case (Valid td)
  then show ?thesis using check_token_not_valid [OF assms(2), of td] by simp
qed (use assms(1) in \<open>simp_all add: retailer_info_def status_of_def\<close>)

lemma retailer_info_404:
  assumes "bearer (e_authorization e) = Some t"
    and "getCatalogueByLink S link st = Some c"
    and "check_token e t = Valid td" "mismatched t (c_id c)"
  shows "retailer_info S e link em st = (Response 404 (message ''Catalogue not found''), st)"
proof -
  have "get_prop td ''catalogueId'' \<noteq> Some (num (c_id c))"
    using check_token_valid_decode [OF assms(3)] assms(4) by (simp add: mismatched_def)
  then show ?thesis using assms(1-3) by (simp add: retailer_info_def)
qed

lemma undecodable_401:
  assumes "bearer (e_authorization e) = Some t" "JSON_parse (base64_decode t) = None"
  shows "shared_orders S e link st = (Response 401 (message ''Invalid token''), st)"
    and "shared_payment_status S e link oid ps st = (Response 401 (message ''Invalid token''), st)"
  using assms by (simp_all add: shared_orders_def shared_payment_status_def)

text \<open>
  \<open>JSON.parse\<close> rounds a number to the nearest double, where \<open>parse_number\<close> keeps the
  decimal value of the text. The two agree on a text that denotes a safe integer
  (\<open>Number.isSafeInteger\<close>: an integer of magnitude below \<open>2^53\<close>). What follows is stated
  for tokens whose \<open>catalogueId\<close> and \<open>exp\<close>, where they are numbers, are such integers;
  these are the two numbers the handlers read from a token.
\<close>

definition isSafeInteger :: "rat \<Rightarrow> bool" where
  "isSafeInteger x = (x = of_int \<lfloor>x\<rfloor> \<and> \<bar>x\<bar> < 2 ^ 53)"

definition exact_number :: "json option \<Rightarrow> bool" where
  "exact_number v = (case v of Some (JNum x) \<Rightarrow> isSafeInteger x | _ \<Rightarrow> True)"

definition exact_numbers :: "string \<Rightarrow> bool" where
  "exact_numbers t =
     (case decode_token t of
        None \<Rightarrow> True
      | Some td \<Rightarrow>
          exact_number (get_prop td ''catalogueId'') \<and> exact_number (get_prop td ''exp''))"

text \<open>
  Two tokens outside that condition: \<open>exp\<close> is \<open>999.99999999999999999\<close> in the first and
  \<open>catalogueId\<close> is \<open>1.0000000000000000001\<close> in the second. \<open>JSON.parse\<close> reads 1000 and 1.
\<close>

definition rounded_exp_token :: string where
  "rounded_exp_token = ''eyJjYXRhbG9ndWVJZCI6MSwiZXhwIjo5OTkuOTk5OTk5OTk5OTk5OTk5OTl9''"

definition rounded_id_token :: string where
  "rounded_id_token = ''eyJjYXRhbG9ndWVJZCI6MS4wMDAwMDAwMDAwMDAwMDAwMDAxLCJleHAiOjIwMDB9''"

lemma rounded_tokens_not_exact:
  "\<not> exact_numbers rounded_exp_token" "\<not> exact_numbers rounded_id_token"
  by code_simp+

text \<open>
  C4 (as amended). With a Bearer token and a link that names a catalogue: on /view a
  malformed token gets 401, and so do an expired token and a token for another catalogue
  when the \<open>catalogueId\<close> and the \<open>exp\<close> of the token, where they are numbers, are safe
  integers; on /retailer-info a malformed token gets 401 and so does, under the same
  condition, an expired token, while a token that passes those checks but is for another
  catalogue gets 404 "Catalogue not found"; on /orders and /payment-status a token that
  does not decode gets 401. The store is unchanged.
\<close>

theorem token_failure_statuses:
  assumes "bearer (e_authorization e) = Some t"
    and "getCatalogueByLink S link st = Some c"
  shows "(malformed t \<or> exact_numbers t \<and> (expired e t \<or> mismatched t (c_id c)) \<longrightarrow>
            status_of (fst (shared_view S e link st)) = Some 401 \<and>
            snd (shared_view S e link st) = st) \<and>
         (malformed t \<or> exact_numbers t \<and> expired e t \<longrightarrow>
            status_of (fst (retailer_info S e link em st)) = Some 401 \<and>
            snd (retailer_info S e link em st) = st) \<and>
         (exact_numbers t \<and> check_token e t = Valid td \<and> mismatched t (c_id c) \<longrightarrow>
            retailer_info S e link em st =
              (Response 404 (message ''Catalogue not found''), st)) \<and>
         (JSON_parse (base64_decode t) = None \<longrightarrow>
            shared_orders S e link st = (Response 401 (message ''Invalid token''), st) \<and>
            shared_payment_status S e link oid ps st =
              (Response 401 (message ''Invalid token''), st))"
  using view_401 [OF assms] retailer_info_401 [OF assms(1)] retailer_info_404 [OF assms]
    undecodable_401 [OF assms(1)]
  by blast

text \<open>Tokens for the examples: minted for catalogue 1, for catalogue 2, and long expired.\<close>

definition token_for :: "int \<Rightarrow> int \<Rightarrow> string" where
  "token_for cid ex =
     btoa (JSON_stringify \<lparr>tp_catalogueId = cid, tp_email = ''rita@shop.example'', tp_exp = ex\<rparr>)"

definition with_token :: "string \<Rightarrow> env" where
  "with_token t = (demo_env None)\<lparr>e_authorization := Some (''Bearer '' @ t)\<rparr>"

lemma with_token_simps:
  "bearer (e_authorization (with_token t)) = Some t" "e_now (with_token t) = 1000"
  by (simp_all add: with_token_def bearer_def demo_env_def)

lemma token_for_checks:
  "check_token (with_token t) (token_for cid ex) =
     (if cid = 0 \<or> ex = 0 then Malformed else if ex < 1000 then Expired
      else Valid (JObj [(''catalogueId'', num cid), (''email'', JStr ''rita@shop.example''),
                        (''exp'', num ex)]))"
  by (simp add: token_for_def check_token_minted with_token_simps)

lemma token_for_decode:
  "decode_token (token_for cid ex) =
     Some (JObj [(''catalogueId'', num cid), (''email'', JStr ''rita@shop.example''),
                 (''exp'', num ex)])"
  by (simp add: token_for_def decode_token_minted)

lemma token_for_exact:
  "\<bar>cid\<bar> < 2 ^ 53 \<Longrightarrow> \<bar>ex\<bar> < 2 ^ 53 \<Longrightarrow> exact_numbers (token_for cid ex)"
  by (simp add: exact_numbers_def exact_number_def isSafeInteger_def token_for_decode num_def
      flip: of_int_abs)

lemma demo_link: "getCatalogueByLink MemStorage ''catalogue-abc'' demo_store = Some demo_catalogue"
  by (simp add: MemStorage_def Mem_getCatalogueByLink_def demo_store_def demo_catalogue_def)

lemma garbage_token: "JSON_parse (base64_decode ''!!!'') = None"
  by code_simp

text \<open>An expired token, a token for catalogue 2 and a token that is no base64 at all.\<close>

theorem token_failure_statuses_witness:
  "status_of (fst (shared_view MemStorage (with_token (token_for 1 1)) ''catalogue-abc''
                     demo_store)) = Some 401 \<and>
   status_of (fst (retailer_info MemStorage (with_token (token_for 1 1)) ''catalogue-abc''
                     (Some ''rita@shop.example'') demo_store)) = Some 401 \<and>
   status_of (fst (shared_view MemStorage (with_token (token_for 2 2000)) ''catalogue-abc''
                     demo_store)) = Some 401 \<and>
   retailer_info MemStorage (with_token (token_for 2 2000)) ''catalogue-abc''
     (Some ''rita@shop.example'') demo_store =
     (Response 404 (message ''Catalogue not found''), demo_store) \<and>
   shared_orders MemStorage (with_token ''!!!'') ''catalogue-abc'' demo_store =
     (Response 401 (message ''Invalid token''), demo_store)"
proof -
  have ex: "expired (with_token (token_for 1 1)) (token_for 1 1)"
    by (simp add: expired_def token_for_decode with_token_simps num_def)
  have mm: "mismatched (token_for 2 2000) (c_id demo_catalogue)"
    by (simp add: mismatched_def token_for_decode demo_catalogue_def num_def)
  have sf: "exact_numbers (token_for 1 1)" "exact_numbers (token_for 2 2000)"
    by (simp_all add: token_for_exact)
  have va: "check_token (with_token (token_for 2 2000)) (token_for 2 2000) =
            Valid (JObj [(''catalogueId'', num 2), (''email'', JStr ''rita@shop.example''),
                         (''exp'', num 2000)])"
    by (simp add: token_for_checks)
  show ?thesis
    using token_failure_statuses [OF with_token_simps(1) demo_link,
        of "token_for 1 1" "Some ''rita@shop.example''"] ex
      token_failure_statuses [OF with_token_simps(1) demo_link,
        of "token_for 2 2000" "Some ''rita@shop.example''"] mm va sf
      token_failure_statuses [OF with_token_simps(1) demo_link, of "''!!!''"] garbage_token
    by simp
qed

text \<open>
  C4 as stated fails: on /retailer-info a token for catalogue 2, sent with the link of
  catalogue 1, gets 404.
\<close>

theorem retailer_info_mismatch_counterexample:
  "bearer (e_authorization (with_token (token_for 2 2000))) = Some (token_for 2 2000) \<and>
   getCatalogueByLink MemStorage ''catalogue-abc'' demo_store = Some demo_catalogue \<and>
   exact_numbers (token_for 2 2000) \<and>
   mismatched (token_for 2 2000) (c_id demo_catalogue) \<and>
   status_of (fst (retailer_info MemStorage (with_token (token_for 2 2000)) ''catalogue-abc''
                     (Some ''rita@shop.example'') demo_store)) = Some 404"
proof -
  have mm: "mismatched (token_for 2 2000) (c_id demo_catalogue)"
    by (simp add: mismatched_def token_for_decode demo_catalogue_def num_def)
  have "retailer_info MemStorage (with_token (token_for 2 2000)) ''catalogue-abc''
          (Some ''rita@shop.example'') demo_store =
        (Response 404 (message ''Catalogue not found''), demo_store)"
    by (rule retailer_info_404 [OF with_token_simps(1) demo_link _ mm])
       (simp add: token_for_checks)
  then show ?thesis
    using mm by (simp add: with_token_simps demo_link status_of_def token_for_exact)
qed

lemma demo_link_orders:
  "getCatalogueByLink MemStorage ''catalogue-abc'' demo_store_orders = Some demo_catalogue"
  by (simp add: MemStorage_def Mem_getCatalogueByLink_def demo_store_orders_def demo_store_def
      demo_catalogue_def)

lemma token_for_parse:
  "JSON_parse (base64_decode (token_for cid ex)) =
     Some (JObj [(''catalogueId'', num cid), (''email'', JStr ''rita@shop.example''),
                 (''exp'', num ex)])"
  by (simp add: token_for_def decode_minted)

text \<open>
  C1. /view and /retailer-info refuse an expired token and a token for another catalogue
  (the lemmas above); /orders and /payment-status do not: with a token that expired
  long ago and names catalogue 999, GET /api/shared/catalogue-abc/orders returns the
  orders of the email in the token, and PUT .../payment-status changes the order.
\<close>

theorem shared_orders_accepts_stale_token:
  "expired (with_token (token_for 999 1)) (token_for 999 1) \<and>
   mismatched (token_for 999 1) (c_id demo_catalogue) \<and>
   getCatalogueByLink MemStorage ''catalogue-abc'' demo_store_orders = Some demo_catalogue \<and>
   shared_orders MemStorage (with_token (token_for 999 1)) ''catalogue-abc'' demo_store_orders =
     (Response 200 (Some (JArr [order_json demo_order])), demo_store_orders) \<and>
   shared_payment_status MemStorage (with_token (token_for 999 1)) ''catalogue-abc''
       ''ORD-AAAAAA'' (Some ''paid'') demo_store_orders =
     (Response 200 (Some (order_json (demo_order\<lparr>o_paymentStatus := Some ''paid''\<rparr>))),
      demo_store_orders\<lparr>orders := [demo_order\<lparr>o_paymentStatus := Some ''paid''\<rparr>]\<rparr>)"
proof -
  have ex: "expired (with_token (token_for 999 1)) (token_for 999 1)"
    by (simp add: expired_def token_for_decode with_token_simps num_def)
  have mm: "mismatched (token_for 999 1) (c_id demo_catalogue)"
    by (simp add: mismatched_def token_for_decode demo_catalogue_def num_def)
  have so: "shared_orders MemStorage (with_token (token_for 999 1)) ''catalogue-abc''
              demo_store_orders =
            (Response 200 (Some (JArr [order_json demo_order])), demo_store_orders)"
    by (simp add: shared_orders_def with_token_simps token_for_parse demo_link_orders)
       (simp add: MemStorage_def Mem_getOrdersByEmail_def demo_store_orders_def demo_order_def)
  have sp: "shared_payment_status MemStorage (with_token (token_for 999 1)) ''catalogue-abc''
              ''ORD-AAAAAA'' (Some ''paid'') demo_store_orders =
            (Response 200 (Some (order_json (demo_order\<lparr>o_paymentStatus := Some ''paid''\<rparr>))),
             demo_store_orders\<lparr>orders := [demo_order\<lparr>o_paymentStatus := Some ''paid''\<rparr>]\<rparr>)"
    by (simp add: shared_payment_status_def with_token_simps token_for_parse demo_lookups)
       (simp add: MemStorage_def Mem_updateOrderPaymentStatus_def demo_store_orders_def
          demo_order_def Let_def)
  show ?thesis using ex mm so sp demo_link_orders by simp
qed

section \<open>The view counter\<close>

lemma find_Some_mem: "find P rows = Some r \<Longrightarrow> r \<in> set rows \<and> P r"
  by (induction rows) (auto split: if_splits)

lemma map_get_of_mem:
  "distinct (map key rows) \<Longrightarrow> r \<in> set rows \<Longrightarrow> map_get key (key r) rows = Some r"
  by (induction rows) (auto simp: map_get_def)

lemma map_get_map_set:
  "map_get key k (map_set key v rows) =
     (if k = key v then Some v else map_get key k rows)"
  by (induction rows) (auto simp: map_get_def)

lemma find_map_set:
  "distinct (map key rows) \<Longrightarrow> find P rows = Some r \<Longrightarrow> key r' = key r \<Longrightarrow> P r' \<Longrightarrow>
   find P (map_set key r' rows) = Some r'"
  by (induction rows) (auto split: if_splits dest!: find_Some_mem)

lemma map_set_same_keys:
  "r \<in> set rows \<Longrightarrow> key r' = key r \<Longrightarrow> map key (map_set key r' rows) = map key rows"
  by (induction rows) auto

lemma find_map_upd:
  "distinct (map key rows) \<Longrightarrow> find P rows = Some r \<Longrightarrow> key (f r) = key r \<Longrightarrow> P (f r) \<Longrightarrow>
   find P (map (\<lambda>x. if key x = key r then f x else x) rows) = Some (f r)"
  by (induction rows) (auto split: if_splits dest!: find_Some_mem)

lemma find_key_map_upd:
  "(\<And>x. key (f x) = key x) \<Longrightarrow>
   find (\<lambda>x. key x = k) (map (\<lambda>x. if key x = i then f x else x) rows) =
     map_option (\<lambda>x. if key x = i then f x else x) (find (\<lambda>x. key x = k) rows)"
  by (induction rows) auto

lemma keys_map_upd:
  "(\<And>x. key (f x) = key x) \<Longrightarrow>
   map key (map (\<lambda>x. if key x = i then f x else x) rows) = map key rows"
  by (induction rows) auto

text \<open>One view, seen from the catalogue the link names.\<close>

definition bumped :: "catalogue \<Rightarrow> catalogue" where
  "bumped c = c\<lparr>c_views := Some (views_or_0 (c_views c) + 1)\<rparr>"

lemma Mem_increment:
  assumes "distinct (map c_id (catalogues st))"
    and "Mem_getCatalogueByLink link st = Some c"
  shows "Mem_getCatalogueByLink link (Mem_incrementCatalogueViews (c_id c) st) = Some (bumped c)"
    and "Mem_getCatalogue (c_id c) (Mem_incrementCatalogueViews (c_id c) st) = Some (bumped c)"
    and "distinct (map c_id (catalogues (Mem_incrementCatalogueViews (c_id c) st)))"
proof -
  have f: "find (\<lambda>c. c_shareableLink c = link) (catalogues st) = Some c"
    using assms(2) by (simp add: Mem_getCatalogueByLink_def)
  then have m: "c \<in> set (catalogues st)" and l: "c_shareableLink c = link"
    using find_Some_mem [OF f] by simp_all
  have g: "map_get c_id (c_id c) (catalogues st) = Some c"
    by (rule map_get_of_mem [OF assms(1) m])
  have st': "catalogues (Mem_incrementCatalogueViews (c_id c) st) =
             map_set c_id (bumped c) (catalogues st)"
    using g by (simp add: Mem_incrementCatalogueViews_def bumped_def)
  show "Mem_getCatalogueByLink link (Mem_incrementCatalogueViews (c_id c) st) = Some (bumped c)"
    unfolding Mem_getCatalogueByLink_def st'
    by (rule find_map_set [OF assms(1) f]) (simp_all add: bumped_def l)
  show "Mem_getCatalogue (c_id c) (Mem_incrementCatalogueViews (c_id c) st) = Some (bumped c)"
    unfolding Mem_getCatalogue_def st' by (simp add: map_get_map_set bumped_def)
  show "distinct (map c_id (catalogues (Mem_incrementCatalogueViews (c_id c) st)))"
    unfolding st' using map_set_same_keys [OF m, of c_id "bumped c"] assms(1)
    by (simp add: bumped_def)
qed

lemma Db_increment:
  assumes "distinct (map c_id (catalogues st))"
    and "Db_getCatalogueByLink link st = Some c"
  shows "Db_getCatalogueByLink link (Db_incrementCatalogueViews (c_id c) st) = Some (bumped c)"
    and "Db_getCatalogue (c_id c) (Db_incrementCatalogueViews (c_id c) st) = Some (bumped c)"
    and "distinct (map c_id (catalogues (Db_incrementCatalogueViews (c_id c) st)))"
proof -
  have f: "find (\<lambda>c. c_shareableLink c = link) (catalogues st) = Some c"
    using assms(2) by (simp add: Db_getCatalogueByLink_def)
  then have m: "c \<in> set (catalogues st)" and l: "c_shareableLink c = link"
    using find_Some_mem [OF f] by simp_all
  have g: "Db_getCatalogue (c_id c) st = Some c"
    using map_get_of_mem [OF assms(1) m] by (simp add: Db_getCatalogue_def map_get_def)
  let ?f = "\<lambda>r. r\<lparr>c_views := Some (views_or_0 (c_views c) + 1)\<rparr>"
  have st': "catalogues (Db_incrementCatalogueViews (c_id c) st) =
             map (\<lambda>r. if c_id r = c_id c then ?f r else r) (catalogues st)"
    using g by (simp add: Db_incrementCatalogueViews_def)
  have b: "?f c = bumped c" by (simp add: bumped_def)
  show "Db_getCatalogueByLink link (Db_incrementCatalogueViews (c_id c) st) = Some (bumped c)"
    unfolding Db_getCatalogueByLink_def st' b [symmetric]
    by (rule find_map_upd [OF assms(1) f]) (simp_all add: l)
  show "Db_getCatalogue (c_id c) (Db_incrementCatalogueViews (c_id c) st) = Some (bumped c)"
    unfolding Db_getCatalogue_def st'
    using g by (simp add: find_key_map_upd Db_getCatalogue_def b)
  have "map c_id (map (\<lambda>r. if c_id r = c_id c then ?f r else r) (catalogues st)) =
        map c_id (catalogues st)"
    by (rule keys_map_upd) simp
  then show "distinct (map c_id (catalogues (Db_incrementCatalogueViews (c_id c) st)))"
    unfolding st' using assms(1) by (simp only:)
qed

text \<open>A request to /view that carries a token the handler accepts for the catalogue.\<close>

definition accepted_for :: "env \<Rightarrow> catalogue \<Rightarrow> bool" where
  "accepted_for e c =
     (case bearer (e_authorization e) of
        None \<Rightarrow> False
      | Some token \<Rightarrow>
          (case check_token e token of
             Valid tokenData \<Rightarrow> get_prop tokenData ''catalogueId'' = Some (num (c_id c))
           | _ \<Rightarrow> False))"

lemma shared_view_state:
  assumes "accepted_for e c" "getCatalogueByLink S link st = Some c"
  shows "snd (shared_view S e link st) = incrementCatalogueViews S (c_id c) st"
  using assms
  by (auto simp: accepted_for_def shared_view_def Let_def
      split: option.splits token_check.splits)

lemma accepted_for_bumped: "accepted_for e (bumped c) = accepted_for e c"
  by (auto simp: accepted_for_def bumped_def split: option.splits token_check.splits)

lemma bumped_twice: "c_views (bumped (bumped c)) = Some (views_or_0 (c_views c) + 2)"
  by (simp add: bumped_def views_or_0_def)

text \<open>
  C7. When the ids of the catalogues are distinct (as the storage makes them), two
  GET /api/shared/:link/view requests in a row, each with a token the handler accepts
  for the catalogue of the link, leave that catalogue with its former \<open>views\<close> plus 2
  (null counting as 0), with MemStorage and with DatabaseStorage.
\<close>

theorem two_views_add_two:
  assumes "S = MemStorage \<or> S = DatabaseStorage"
    and "distinct (map c_id (catalogues st))"
    and "getCatalogueByLink S link st = Some c"
    and "accepted_for e1 c" and "accepted_for e2 c"
  shows "map_option c_views
           (getCatalogue S (c_id c)
              (snd (shared_view S e2 link (snd (shared_view S e1 link st))))) =
         Some (Some (views_or_0 (c_views c) + 2))"
proof -
  have id: "c_id (bumped c) = c_id c" by (simp add: bumped_def)
  from assms(1) show ?thesis
  proof
    assume S: "S = MemStorage"
    have sel: "getCatalogueByLink MemStorage = Mem_getCatalogueByLink"
      "getCatalogue MemStorage = Mem_getCatalogue"
      "incrementCatalogueViews MemStorage = Mem_incrementCatalogueViews"
      by (simp_all add: MemStorage_def)
    have l: "Mem_getCatalogueByLink link st = Some c" using assms(3) S sel by simp
    note s1 = Mem_increment [OF assms(2) l]
    note s2 = Mem_increment [OF s1(3) s1(1)]
    have "snd (shared_view S e1 link st) = Mem_incrementCatalogueViews (c_id c) st"
      using shared_view_state [OF assms(4) assms(3)] S sel by simp
    moreover have "snd (shared_view S e2 link (Mem_incrementCatalogueViews (c_id c) st)) =
        Mem_incrementCatalogueViews (c_id c) (Mem_incrementCatalogueViews (c_id c) st)"
      using shared_view_state [of e2 "bumped c" S link
          "Mem_incrementCatalogueViews (c_id c) st"] assms(5) s1(1) S sel
      by (simp add: accepted_for_bumped id)
    ultimately show ?thesis
      using s2(2) S sel by (simp add: id bumped_twice)
  next
    assume S: "S = DatabaseStorage"
    have sel: "getCatalogueByLink DatabaseStorage = Db_getCatalogueByLink"
      "getCatalogue DatabaseStorage = Db_getCatalogue"
      "incrementCatalogueViews DatabaseStorage = Db_incrementCatalogueViews"
      by (simp_all add: DatabaseStorage_def)
    have l: "Db_getCatalogueByLink link st = Some c" using assms(3) S sel by simp
    note s1 = Db_increment [OF assms(2) l]
    note s2 = Db_increment [OF s1(3) s1(1)]
    have "snd (shared_view S e1 link st) = Db_incrementCatalogueViews (c_id c) st"
      using shared_view_state [OF assms(4) assms(3)] S sel by simp
    moreover have "snd (shared_view S e2 link (Db_incrementCatalogueViews (c_id c) st)) =
        Db_incrementCatalogueViews (c_id c) (Db_incrementCatalogueViews (c_id c) st)"
      using shared_view_state [of e2 "bumped c" S link
          "Db_incrementCatalogueViews (c_id c) st"] assms(5) s1(1) S sel
      by (simp add: accepted_for_bumped id)
    ultimately show ?thesis
      using s2(2) S sel by (simp add: id bumped_twice)
  qed
qed

lemma demo_accepted: "accepted_for (with_token (token_for 1 2000)) demo_catalogue"
  by (simp add: accepted_for_def with_token_simps token_for_checks demo_catalogue_def)

text \<open>Two views of the example catalogue, which starts at 0 views.\<close>

theorem two_views_add_two_witness:
  "map_option c_views
     (getCatalogue MemStorage 1
        (snd (shared_view MemStorage (with_token (token_for 1 2000)) ''catalogue-abc''
                (snd (shared_view MemStorage (with_token (token_for 1 2000)) ''catalogue-abc''
                        demo_store))))) = Some (Some 2)"
proof -
  have d: "distinct (map c_id (catalogues demo_store))"
    by (simp add: demo_store_def)
  show ?thesis
    using two_views_add_two [OF _ d demo_link demo_accepted demo_accepted]
    by (simp add: demo_catalogue_def views_or_0_def)
qed

section \<open>The distributor in a shared view\<close>











section \<open>The life of an access request\<close>

lemma find_app:
  "find P (xs @ ys) = (case find P xs of None \<Rightarrow> find P ys | Some x \<Rightarrow> Some x)"
  by (induction xs) auto





text \<open>The ids of the access requests are below the next id.\<close>

definition fresh_request_id :: "store \<Rightarrow> bool" where
  "fresh_request_id st = list_all (\<lambda>r. ar_id r < currentAccessRequestId st) (accessRequests st)"















text \<open>Rita asks for the catalogue of Alice; a body without any field; a rejected request.\<close>

definition rita_body :: accessBody where
  "rita_body = \<lparr>ab_name = Some ''Rita'', ab_email = Some ''rita@shop.example'',
     ab_company = Some ''Shop'', ab_message = None\<rparr>"



definition demo_first_request :: accessRequest where
  "demo_first_request = \<lparr>ar_id = 1, ar_catalogueId = 1, ar_name = ''Rita'',
     ar_email = ''rita@shop.example'', ar_company = ''Shop'', ar_message = Some [],
     ar_status = ''pending'', ar_requestDate = 1000\<rparr>"

definition demo_store_status :: "string \<Rightarrow> store" where
  "demo_store_status status =
     demo_store\<lparr>accessRequests := [demo_first_request\<lparr>ar_status := status\<rparr>],
                currentAccessRequestId := 2\<rparr>"



text \<open>A store where Rita already holds an approved request for catalogue 1.\<close>

definition demo_earlier_request :: accessRequest where
  "demo_earlier_request = \<lparr>ar_id = 1, ar_catalogueId = 1, ar_name = ''Rita'',
     ar_email = ''rita@shop.example'', ar_company = ''Shop'', ar_message = None,
     ar_status = ''approved'', ar_requestDate = 0\<rparr>"

definition demo_store_earlier :: store where
  "demo_store_earlier =
     demo_store\<lparr>accessRequests := [demo_earlier_request], currentAccessRequestId := 2\<rparr>"




section \<open>Decided access requests\<close>

text \<open>The access requests of a store and the next request id.\<close>

definition requests_of :: "store \<Rightarrow> accessRequest list \<times> int" where
  "requests_of st = (accessRequests st, currentAccessRequestId st)"

lemma Mem_frame:
  "requests_of (snd (Mem_createProduct now ip st)) = requests_of st"
  "requests_of (snd (Mem_updateProduct i pu st)) = requests_of st"
  "requests_of (snd (Mem_deleteProduct i st)) = requests_of st"
  "requests_of (snd (Mem_createCatalogue now ic st)) = requests_of st"
  "requests_of (snd (Mem_updateCatalogue i cu st)) = requests_of st"
  "requests_of (snd (Mem_deleteCatalogue i st)) = requests_of st"
  "requests_of (Mem_incrementCatalogueViews i st) = requests_of st"
  "requests_of (snd (Mem_addProductToCatalogue i j st)) = requests_of st"
  "requests_of (snd (Mem_removeProductFromCatalogue i j st)) = requests_of st"
  "requests_of (snd (Mem_createOrder now rnd io st)) = requests_of st"
  "requests_of (snd (Mem_updateOrderPaymentStatus oid ps st)) = requests_of st"
  by (simp_all add: requests_of_def Mem_createProduct_def Mem_updateProduct_def
      Mem_deleteProduct_def Mem_createCatalogue_def Mem_updateCatalogue_def
      Mem_deleteCatalogue_def Mem_incrementCatalogueViews_def Mem_addProductToCatalogue_def
      Mem_removeProductFromCatalogue_def Mem_createOrder_def Mem_updateOrderPaymentStatus_def
      Let_def split: option.splits)

lemma Db_frame:
  "requests_of (snd (Db_createProduct now ip st)) = requests_of st"
  "requests_of (snd (Db_updateProduct i pu st)) = requests_of st"
  "requests_of (snd (Db_deleteProduct i st)) = requests_of st"
  "requests_of (snd (Db_createCatalogue now ic st)) = requests_of st"
  "requests_of (snd (Db_updateCatalogue i cu st)) = requests_of st"
  "requests_of (snd (Db_deleteCatalogue i st)) = requests_of st"
  "requests_of (Db_incrementCatalogueViews i st) = requests_of st"
  "requests_of (snd (Db_addProductToCatalogue i j st)) = requests_of st"
  "requests_of (snd (Db_removeProductFromCatalogue i j st)) = requests_of st"
  "requests_of (snd (Db_createOrder now rnd io st)) = requests_of st"
  "requests_of (snd (Db_updateOrderPaymentStatus oid ps st)) = requests_of st"
  by (simp_all add: requests_of_def Db_createProduct_def Db_updateProduct_def
      Db_deleteProduct_def Db_createCatalogue_def Db_updateCatalogue_def
      Db_deleteCatalogue_def Db_incrementCatalogueViews_def Db_addProductToCatalogue_def
      Db_removeProductFromCatalogue_def Db_createOrder_def Db_updateOrderPaymentStatus_def
      Let_def split: option.splits)

lemma storage_frame:
  assumes "S = MemStorage \<or> S = DatabaseStorage"
  shows "requests_of (snd (createProduct S now ip st)) = requests_of st"
    "requests_of (snd (updateProduct S i pu st)) = requests_of st"
    "requests_of (snd (deleteProduct S i st)) = requests_of st"
    "requests_of (snd (createCatalogue S now ic st)) = requests_of st"
    "requests_of (snd (updateCatalogue S i cu st)) = requests_of st"
    "requests_of (snd (deleteCatalogue S i st)) = requests_of st"
    "requests_of (incrementCatalogueViews S i st) = requests_of st"
    "requests_of (snd (addProductToCatalogue S i j st)) = requests_of st"
    "requests_of (snd (removeProductFromCatalogue S i j st)) = requests_of st"
    "requests_of (snd (createOrder S now rnd io st)) = requests_of st"
    "requests_of (snd (updateOrderPaymentStatus S oid ps st)) = requests_of st"
  using assms by (auto simp: MemStorage_def DatabaseStorage_def Mem_frame Db_frame)

lemma add_products_frame:
  assumes "S = MemStorage \<or> S = DatabaseStorage"
  shows "requests_of (add_products S uid cid refs st) = requests_of st"
  by (induction refs arbitrary: st) (auto simp: storage_frame [OF assms] split: option.splits)

lemma add_new_products_frame:
  assumes "S = MemStorage \<or> S = DatabaseStorage"
  shows "requests_of (add_new_products S uid cid cur refs st) = requests_of st"
  by (induction refs arbitrary: st) (auto simp: storage_frame [OF assms] split: option.splits)

lemma remove_old_products_frame:
  assumes "S = MemStorage \<or> S = DatabaseStorage"
  shows "requests_of (remove_old_products S cid refs cur st) = requests_of st"
  by (induction cur arbitrary: st) (auto simp: storage_frame [OF assms] split: option.splits)

lemma snd_case_prod: "snd (case p of (a, b) \<Rightarrow> (f a, b)) = snd p"
  by (cases p) simp

lemma handlers_frame:
  assumes "S = MemStorage \<or> S = DatabaseStorage"
  shows "requests_of (snd (get_products S e st)) = requests_of st"
  "requests_of (snd (get_product S e i st)) = requests_of st"
  "requests_of (snd (post_product S e pb st)) = requests_of st"
  "requests_of (snd (put_product S e i pb st)) = requests_of st"
  "requests_of (snd (delete_product S e i st)) = requests_of st"
  "requests_of (snd (get_catalogues S e st)) = requests_of st"
  "requests_of (snd (get_catalogue S e i st)) = requests_of st"
  "requests_of (snd (delete_catalogue S e i st)) = requests_of st"
  "requests_of (snd (shared_info S l st)) = requests_of st"
  "requests_of (snd (check_access S e l em st)) = requests_of st"
  "requests_of (snd (retailer_info S e l em st)) = requests_of st"
  "requests_of (snd (shared_orders S e l st)) = requests_of st"
  "requests_of (snd (shared_payment_status S e l oid ps st)) = requests_of st"
  "requests_of (snd (shared_view S e l st)) = requests_of st"
  "requests_of (snd (get_access_requests S e i st)) = requests_of st"
  "requests_of (snd (get_orders S e st)) = requests_of st"
  "requests_of (snd (get_order S e oid st)) = requests_of st"
  "requests_of (snd (post_order S e ob st)) = requests_of st"
  "requests_of (snd (put_order_status S e oid ps st)) = requests_of st"
  by (auto simp: get_products_def get_product_def post_product_def put_product_def
      delete_product_def get_catalogues_def get_catalogue_def delete_catalogue_def
      shared_info_def check_access_def retailer_info_def shared_orders_def
      shared_payment_status_def shared_view_def get_access_requests_def get_orders_def
      get_order_def post_order_def put_order_status_def Let_def storage_frame [OF assms]
      snd_case_prod
      split: option.splits token_check.splits prod.splits)

lemma catalogue_handlers_frame:
  assumes "S = MemStorage \<or> S = DatabaseStorage"
  shows "requests_of (snd (post_catalogue S e cb st)) = requests_of st"
  "requests_of (snd (put_catalogue S e i cb st)) = requests_of st"
  by (auto simp: post_catalogue_def put_catalogue_def Let_def storage_frame [OF assms]
      add_products_frame [OF assms] add_new_products_frame [OF assms]
      remove_old_products_frame [OF assms]
      split: option.splits prod.splits
      dest!: arg_cong [where f = "\<lambda>p. requests_of (snd p)"])

lemma handle_frame:
  assumes "S = MemStorage \<or> S = DatabaseStorage"
    and "\<And>l b. r \<noteq> RequestAccess l b" "\<And>j s. r \<noteq> PutAccessRequest j s"
  shows "requests_of (snd (handle S e r st)) = requests_of st"
  using assms(2,3)
  by (cases r) (auto simp: handlers_frame [OF assms(1)] catalogue_handlers_frame [OF assms(1)])

text \<open>What the two remaining routes do to the store: nothing, or one call of the storage.\<close>

lemma request_access_state:
  "snd (request_access S e l b st) = st \<or>
   (\<exists>ins. snd (request_access S e l b st) = snd (createAccessRequest S (e_now e) ins st))"
proof (cases "fst (request_access S e l b st)")
  case (Response n body)
  show ?thesis
  proof (cases "n = 201")
    case True
    with Response show ?thesis
      by (auto simp: request_access_def Let_def message_def
          split: option.splits prod.splits if_splits)
         (metis snd_conv)
  next
    case False
    with Response show ?thesis
      by (auto simp: request_access_def Let_def split: option.splits prod.splits if_splits)
  qed
next
  case (Next err)
  then show ?thesis
    by (auto simp: request_access_def Let_def split: option.splits prod.splits if_splits)
qed

text \<open>A request whose status is final, with the rest of its row.\<close>

definition final :: "string \<Rightarrow> bool" where
  "final status = (status \<in> set [''approved'', ''rejected''])"

lemma put_access_request_state:
  "snd (put_access_request S e j status st) = st \<or>
   (\<exists>s. final s \<and>
        snd (put_access_request S e j status st) = snd (updateAccessRequest S j s st))"
  by (auto simp: put_access_request_def final_def split: option.splits)

definition decided :: "IStorage \<Rightarrow> store \<Rightarrow> int \<Rightarrow> accessRequest \<Rightarrow> bool" where
  "decided S st i a =
     (fresh_request_id st \<and>
      (case getAccessRequest S i st of
         None \<Rightarrow> False
       | Some a' \<Rightarrow> final (ar_status a') \<and> a'\<lparr>ar_status := ar_status a\<rparr> = a))"

lemma getAccessRequest_frame:
  assumes "S = MemStorage \<or> S = DatabaseStorage" "requests_of st' = requests_of st"
  shows "getAccessRequest S i st' = getAccessRequest S i st"
  using assms
  by (auto simp: requests_of_def MemStorage_def DatabaseStorage_def Mem_getAccessRequest_def
      Db_getAccessRequest_def)

lemma decided_frame:
  assumes "S = MemStorage \<or> S = DatabaseStorage" "requests_of st' = requests_of st"
  shows "decided S st' i a = decided S st i a"
  using getAccessRequest_frame [OF assms] assms(2)
  by (simp add: requests_of_def decided_def fresh_request_id_def)

lemma set_map_set: "set (map_set key v rows) \<subseteq> insert v (set rows)"
  by (induction rows) auto

lemma getAccessRequest_row:
  assumes "S = MemStorage \<or> S = DatabaseStorage" "getAccessRequest S i st = Some a"
  shows "ar_id a = i \<and> a \<in> set (accessRequests st)"
  using assms map_get_Some_key [of ar_id i "accessRequests st" a]
    find_Some_mem [of "\<lambda>r. ar_id r = i" "accessRequests st" a]
  by (auto simp: MemStorage_def DatabaseStorage_def Mem_getAccessRequest_def
      Db_getAccessRequest_def)

text \<open>Creating a request leaves every earlier row as it is, and keeps the ids below the next id.\<close>

lemma create_keeps_row:
  assumes S: "S = MemStorage \<or> S = DatabaseStorage"
    and fr: "fresh_request_id st" and g: "getAccessRequest S i st = Some a"
  shows "getAccessRequest S i (snd (createAccessRequest S now ins st)) = Some a"
proof -
  have "ar_id a = i" "a \<in> set (accessRequests st)"
    using getAccessRequest_row [OF S g] by simp_all
  then have ne: "i \<noteq> currentAccessRequestId st"
    using fr by (auto simp: fresh_request_id_def list_all_iff)
  from S show ?thesis
  proof
    assume "S = MemStorage"
    then show ?thesis using g ne
      by (simp add: MemStorage_def Mem_createAccessRequest_def Let_def Mem_getAccessRequest_def
          map_get_map_set)
  next
    assume "S = DatabaseStorage"
    then show ?thesis using g ne
      by (simp add: DatabaseStorage_def Db_createAccessRequest_def Let_def
          Db_getAccessRequest_def find_app)
  qed
qed

lemma create_keeps_fresh:
  assumes S: "S = MemStorage \<or> S = DatabaseStorage" and fr: "fresh_request_id st"
  shows "fresh_request_id (snd (createAccessRequest S now ins st))"
  using S
proof
  assume m: "S = MemStorage"
  define v where "v = \<lparr>ar_id = currentAccessRequestId st, ar_catalogueId = iar_catalogueId ins,
      ar_name = iar_name ins, ar_email = iar_email ins, ar_company = iar_company ins,
      ar_message = nullish (iar_message ins), ar_status = or_else (iar_status ins) ''pending'',
      ar_requestDate = now\<rparr>"
  have st': "snd (createAccessRequest S now ins st) =
             st\<lparr>accessRequests := map_set ar_id v (accessRequests st),
                currentAccessRequestId := currentAccessRequestId st + 1\<rparr>"
    by (simp add: m MemStorage_def Mem_createAccessRequest_def Let_def v_def)
  have vk: "ar_id v = currentAccessRequestId st" by (simp add: v_def)
  have "\<forall>r \<in> set (map_set ar_id v (accessRequests st)).
          ar_id r < currentAccessRequestId st + 1"
    using fr vk set_map_set [of ar_id v "accessRequests st"]
    by (fastforce simp: fresh_request_id_def list_all_iff)
  then show ?thesis unfolding st' by (simp add: fresh_request_id_def list_all_iff)
next
  assume "S = DatabaseStorage"
  then show ?thesis using fr
    by (auto simp: DatabaseStorage_def Db_createAccessRequest_def Let_def
        fresh_request_id_def list_all_iff)
qed

text \<open>Writing a status changes the status of the rows with that id and nothing else.\<close>

lemma update_row:
  assumes S: "S = MemStorage \<or> S = DatabaseStorage"
    and g: "getAccessRequest S i st = Some a"
  shows "getAccessRequest S i (snd (updateAccessRequest S j status st)) =
         Some (if i = j then a\<lparr>ar_status := status\<rparr> else a)"
  using S
proof
  assume m: "S = MemStorage"
  show ?thesis
  proof (cases "map_get ar_id j (accessRequests st)")
    case None
    then show ?thesis using g
      by (auto simp: m MemStorage_def Mem_updateAccessRequest_def Mem_getAccessRequest_def)
  next
    case (Some r)
    then show ?thesis using g map_get_Some_key [OF Some]
      by (auto simp: m MemStorage_def Mem_updateAccessRequest_def Mem_getAccessRequest_def
          map_get_map_set)
  qed
next
  assume d: "S = DatabaseStorage"
  have "ar_id a = i" using getAccessRequest_row [OF S g] by simp
  then show ?thesis using g
    by (simp add: d DatabaseStorage_def Db_updateAccessRequest_def Db_getAccessRequest_def
        find_key_map_upd [where key = ar_id and f = "\<lambda>r. r\<lparr>ar_status := status\<rparr>"])
qed

lemma update_keeps_fresh:
  assumes S: "S = MemStorage \<or> S = DatabaseStorage" and fr: "fresh_request_id st"
  shows "fresh_request_id (snd (updateAccessRequest S j status st))"
  using S
proof
  assume m: "S = MemStorage"
  show ?thesis
  proof (cases "map_get ar_id j (accessRequests st)")
    case None
    then show ?thesis using fr by (simp add: m MemStorage_def Mem_updateAccessRequest_def)
  next
    case (Some r)
    have k: "ar_id r = j" "r \<in> set (accessRequests st)"
      using map_get_Some_key [OF Some] by simp_all
    have "\<forall>x \<in> set (map_set ar_id (r\<lparr>ar_status := status\<rparr>) (accessRequests st)).
            ar_id x < currentAccessRequestId st"
      using fr k set_map_set [of ar_id "r\<lparr>ar_status := status\<rparr>" "accessRequests st"]
      by (fastforce simp: fresh_request_id_def list_all_iff)
    then show ?thesis using Some
      by (simp add: m MemStorage_def Mem_updateAccessRequest_def fresh_request_id_def
          list_all_iff)
  qed
next
  assume "S = DatabaseStorage"
  then show ?thesis using fr
    by (auto simp: DatabaseStorage_def Db_updateAccessRequest_def fresh_request_id_def
        list_all_iff)
qed

lemma decided_create:
  assumes "S = MemStorage \<or> S = DatabaseStorage" "decided S st i a"
  shows "decided S (snd (createAccessRequest S now ins st)) i a"
proof -
  obtain a' where a': "getAccessRequest S i st = Some a'" and fr: "fresh_request_id st"
    using assms(2) by (auto simp: decided_def split: option.splits)
  show ?thesis
    using create_keeps_row [OF assms(1) fr a'] create_keeps_fresh [OF assms(1) fr] assms(2) a'
    by (simp add: decided_def)
qed

lemma decided_update:
  assumes "S = MemStorage \<or> S = DatabaseStorage" "decided S st i a" "final status"
  shows "decided S (snd (updateAccessRequest S j status st)) i a"
proof -
  obtain a' where a': "getAccessRequest S i st = Some a'" and fr: "fresh_request_id st"
    using assms(2) by (auto simp: decided_def split: option.splits)
  show ?thesis
    using update_row [OF assms(1) a'] update_keeps_fresh [OF assms(1) fr] assms(2,3) a'
    by (auto simp: decided_def)
qed

lemma decided_step:
  assumes S: "S = MemStorage \<or> S = DatabaseStorage" and d: "decided S st i a"
  shows "decided S (snd (handle S e r st)) i a"
proof (cases "(\<exists>l b. r = RequestAccess l b) \<or> (\<exists>j s. r = PutAccessRequest j s)")
  case False
  then have "requests_of (snd (handle S e r st)) = requests_of st"
    by (intro handle_frame [OF S]) auto
  from decided_frame [OF S this] d show ?thesis by blast
next
  case True
  then show ?thesis
  proof (elim disjE exE)
    fix l b
    assume r: "r = RequestAccess l b"
    from request_access_state [of S e l b st] show ?thesis
    proof (elim disjE exE)
      assume "snd (request_access S e l b st) = st"
      then show ?thesis using d r by auto
    next
      fix ins
      assume "snd (request_access S e l b st) = snd (createAccessRequest S (e_now e) ins st)"
      then show ?thesis using decided_create [OF S d, of "e_now e" ins] r by auto
    qed
  next
    fix j status
    assume r: "r = PutAccessRequest j status"
    from put_access_request_state [of S e j status st] show ?thesis
    proof (elim disjE exE conjE)
      assume "snd (put_access_request S e j status st) = st"
      then show ?thesis using d r by auto
    next
      fix s
      assume "final s" "snd (put_access_request S e j status st) =
              snd (updateAccessRequest S j s st)"
      then show ?thesis using decided_update [OF S d, of s j] r by auto
    qed
  qed
qed

lemma decided_run:
  assumes S: "S = MemStorage \<or> S = DatabaseStorage"
  shows "decided S st i a \<Longrightarrow> decided S (run S reqs st) i a"
proof (induction reqs arbitrary: st)
  case Nil
  then show ?case by simp
next
  case (Cons x reqs)
  obtain e r where x: "x = (e, r)" by (cases x)
  show ?case using Cons.IH [OF decided_step [OF S Cons.prems, of e r]] by (simp add: x)
qed

text \<open>Only PUT /api/access-requests/:id with the id of the request touches its row.\<close>

lemma untouched_step:
  assumes S: "S = MemStorage \<or> S = DatabaseStorage"
    and fr: "fresh_request_id st" and g: "getAccessRequest S i st = Some a"
    and r: "\<And>s. r \<noteq> PutAccessRequest i s"
  shows "getAccessRequest S i (snd (handle S e r st)) = Some a"
proof (cases "(\<exists>l b. r = RequestAccess l b) \<or> (\<exists>j s. r = PutAccessRequest j s)")
  case False
  then have "requests_of (snd (handle S e r st)) = requests_of st"
    by (intro handle_frame [OF S]) auto
  from getAccessRequest_frame [OF S this] g show ?thesis by simp
next
  case True
  then show ?thesis
  proof (elim disjE exE)
    fix l b
    assume rr: "r = RequestAccess l b"
    from request_access_state [of S e l b st] show ?thesis
    proof (elim disjE exE)
      assume "snd (request_access S e l b st) = st"
      then show ?thesis using g rr by simp
    next
      fix ins
      assume "snd (request_access S e l b st) = snd (createAccessRequest S (e_now e) ins st)"
      then show ?thesis using create_keeps_row [OF S fr g, of "e_now e" ins] rr by simp
    qed
  next
    fix j status
    assume rr: "r = PutAccessRequest j status"
    with r have ji: "i \<noteq> j" by auto
    from put_access_request_state [of S e j status st] show ?thesis
    proof (elim disjE exE conjE)
      assume "snd (put_access_request S e j status st) = st"
      then show ?thesis using g rr by simp
    next
      fix s
      assume "snd (put_access_request S e j status st) = snd (updateAccessRequest S j s st)"
      then show ?thesis using update_row [OF S g, of j s] rr ji by simp
    qed
  qed
qed

text \<open>
  C8 (as amended). With MemStorage and with DatabaseStorage, in a store whose request ids
  are below the next id: a request whose status is approved or rejected keeps, through
  every sequence of requests to the API, all its fields but the status, and its status
  stays one of approved and rejected (it never goes back to pending, and the row is never
  deleted). A single request leaves the row as it is unless it is
  PUT /api/access-requests/:id with the id of that row.
\<close>

theorem decided_request_stays_decided:
  assumes "S = MemStorage \<or> S = DatabaseStorage"
    and "fresh_request_id st"
    and "getAccessRequest S i st = Some a"
    and "final (ar_status a)"
  shows "(\<exists>a'. getAccessRequest S i (run S reqs st) = Some a' \<and>
               final (ar_status a') \<and> a'\<lparr>ar_status := ar_status a\<rparr> = a) \<and>
         ((\<forall>s. r \<noteq> PutAccessRequest i s) \<longrightarrow>
            getAccessRequest S i (snd (handle S e r st)) = Some a)"
proof
  have "decided S st i a" using assms by (simp add: decided_def)
  from decided_run [OF assms(1) this, of reqs]
  show "\<exists>a'. getAccessRequest S i (run S reqs st) = Some a' \<and>
             final (ar_status a') \<and> a'\<lparr>ar_status := ar_status a\<rparr> = a"
    by (auto simp: decided_def split: option.splits)
  show "(\<forall>s. r \<noteq> PutAccessRequest i s) \<longrightarrow>
        getAccessRequest S i (snd (handle S e r st)) = Some a"
    using untouched_step [OF assms(1,2,3), of r e] by blast
qed

text \<open>Alice rejects the request she approved before; Rita asks again.\<close>

definition reject_first :: "(env \<times> request) list" where
  "reject_first = [(demo_env (Some 1), PutAccessRequest 1 (Some ''rejected''))]"

definition ask_again :: request where
  "ask_again = RequestAccess ''catalogue-abc'' rita_body"

lemma demo_earlier_fresh: "fresh_request_id demo_store_earlier"
  by (simp add: fresh_request_id_def demo_store_earlier_def demo_earlier_request_def)

lemma demo_earlier_lookup:
  "getAccessRequest DatabaseStorage 1 demo_store_earlier = Some demo_earlier_request"
  by (simp add: DatabaseStorage_def Db_getAccessRequest_def demo_store_earlier_def
      demo_earlier_request_def)

theorem decided_request_stays_decided_witness:
  "fresh_request_id demo_store_earlier \<and>
   getAccessRequest DatabaseStorage 1 demo_store_earlier = Some demo_earlier_request \<and>
   final (ar_status demo_earlier_request) \<and>
   getAccessRequest DatabaseStorage 1 (run DatabaseStorage reject_first demo_store_earlier) =
     Some (demo_earlier_request\<lparr>ar_status := ''rejected''\<rparr>) \<and>
   final ''rejected'' \<and>
   getAccessRequest DatabaseStorage 1
       (snd (handle DatabaseStorage (demo_env None) ask_again demo_store_earlier)) =
     Some demo_earlier_request"
proof -
  have f: "final (ar_status demo_earlier_request)" "final ''rejected''"
    by (simp_all add: final_def demo_earlier_request_def)
  have r: "getAccessRequest DatabaseStorage 1
             (run DatabaseStorage reject_first demo_store_earlier) =
           Some (demo_earlier_request\<lparr>ar_status := ''rejected''\<rparr>)"
    by (simp add: reject_first_def put_access_request_def demo_earlier_request_def
        demo_catalogue_def demo_env_def demo_store_def DatabaseStorage_def
        Db_getCatalogue_def Db_updateAccessRequest_def Db_getAccessRequest_def
        demo_store_earlier_def)
  show ?thesis
    using decided_request_stays_decided [where S = DatabaseStorage and st = demo_store_earlier
        and i = 1 and a = demo_earlier_request and reqs = reject_first and r = ask_again
        and e = "demo_env None"]
      demo_earlier_fresh demo_earlier_lookup f r
    by (simp add: ask_again_def)
qed

text \<open>
  C8 as stated fails: Rita asks, Alice approves, Alice rejects. The last answer is 200 and
  the status of request 1 goes from approved to rejected, with either storage; one more
  PUT takes it back to approved.
\<close>

definition approve_then_reject :: "(env \<times> request) list" where
  "approve_then_reject =
     [(demo_env None, RequestAccess ''catalogue-abc'' rita_body),
      (demo_env (Some 1), PutAccessRequest 1 (Some ''approved'')),
      (demo_env (Some 1), PutAccessRequest 1 (Some ''rejected''))]"

theorem decided_request_counterexample:
  "run DatabaseStorage (take 2 approve_then_reject) demo_store = demo_store_status ''approved'' \<and>
   getAccessRequest DatabaseStorage 1 (demo_store_status ''approved'') =
     Some (demo_first_request\<lparr>ar_status := ''approved''\<rparr>) \<and>
   handle DatabaseStorage (demo_env (Some 1)) (PutAccessRequest 1 (Some ''rejected''))
       (demo_store_status ''approved'') =
     (Response 200 (Some (JObj [(''id'', num 1), (''status'', JStr ''rejected'')])),
      demo_store_status ''rejected'') \<and>
   handle DatabaseStorage (demo_env (Some 1)) (PutAccessRequest 1 (Some ''approved''))
       (demo_store_status ''rejected'') =
     (Response 200 (Some (JObj [(''id'', num 1), (''status'', JStr ''approved'')])),
      demo_store_status ''approved'') \<and>
   run DatabaseStorage approve_then_reject demo_store = demo_store_status ''rejected'' \<and>
   run MemStorage approve_then_reject demo_store = demo_store_status ''rejected'' \<and>
   getAccessRequest DatabaseStorage 1 (demo_store_status ''rejected'') =
     Some (demo_first_request\<lparr>ar_status := ''rejected''\<rparr>)"
  by (simp add: approve_then_reject_def request_access_def put_access_request_def
      rita_body_def demo_store_status_def demo_first_request_def demo_store_def
      demo_catalogue_def demo_env_def DatabaseStorage_def MemStorage_def
      Db_getCatalogueByLink_def Db_getAccessRequestByEmail_def Db_createAccessRequest_def
      Db_getAccessRequest_def Db_getCatalogue_def Db_updateAccessRequest_def
      Mem_getCatalogueByLink_def Mem_getAccessRequestByEmail_def Mem_createAccessRequest_def
      Mem_getAccessRequest_def Mem_getCatalogue_def Mem_updateAccessRequest_def
      map_get_def or_else_def nullish_def num_def Let_def)

section \<open>The product list of a catalogue under PUT /api/catalogues/:id\<close>

text \<open>A body of PUT /api/catalogues/:id that carries a name and \<open>productIds\<close>, and two such
  requests of Alice for catalogue 1.\<close>

definition sync_body :: "productRef list \<Rightarrow> catalogueBody" where
  "sync_body refs = \<lparr>pc_userId = None, pc_name = Some ''Spring'', pc_description = None,
     pc_shareableLink = None, pc_isPublic = None, cb_productIds = Some refs\<rparr>"

definition sync_twice :: "productRef list \<Rightarrow> productRef list \<Rightarrow> (env \<times> request) list" where
  "sync_twice first second =
     [(demo_env (Some 1), PutCatalogue 1 (sync_body first)),
      (demo_env (Some 1), PutCatalogue 1 (sync_body second))]"

definition catalogue_product_ids :: "IStorage \<Rightarrow> int \<Rightarrow> store \<Rightarrow> int list" where
  "catalogue_product_ids S cid st = map p_id (getCatalogueProducts S cid st)"

text \<open>
  C6. Alice owns catalogue 1 and the products 1, 2 and 3. She sends
  PUT /api/catalogues/1 with the name and \<open>productIds: [1, 2]\<close>, and then with the name
  and \<open>productIds: [2, 3]\<close>. After
  the first request the catalogue holds the products 1 and 2; after the second it holds
  product 3 alone, with either storage: the second loop looks for \<open>"2"\<close>, the id as a string,
  in a list of numbers, and removes product 2. The same two requests with the ids as
  strings leave the products 2 and 3.
\<close>

theorem put_catalogue_numeric_ids_remove_kept_product:
  "map p_userId (products demo_store) = [1, 1, 1] \<and>
   map_option c_userId (getCatalogue MemStorage 1 demo_store) = Some 1 \<and>
   catalogue_product_ids MemStorage 1
     (run MemStorage (take 1 (sync_twice [IdNumber 1, IdNumber 2] [IdNumber 2, IdNumber 3]))
        demo_store) = [1, 2] \<and>
   catalogue_product_ids MemStorage 1
     (run MemStorage (sync_twice [IdNumber 1, IdNumber 2] [IdNumber 2, IdNumber 3])
        demo_store) = [3] \<and>
   set (catalogue_product_ids DatabaseStorage 1
     (run DatabaseStorage (take 1 (sync_twice [IdNumber 1, IdNumber 2] [IdNumber 2, IdNumber 3]))
        demo_store)) = {1, 2} \<and>
   set (catalogue_product_ids DatabaseStorage 1
     (run DatabaseStorage (sync_twice [IdNumber 1, IdNumber 2] [IdNumber 2, IdNumber 3])
        demo_store)) = {3} \<and>
   catalogue_product_ids MemStorage 1
     (run MemStorage (sync_twice [IdString ''1'', IdString ''2''] [IdString ''2'', IdString ''3''])
        demo_store) = [2, 3] \<and>
   set (catalogue_product_ids DatabaseStorage 1
     (run DatabaseStorage
        (sync_twice [IdString ''1'', IdString ''2''] [IdString ''2'', IdString ''3''])
        demo_store)) = {2, 3}"
  by code_simp

end
